theory Spec2Isabelle
  imports Complex_Main "HOL-Library.Word"
begin

section \<open>The touchgrass.city game server (routes/ws/game.ts)\<close>

text \<open>
  A shallow embedding of the realtime game server. JavaScript numbers that carry
  coordinates, radii and speeds are modelled as mathematical reals (rounding of doubles is
  not modelled); timestamps (\<open>Date.now()\<close>, buff expiries) and scores are integers, as the
  values the server stores in them are. Module-level mutable state is an explicit record
  that every operation takes and returns; outgoing messages and fire-and-forget persistence
  calls are returned as a list of effects.
\<close>

subsection \<open>Constants (lib/game-protocol.ts and game.ts)\<close>

abbreviation (input) MAP_WIDTH :: real where "MAP_WIDTH \<equiv> 10000"
abbreviation (input) MAP_HEIGHT :: real where "MAP_HEIGHT \<equiv> 10000"
abbreviation (input) PLAYER_RADIUS :: real where "PLAYER_RADIUS \<equiv> 16"
abbreviation (input) GRASS_RADIUS :: real where "GRASS_RADIUS \<equiv> 14"
abbreviation (input) PLAYER_SPEED :: real where "PLAYER_SPEED \<equiv> 10"

abbreviation (input) GRASS_PLAYER_PADDING :: real where "GRASS_PLAYER_PADDING \<equiv> 8"
abbreviation (input) GRASS_SPACING :: real where "GRASS_SPACING \<equiv> 6"
abbreviation (input) POWERUP_RADIUS :: real where "POWERUP_RADIUS \<equiv> 16"
abbreviation (input) POWERUP_PLAYER_PADDING :: real where "POWERUP_PLAYER_PADDING \<equiv> 20"
abbreviation (input) POWERUP_GRASS_PADDING :: real where "POWERUP_GRASS_PADDING \<equiv> 10"
abbreviation (input) POWERUP_SPACING :: real where "POWERUP_SPACING \<equiv> 28"
abbreviation (input) SPEED_MULTIPLIER :: real where "SPEED_MULTIPLIER \<equiv> 1.7"
abbreviation (input) MAGNET_EXTRA_RADIUS :: real where "MAGNET_EXTRA_RADIUS \<equiv> 108"
abbreviation (input) MAGNET_PULL_PER_TICK :: real where "MAGNET_PULL_PER_TICK \<equiv> 8"
abbreviation (input) ENEMY_COUNT :: nat where "ENEMY_COUNT \<equiv> 20"
abbreviation (input) ENEMY_RADIUS :: real where "ENEMY_RADIUS \<equiv> 20"
abbreviation (input) ENEMY_SPEED_PER_TICK :: real where "ENEMY_SPEED_PER_TICK \<equiv> 7"
abbreviation (input) ENEMY_RETURN_SPEED_MULTIPLIER :: real where "ENEMY_RETURN_SPEED_MULTIPLIER \<equiv> 1.2"
abbreviation (input) SPEED_DURATION_MS :: int where "SPEED_DURATION_MS \<equiv> 8000"
abbreviation (input) MAGNET_DURATION_MS :: int where "MAGNET_DURATION_MS \<equiv> 9000"
abbreviation (input) DOUBLE_DURATION_MS :: int where "DOUBLE_DURATION_MS \<equiv> 10000"
abbreviation (input) OVERGROWTH_THRESHOLD :: nat where "OVERGROWTH_THRESHOLD \<equiv> 4"
abbreviation (input) OVERGROWTH_BONUS :: int where "OVERGROWTH_BONUS \<equiv> 3"
abbreviation (input) CITY_COLS :: nat where "CITY_COLS \<equiv> 8"
abbreviation (input) CITY_ROWS :: nat where "CITY_ROWS \<equiv> 8"
abbreviation (input) STREET_WIDTH :: real where "STREET_WIDTH \<equiv> 170"
abbreviation (input) BUILDING_MARGIN :: real where "BUILDING_MARGIN \<equiv> 46"

subsection \<open>Data model\<close>

datatype PowerupType = Speed | Magnet | Double

record RectSnapshot =
  rect_id :: string
  rect_x :: real
  rect_y :: real
  rect_width :: real
  rect_height :: real

record GrassSpot =
  grass_x :: real
  grass_y :: real

record PowerupSpot =
  powerup_id :: string
  powerup_type :: PowerupType
  powerup_x :: real
  powerup_y :: real

record EnemySpot =
  enemy_id :: string
  enemy_x :: real
  enemy_y :: real
  homeX :: real
  homeY :: real
  territoryRadius :: real

text \<open>
  A \<open>ServerPlayer\<close> holds its peer; the peer is identified by \<open>peer.id\<close>, which is also the
  player's \<open>connectionId\<close>, so the model keeps the one field.
\<close>

record ServerPlayer =
  connectionId :: string
  userId :: string
  player_name :: string
  player_color :: string
  player_x :: real
  player_y :: real
  score :: int
  speedUntil :: int
  magnetUntil :: int
  doubleUntil :: int

record CityLayout =
  streets :: "RectSnapshot list"
  buildings :: "RectSnapshot list"

subsection \<open>Numeric helpers and the random source\<close>

definition clamp :: "real \<Rightarrow> real \<Rightarrow> real \<Rightarrow> real" where
  "clamp v lo hi = min hi (max lo v)"

text \<open>
  \<open>Math.random()\<close> and \<open>crypto.randomUUID()\<close> are the environment's: an infinite supply
  of draws, consumed in order. ECMAScript promises a draw in \<open>[0, 1)\<close>; the model takes
  the fractional part of the supplied number, so that every supply is a legal one.
\<close>

record Entropy =
  draws :: "nat \<Rightarrow> real"
  used :: nat
  uuids :: "nat \<Rightarrow> string"
  issued :: nat

definition Math_random :: "Entropy \<Rightarrow> real \<times> Entropy" where
  "Math_random g = (frac (draws g (used g)), g\<lparr>used := Suc (used g)\<rparr>)"

definition randomUUID :: "Entropy \<Rightarrow> string \<times> Entropy" where
  "randomUUID g = (uuids g (issued g), g\<lparr>issued := Suc (issued g)\<rparr>)"

definition randomBetween :: "real \<Rightarrow> real \<Rightarrow> Entropy \<Rightarrow> real \<times> Entropy" where
  "randomBetween lo hi g =
     (let (u, g') = Math_random g
      in (of_int \<lfloor>u * (hi - lo + 1)\<rfloor> + lo, g'))"

definition POWERUP_TYPES :: "PowerupType list" where
  "POWERUP_TYPES = [Speed, Magnet, Double]"

definition randomPowerupType :: "Entropy \<Rightarrow> PowerupType \<times> Entropy" where
  "randomPowerupType g =
     (let (i, g') = randomBetween 0 (real (length POWERUP_TYPES) - 1) g
      in (POWERUP_TYPES ! nat \<lfloor>i\<rfloor>, g'))"

subsection \<open>City layout\<close>

definition seededUnit :: "real \<Rightarrow> real" where
  "seededUnit seed =
     (let v = sin (seed * 12.9898) * 43758.5453123 in v - of_int \<lfloor>v\<rfloor>)"

fun decimal :: "nat \<Rightarrow> string" where
  "decimal n =
     (if n < 10 then [char_of (48 + n)]
      else decimal (n div 10) @ [char_of (48 + n mod 10)])"

definition blockWidth :: real where
  "blockWidth = (MAP_WIDTH - STREET_WIDTH * (real CITY_COLS + 1)) / real CITY_COLS"

definition blockHeight :: real where
  "blockHeight = (MAP_HEIGHT - STREET_WIDTH * (real CITY_ROWS + 1)) / real CITY_ROWS"

definition verticalStreet :: "nat \<Rightarrow> RectSnapshot" where
  "verticalStreet col =
     \<lparr>rect_id = ''street-v-'' @ decimal col,
      rect_x = real col * (blockWidth + STREET_WIDTH),
      rect_y = 0,
      rect_width = STREET_WIDTH,
      rect_height = MAP_HEIGHT\<rparr>"

definition horizontalStreet :: "nat \<Rightarrow> RectSnapshot" where
  "horizontalStreet row =
     \<lparr>rect_id = ''street-h-'' @ decimal row,
      rect_x = 0,
      rect_y = real row * (blockHeight + STREET_WIDTH),
      rect_width = MAP_WIDTH,
      rect_height = STREET_WIDTH\<rparr>"

definition mainTower :: "nat \<Rightarrow> nat \<Rightarrow> RectSnapshot" where
  "mainTower row col =
     (let blockX = STREET_WIDTH + real col * (blockWidth + STREET_WIDTH);
          blockY = STREET_WIDTH + real row * (blockHeight + STREET_WIDTH);
          usableWidth = max 80 (blockWidth - BUILDING_MARGIN * 2);
          usableHeight = max 80 (blockHeight - BUILDING_MARGIN * 2);
          seedBase = real (row * 101 + col * 37 + 1);
          widthFactor = 0.52 + seededUnit seedBase * 0.3;
          heightFactor = 0.5 + seededUnit (seedBase + 1) * 0.34;
          mainWidth = usableWidth * widthFactor;
          mainHeight = usableHeight * heightFactor;
          offsetX = (usableWidth - mainWidth) * seededUnit (seedBase + 2);
          offsetY = (usableHeight - mainHeight) * seededUnit (seedBase + 3)
      in \<lparr>rect_id = ''tower-main-'' @ decimal row @ ''-'' @ decimal col,
          rect_x = blockX + BUILDING_MARGIN + offsetX,
          rect_y = blockY + BUILDING_MARGIN + offsetY,
          rect_width = mainWidth,
          rect_height = mainHeight\<rparr>)"

definition annexTower :: "nat \<Rightarrow> nat \<Rightarrow> RectSnapshot" where
  "annexTower row col =
     (let blockX = STREET_WIDTH + real col * (blockWidth + STREET_WIDTH);
          blockY = STREET_WIDTH + real row * (blockHeight + STREET_WIDTH);
          usableWidth = max 80 (blockWidth - BUILDING_MARGIN * 2);
          usableHeight = max 80 (blockHeight - BUILDING_MARGIN * 2);
          seedBase = real (row * 101 + col * 37 + 1);
          corner = \<lfloor>seededUnit (seedBase + 5) * 4\<rfloor>;
          annexWidth = max 60 (usableWidth * (0.2 + seededUnit (seedBase + 6) * 0.22));
          annexHeight = max 60 (usableHeight * (0.2 + seededUnit (seedBase + 7) * 0.22));
          annexX = blockX + BUILDING_MARGIN
                   + (if corner = 1 \<or> corner = 3 then usableWidth - annexWidth else 0);
          annexY = blockY + BUILDING_MARGIN
                   + (if corner = 2 \<or> corner = 3 then usableHeight - annexHeight else 0)
      in \<lparr>rect_id = ''tower-annex-'' @ decimal row @ ''-'' @ decimal col,
          rect_x = annexX,
          rect_y = annexY,
          rect_width = annexWidth,
          rect_height = annexHeight\<rparr>)"

definition blockBuildings :: "nat \<Rightarrow> nat \<Rightarrow> RectSnapshot list" where
  "blockBuildings row col =
     (if seededUnit (real (row * 101 + col * 37 + 1) + 4) > 0.35
      then [mainTower row col, annexTower row col]
      else [mainTower row col])"

definition createCityLayout :: CityLayout where
  "createCityLayout =
     \<lparr>streets = map verticalStreet [0..<Suc CITY_COLS] @ map horizontalStreet [0..<Suc CITY_ROWS],
      buildings =
        concat (map (\<lambda>row. concat (map (\<lambda>col. blockBuildings row col) [0..<CITY_COLS]))
                    [0..<CITY_ROWS])\<rparr>"

definition cityLayout :: CityLayout where
  "cityLayout = createCityLayout"

subsection \<open>Collision against buildings and movement resolution\<close>

definition circleIntersectsRect :: "real \<Rightarrow> real \<Rightarrow> real \<Rightarrow> RectSnapshot \<Rightarrow> bool" where
  "circleIntersectsRect x y radius rect =
     (let closestX = clamp x (rect_x rect) (rect_x rect + rect_width rect);
          closestY = clamp y (rect_y rect) (rect_y rect + rect_height rect);
          dx = x - closestX;
          dy = y - closestY
      in dx * dx + dy * dy \<le> radius * radius)"

definition isCircleBlockedByBuildings :: "real \<Rightarrow> real \<Rightarrow> real \<Rightarrow> bool" where
  "isCircleBlockedByBuildings x y radius =
     list_ex (\<lambda>building. circleIntersectsRect x y radius building) (buildings cityLayout)"

record Resolved =
  res_x :: real
  res_y :: real
  movedSquared :: real

definition tryOrder ::
  "bool \<Rightarrow> real \<Rightarrow> real \<Rightarrow> real \<Rightarrow> real \<Rightarrow> real \<Rightarrow> Resolved" where
  "tryOrder xy currentX currentY boundedTargetX boundedTargetY radius =
     (let (nextX, nextY) =
        (if xy then
           (let nextX = (if \<not> isCircleBlockedByBuildings boundedTargetX currentY radius
                         then boundedTargetX else currentX);
                nextY = (if \<not> isCircleBlockedByBuildings nextX boundedTargetY radius
                         then boundedTargetY else currentY)
            in (nextX, nextY))
         else
           (let nextY = (if \<not> isCircleBlockedByBuildings currentX boundedTargetY radius
                         then boundedTargetY else currentY);
                nextX = (if \<not> isCircleBlockedByBuildings boundedTargetX nextY radius
                         then boundedTargetX else currentX)
            in (nextX, nextY)));
          movedX = nextX - currentX;
          movedY = nextY - currentY
      in \<lparr>res_x = nextX, res_y = nextY, movedSquared = movedX * movedX + movedY * movedY\<rparr>)"

definition resolveBlockedMovement ::
  "real \<Rightarrow> real \<Rightarrow> real \<Rightarrow> real \<Rightarrow> real \<Rightarrow> Resolved" where
  "resolveBlockedMovement currentX currentY targetX targetY radius =
     (let boundedTargetX = clamp targetX radius (MAP_WIDTH - radius);
          boundedTargetY = clamp targetY radius (MAP_HEIGHT - radius);
          xy = tryOrder True currentX currentY boundedTargetX boundedTargetY radius;
          yx = tryOrder False currentX currentY boundedTargetX boundedTargetY radius
      in if movedSquared xy \<ge> movedSquared yx then xy else yx)"

subsection \<open>Powerup timers\<close>

definition extendPowerup :: "int \<Rightarrow> int \<Rightarrow> int \<Rightarrow> int" where
  "extendPowerup currentUntil now durationMs =
     (let base = (if currentUntil > now then currentUntil else now) in base + durationMs)"

definition applyPowerup :: "ServerPlayer \<Rightarrow> PowerupType \<Rightarrow> int \<Rightarrow> ServerPlayer" where
  "applyPowerup player type now =
     (if type = Speed then
        player\<lparr>speedUntil := extendPowerup (speedUntil player) now SPEED_DURATION_MS\<rparr>
      else if type = Magnet then
        player\<lparr>magnetUntil := extendPowerup (magnetUntil player) now MAGNET_DURATION_MS\<rparr>
      else
        player\<lparr>doubleUntil := extendPowerup (doubleUntil player) now DOUBLE_DURATION_MS\<rparr>)"

definition getActivePowerups :: "ServerPlayer \<Rightarrow> int \<Rightarrow> PowerupType list" where
  "getActivePowerups player now =
     (if speedUntil player > now then [Speed] else [])
     @ (if magnetUntil player > now then [Magnet] else [])
     @ (if doubleUntil player > now then [Double] else [])"

definition getPlayerMoveSpeed :: "ServerPlayer \<Rightarrow> int \<Rightarrow> real" where
  "getPlayerMoveSpeed player now =
     (if speedUntil player > now then PLAYER_SPEED * SPEED_MULTIPLIER else PLAYER_SPEED)"

definition getGrassTouchRadius :: real where
  "getGrassTouchRadius = PLAYER_RADIUS + GRASS_RADIUS"

definition getGrassMagnetRadius :: "ServerPlayer \<Rightarrow> int \<Rightarrow> real" where
  "getGrassMagnetRadius player now =
     (let base = getGrassTouchRadius
      in if magnetUntil player > now then base + MAGNET_EXTRA_RADIUS else base)"

text \<open>The expiry that a powerup type controls.\<close>

definition buffUntil :: "PowerupType \<Rightarrow> ServerPlayer \<Rightarrow> int" where
  "buffUntil type player =
     (case type of Speed \<Rightarrow> speedUntil player
                 | Magnet \<Rightarrow> magnetUntil player
                 | Double \<Rightarrow> doubleUntil player)"

definition buffDuration :: "PowerupType \<Rightarrow> int" where
  "buffDuration type =
     (case type of Speed \<Rightarrow> SPEED_DURATION_MS
                 | Magnet \<Rightarrow> MAGNET_DURATION_MS
                 | Double \<Rightarrow> DOUBLE_DURATION_MS)"

subsection \<open>Server state\<close>

text \<open>
  \<open>players\<close> is a \<open>Map\<close> from connection id to player; the list keeps its insertion order,
  which is the order every iteration over \<open>players.values()\<close> follows.
  \<open>pendingJoinTimers\<close> maps a connection id whose join timer is still running to what the
  timer's closure holds: the user id and the display name.
\<close>

record World =
  players :: "ServerPlayer list"
  userScores :: "string \<rightharpoonup> int"
  userColors :: "string \<rightharpoonup> string"
  pendingJoinTimers :: "string \<rightharpoonup> string \<times> string"
  powerups :: "PowerupSpot list"
  enemies :: "EnemySpot list"
  grasses :: "GrassSpot list"
  entropy :: Entropy

subsection \<open>Entity placement\<close>

text \<open>The test \<open>dx * dx + dy * dy <= minDistance * minDistance\<close> the placement code repeats.\<close>

definition tooClose :: "real \<Rightarrow> real \<Rightarrow> real \<Rightarrow> real \<Rightarrow> real \<Rightarrow> bool" where
  "tooClose ax ay bx by minDistance =
     (let dx = ax - bx; dy = ay - by in dx * dx + dy * dy \<le> minDistance * minDistance)"

definition grassCandidateFree ::
  "World \<Rightarrow> GrassSpot list \<Rightarrow> nat option \<Rightarrow> real \<Rightarrow> real \<Rightarrow> bool" where
  "grassCandidateFree w existing skipIndex nx ny =
     (let hasPlayerCollision =
            list_ex (\<lambda>player. tooClose (player_x player) (player_y player) nx ny
                       (PLAYER_RADIUS + GRASS_RADIUS + GRASS_PLAYER_PADDING)) (players w);
          hasGrassCollision =
            list_ex (\<lambda>(index, grassSpot). Some index \<noteq> skipIndex \<and>
                       tooClose (grass_x grassSpot) (grass_y grassSpot) nx ny
                         (GRASS_RADIUS * 2 + GRASS_SPACING)) (enumerate 0 existing);
          hasPowerupCollision =
            list_ex (\<lambda>powerup. tooClose (powerup_x powerup) (powerup_y powerup) nx ny
                       (GRASS_RADIUS + POWERUP_RADIUS + POWERUP_GRASS_PADDING)) (powerups w);
          hasEnemyCollision =
            list_ex (\<lambda>enemy. tooClose (enemy_x enemy) (enemy_y enemy) nx ny
                       (GRASS_RADIUS + ENEMY_RADIUS + GRASS_PLAYER_PADDING)) (enemies w);
          hasBuildingCollision = isCircleBlockedByBuildings nx ny GRASS_RADIUS
      in \<not> hasPlayerCollision \<and> \<not> hasGrassCollision \<and> \<not> hasPowerupCollision
         \<and> \<not> hasEnemyCollision \<and> \<not> hasBuildingCollision)"

text \<open>
  Each bounded retry loop \<open>for (let i = 0; i < N; i++)\<close> is a recursion on the number of
  attempts that remain; \<open>None\<close> is the loop running out.
\<close>

primrec spawnGrassPrimary ::
  "nat \<Rightarrow> World \<Rightarrow> GrassSpot list \<Rightarrow> nat option \<Rightarrow> Entropy \<Rightarrow> GrassSpot option \<times> Entropy" where
  "spawnGrassPrimary 0 w existing skipIndex g = (None, g)"
| "spawnGrassPrimary (Suc n) w existing skipIndex g =
     (let (nx, g1) = randomBetween GRASS_RADIUS (MAP_WIDTH - GRASS_RADIUS) g;
          (ny, g2) = randomBetween GRASS_RADIUS (MAP_HEIGHT - GRASS_RADIUS) g1
      in if grassCandidateFree w existing skipIndex nx ny
         then (Some \<lparr>grass_x = nx, grass_y = ny\<rparr>, g2)
         else spawnGrassPrimary n w existing skipIndex g2)"

primrec spawnGrassFallback :: "nat \<Rightarrow> Entropy \<Rightarrow> GrassSpot option \<times> Entropy" where
  "spawnGrassFallback 0 g = (None, g)"
| "spawnGrassFallback (Suc n) g =
     (let (fx, g1) = randomBetween GRASS_RADIUS (MAP_WIDTH - GRASS_RADIUS) g;
          (fy, g2) = randomBetween GRASS_RADIUS (MAP_HEIGHT - GRASS_RADIUS) g1
      in if \<not> isCircleBlockedByBuildings fx fy GRASS_RADIUS
         then (Some \<lparr>grass_x = fx, grass_y = fy\<rparr>, g2)
         else spawnGrassFallback n g2)"

definition spawnGrass ::
  "World \<Rightarrow> GrassSpot list \<Rightarrow> nat option \<Rightarrow> Entropy \<Rightarrow> GrassSpot \<times> Entropy" where
  "spawnGrass w existing skipIndex g =
     (case spawnGrassPrimary 32 w existing skipIndex g of
        (Some next, g1) \<Rightarrow> (next, g1)
      | (None, g1) \<Rightarrow>
          (case spawnGrassFallback 32 g1 of
             (Some fallback, g2) \<Rightarrow> (fallback, g2)
           | (None, g2) \<Rightarrow> (\<lparr>grass_x = GRASS_RADIUS, grass_y = GRASS_RADIUS\<rparr>, g2)))"

definition powerupCandidateFree ::
  "World \<Rightarrow> PowerupSpot list \<Rightarrow> nat option \<Rightarrow> real \<Rightarrow> real \<Rightarrow> bool" where
  "powerupCandidateFree w existing skipIndex nx ny =
     (let hasPlayerCollision =
            list_ex (\<lambda>player. tooClose (player_x player) (player_y player) nx ny
                       (PLAYER_RADIUS + POWERUP_RADIUS + POWERUP_PLAYER_PADDING)) (players w);
          hasGrassCollision =
            list_ex (\<lambda>grassSpot. tooClose (grass_x grassSpot) (grass_y grassSpot) nx ny
                       (GRASS_RADIUS + POWERUP_RADIUS + POWERUP_GRASS_PADDING)) (grasses w);
          hasPowerupCollision =
            list_ex (\<lambda>(index, powerup). Some index \<noteq> skipIndex \<and>
                       tooClose (powerup_x powerup) (powerup_y powerup) nx ny
                         (POWERUP_RADIUS * 2 + POWERUP_SPACING)) (enumerate 0 existing);
          hasEnemyCollision =
            list_ex (\<lambda>enemy. tooClose (enemy_x enemy) (enemy_y enemy) nx ny
                       (POWERUP_RADIUS + ENEMY_RADIUS + POWERUP_PLAYER_PADDING)) (enemies w);
          hasBuildingCollision = isCircleBlockedByBuildings nx ny POWERUP_RADIUS
      in \<not> hasPlayerCollision \<and> \<not> hasGrassCollision \<and> \<not> hasPowerupCollision
         \<and> \<not> hasEnemyCollision \<and> \<not> hasBuildingCollision)"

text \<open>The object literal \<open>{ id: crypto.randomUUID(), type: randomPowerupType(), x, y }\<close>.\<close>

definition newPowerup :: "real \<Rightarrow> real \<Rightarrow> Entropy \<Rightarrow> PowerupSpot \<times> Entropy" where
  "newPowerup nx ny g =
     (let (uuid, g1) = randomUUID g;
          (type, g2) = randomPowerupType g1
      in (\<lparr>powerup_id = uuid, powerup_type = type, powerup_x = nx, powerup_y = ny\<rparr>, g2))"

primrec spawnPowerupPrimary ::
  "nat \<Rightarrow> World \<Rightarrow> PowerupSpot list \<Rightarrow> nat option \<Rightarrow> Entropy \<Rightarrow> PowerupSpot option \<times> Entropy" where
  "spawnPowerupPrimary 0 w existing skipIndex g = (None, g)"
| "spawnPowerupPrimary (Suc n) w existing skipIndex g =
     (let (nx, g1) = randomBetween POWERUP_RADIUS (MAP_WIDTH - POWERUP_RADIUS) g;
          (ny, g2) = randomBetween POWERUP_RADIUS (MAP_HEIGHT - POWERUP_RADIUS) g1
      in if powerupCandidateFree w existing skipIndex nx ny
         then (let (spot, g3) = newPowerup nx ny g2 in (Some spot, g3))
         else spawnPowerupPrimary n w existing skipIndex g2)"

primrec spawnPowerupFallback :: "nat \<Rightarrow> Entropy \<Rightarrow> PowerupSpot option \<times> Entropy" where
  "spawnPowerupFallback 0 g = (None, g)"
| "spawnPowerupFallback (Suc n) g =
     (let (fx, g1) = randomBetween POWERUP_RADIUS (MAP_WIDTH - POWERUP_RADIUS) g;
          (fy, g2) = randomBetween POWERUP_RADIUS (MAP_HEIGHT - POWERUP_RADIUS) g1
      in if \<not> isCircleBlockedByBuildings fx fy POWERUP_RADIUS
         then (let (spot, g3) = newPowerup fx fy g2 in (Some spot, g3))
         else spawnPowerupFallback n g2)"

definition spawnPowerup ::
  "World \<Rightarrow> PowerupSpot list \<Rightarrow> nat option \<Rightarrow> Entropy \<Rightarrow> PowerupSpot \<times> Entropy" where
  "spawnPowerup w existing skipIndex g =
     (case spawnPowerupPrimary 32 w existing skipIndex g of
        (Some next, g1) \<Rightarrow> (next, g1)
      | (None, g1) \<Rightarrow>
          (case spawnPowerupFallback 32 g1 of
             (Some fallback, g2) \<Rightarrow> (fallback, g2)
           | (None, g2) \<Rightarrow> newPowerup POWERUP_RADIUS POWERUP_RADIUS g2))"

definition Math_round :: "real \<Rightarrow> real" where
  "Math_round v = of_int \<lfloor>v + 1 / 2\<rfloor>"

record EnemyHome =
  home_x :: real
  home_y :: real
  home_territoryRadius :: real

text \<open>
  The scan of \<open>getEnemyHome\<close> over the streets: the closest street point found so far
  and its squared distance, \<open>None\<close> standing for \<open>Number.POSITIVE_INFINITY\<close>.
\<close>

definition closestStreetStep ::
  "real \<Rightarrow> real \<Rightarrow> (real \<times> real) \<times> real option \<Rightarrow> RectSnapshot \<Rightarrow> (real \<times> real) \<times> real option" where
  "closestStreetStep hx hy acc street =
     (let pointX = clamp hx (rect_x street + ENEMY_RADIUS)
                     (rect_x street + rect_width street - ENEMY_RADIUS);
          pointY = clamp hy (rect_y street + ENEMY_RADIUS)
                     (rect_y street + rect_height street - ENEMY_RADIUS)
      in if pointX < ENEMY_RADIUS \<or> pointY < ENEMY_RADIUS then acc
         else (let dx = hx - pointX; dy = hy - pointY;
                   distanceSquared = dx * dx + dy * dy
               in if (case snd acc of None \<Rightarrow> True | Some closest \<Rightarrow> distanceSquared < closest)
                  then ((pointX, pointY), Some distanceSquared)
                  else acc))"

definition getEnemyHome :: "nat \<Rightarrow> Entropy \<Rightarrow> EnemyHome \<times> Entropy" where
  "getEnemyHome index g =
     (let cols = nat \<lceil>sqrt (real ENEMY_COUNT)\<rceil>;
          rows = nat \<lceil>real ENEMY_COUNT / real cols\<rceil>;
          col = index mod cols;
          row = nat \<lfloor>real index / real cols\<rfloor>;
          cellWidth = MAP_WIDTH / real cols;
          cellHeight = MAP_HEIGHT / real rows;
          jitterXRange = max 20 (of_int \<lfloor>cellWidth * 0.2\<rfloor>);
          jitterYRange = max 20 (of_int \<lfloor>cellHeight * 0.2\<rfloor>);
          (jx, g1) = randomBetween (- jitterXRange) jitterXRange g;
          hx = clamp (Math_round ((real col + 0.5) * cellWidth + jx))
                 ENEMY_RADIUS (MAP_WIDTH - ENEMY_RADIUS);
          (jy, g2) = randomBetween (- jitterYRange) jitterYRange g1;
          hy = clamp (Math_round ((real row + 0.5) * cellHeight + jy))
                 ENEMY_RADIUS (MAP_HEIGHT - ENEMY_RADIUS);
          radius = max 900 (of_int \<lfloor>min cellWidth cellHeight * 0.8\<rfloor>);
          snapped = resolveBlockedMovement hx hy hx hy ENEMY_RADIUS
      in if \<not> isCircleBlockedByBuildings (res_x snapped) (res_y snapped) ENEMY_RADIUS
         then (\<lparr>home_x = res_x snapped, home_y = res_y snapped,
                 home_territoryRadius = radius\<rparr>, g2)
         else (let closestStreetPoint =
                     fst (foldl (closestStreetStep hx hy) ((hx, hy), None) (streets cityLayout))
               in (\<lparr>home_x = fst closestStreetPoint, home_y = snd closestStreetPoint,
                     home_territoryRadius = radius\<rparr>, g2)))"

definition enemyCrowded :: "EnemySpot list \<Rightarrow> real \<Rightarrow> real \<Rightarrow> bool" where
  "enemyCrowded existing x y =
     list_ex (\<lambda>enemy. tooClose (enemy_x enemy) (enemy_y enemy) x y (ENEMY_RADIUS * 2 + 28))
       existing"

definition newEnemy :: "EnemyHome \<Rightarrow> real \<Rightarrow> real \<Rightarrow> Entropy \<Rightarrow> EnemySpot \<times> Entropy" where
  "newEnemy home x y g =
     (let (uuid, g1) = randomUUID g
      in (\<lparr>enemy_id = uuid, enemy_x = x, enemy_y = y, homeX = home_x home,
            homeY = home_y home, territoryRadius = home_territoryRadius home\<rparr>, g1))"

text \<open>
  The first loop of \<open>spawnEnemy\<close> runs \<open>i\<close> from 0 to 15; with \<open>n\<close> attempts left,
  \<open>i = 16 - n\<close>.
\<close>

primrec spawnEnemyNearHome ::
  "nat \<Rightarrow> EnemyHome \<Rightarrow> EnemySpot list \<Rightarrow> Entropy \<Rightarrow> EnemySpot option \<times> Entropy" where
  "spawnEnemyNearHome 0 home existing g = (None, g)"
| "spawnEnemyNearHome (Suc n) home existing g =
     (let i = 16 - Suc n;
          (spawnDistance, g1) =
            (if i = 0 then (0, g)
             else randomBetween 0 (of_int \<lfloor>home_territoryRadius home * 0.4\<rfloor>) g);
          angle = (pi * 2 * real i) / 16;
          x = clamp (Math_round (home_x home + cos angle * spawnDistance))
                ENEMY_RADIUS (MAP_WIDTH - ENEMY_RADIUS);
          y = clamp (Math_round (home_y home + sin angle * spawnDistance))
                ENEMY_RADIUS (MAP_HEIGHT - ENEMY_RADIUS);
          hasEnemyCollision = enemyCrowded existing x y;
          hasBuildingCollision = isCircleBlockedByBuildings x y ENEMY_RADIUS
      in if \<not> hasEnemyCollision \<and> \<not> hasBuildingCollision
         then (let (spot, g2) = newEnemy home x y g1 in (Some spot, g2))
         else spawnEnemyNearHome n home existing g1)"

primrec spawnEnemyOnStreet ::
  "nat \<Rightarrow> EnemyHome \<Rightarrow> EnemySpot list \<Rightarrow> Entropy \<Rightarrow> EnemySpot option \<times> Entropy" where
  "spawnEnemyOnStreet 0 home existing g = (None, g)"
| "spawnEnemyOnStreet (Suc n) home existing g =
     (let (k, g1) = randomBetween 0 (real (length (streets cityLayout)) - 1) g;
          randomStreet = streets cityLayout ! nat \<lfloor>k\<rfloor>;
          (x, g2) = randomBetween
                      (of_int \<lceil>rect_x randomStreet + ENEMY_RADIUS\<rceil>)
                      (of_int \<lfloor>rect_x randomStreet + rect_width randomStreet - ENEMY_RADIUS\<rfloor>) g1;
          (y, g3) = randomBetween
                      (of_int \<lceil>rect_y randomStreet + ENEMY_RADIUS\<rceil>)
                      (of_int \<lfloor>rect_y randomStreet + rect_height randomStreet - ENEMY_RADIUS\<rfloor>) g2;
          hasEnemyCollision = enemyCrowded existing x y
      in if \<not> hasEnemyCollision \<and> \<not> isCircleBlockedByBuildings x y ENEMY_RADIUS
         then (let (spot, g4) = newEnemy home x y g3 in (Some spot, g4))
         else spawnEnemyOnStreet n home existing g3)"

definition spawnEnemy :: "EnemySpot list \<Rightarrow> nat \<Rightarrow> Entropy \<Rightarrow> EnemySpot \<times> Entropy" where
  "spawnEnemy existing enemyIndex g =
     (let (home, g0) = getEnemyHome enemyIndex g
      in case spawnEnemyNearHome 16 home existing g0 of
           (Some spot, g1) \<Rightarrow> (spot, g1)
         | (None, g1) \<Rightarrow>
             (case spawnEnemyOnStreet 32 home existing g1 of
                (Some spot, g2) \<Rightarrow> (spot, g2)
              | (None, g2) \<Rightarrow> newEnemy home (home_x home) (home_y home) g2))"

primrec spawnPlayerAnywhere ::
  "nat \<Rightarrow> EnemySpot list \<Rightarrow> Entropy \<Rightarrow> (real \<times> real) option \<times> Entropy" where
  "spawnPlayerAnywhere 0 es g = (None, g)"
| "spawnPlayerAnywhere (Suc n) es g =
     (let (x, g1) = randomBetween PLAYER_RADIUS (MAP_WIDTH - PLAYER_RADIUS) g;
          (y, g2) = randomBetween PLAYER_RADIUS (MAP_HEIGHT - PLAYER_RADIUS) g1;
          hasEnemyCollision =
            list_ex (\<lambda>enemy. tooClose (enemy_x enemy) (enemy_y enemy) x y
                       (PLAYER_RADIUS + ENEMY_RADIUS + 60)) es;
          hasBuildingCollision = isCircleBlockedByBuildings x y PLAYER_RADIUS
      in if \<not> hasEnemyCollision \<and> \<not> hasBuildingCollision then (Some (x, y), g2)
         else spawnPlayerAnywhere n es g2)"

primrec spawnPlayerOnStreet :: "nat \<Rightarrow> Entropy \<Rightarrow> (real \<times> real) option \<times> Entropy" where
  "spawnPlayerOnStreet 0 g = (None, g)"
| "spawnPlayerOnStreet (Suc n) g =
     (let (k, g1) = randomBetween 0 (real (length (streets cityLayout)) - 1) g;
          street = streets cityLayout ! nat \<lfloor>k\<rfloor>;
          minStreetX = of_int \<lceil>rect_x street + PLAYER_RADIUS\<rceil>;
          maxStreetX = of_int \<lfloor>rect_x street + rect_width street - PLAYER_RADIUS\<rfloor>;
          minStreetY = of_int \<lceil>rect_y street + PLAYER_RADIUS\<rceil>;
          maxStreetY = of_int \<lfloor>rect_y street + rect_height street - PLAYER_RADIUS\<rfloor>
      in if minStreetX > maxStreetX \<or> minStreetY > maxStreetY
         then spawnPlayerOnStreet n g1
         else (let (x, g2) = randomBetween minStreetX maxStreetX g1;
                   (y, g3) = randomBetween minStreetY maxStreetY g2
               in if \<not> isCircleBlockedByBuildings x y PLAYER_RADIUS then (Some (x, y), g3)
                  else spawnPlayerOnStreet n g3))"

text \<open>\<open>spawnPlayerPosition\<close> reads the module's \<open>enemies\<close>; they are its first argument.\<close>

definition spawnPlayerPosition :: "EnemySpot list \<Rightarrow> Entropy \<Rightarrow> (real \<times> real) \<times> Entropy" where
  "spawnPlayerPosition es g =
     (case spawnPlayerAnywhere 32 es g of
        (Some pos, g1) \<Rightarrow> (pos, g1)
      | (None, g1) \<Rightarrow>
          (case spawnPlayerOnStreet 64 g1 of
             (Some pos, g2) \<Rightarrow> (pos, g2)
           | (None, g2) \<Rightarrow> ((PLAYER_RADIUS, PLAYER_RADIUS), g2)))"

subsection \<open>Colours\<close>

text \<open>
  A value of unknown type that arrives in a payload: a string, or anything else.
  Characters are code units below 256.
\<close>

datatype Unknown = IsString string | NotString

definition isWhiteSpace :: "char \<Rightarrow> bool" where
  "isWhiteSpace c = (of_char c \<in> {9, 10, 11, 12, 13, 32, 160 :: nat})"

definition trim :: "string \<Rightarrow> string" where
  "trim s = rev (dropWhile isWhiteSpace (rev (dropWhile isWhiteSpace s)))"

definition toLowerCase :: "char \<Rightarrow> char" where
  "toLowerCase c =
     (let n = (of_char c :: nat)
      in if (65 \<le> n \<and> n \<le> 90) \<or> (192 \<le> n \<and> n \<le> 222 \<and> n \<noteq> 215)
         then char_of (n + 32) else c)"

definition isHexDigit :: "char \<Rightarrow> bool" where
  "isHexDigit c =
     (let n = (of_char c :: nat)
      in (48 \<le> n \<and> n \<le> 57) \<or> (97 \<le> n \<and> n \<le> 102) \<or> (65 \<le> n \<and> n \<le> 70))"

text \<open>
  The regular expressions \<open>/^#?([0-9a-f]{3})$/i\<close> and \<open>/^#?([0-9a-f]{6})$/i\<close>:
  an optional \<open>#\<close>, then exactly \<open>n\<close> hexadecimal digits up to the end of the input.
  The result is the captured group.
\<close>

definition matchHex :: "nat \<Rightarrow> string \<Rightarrow> string option" where
  "matchHex n s =
     (let body = (case s of [] \<Rightarrow> [] | c # rest \<Rightarrow> if c = CHR ''#'' then rest else s)
      in if length body = n \<and> list_all isHexDigit body then Some body else None)"

definition sanitizeColor :: "Unknown \<Rightarrow> string option" where
  "sanitizeColor v =
     (case v of
        NotString \<Rightarrow> None
      | IsString str \<Rightarrow>
          (let trimmed = map toLowerCase (trim str)
           in case matchHex 3 trimmed of
                Some [r, g, b] \<Rightarrow> Some [CHR ''#'', r, r, g, g, b, b]
              | _ \<Rightarrow>
                  (case matchHex 6 trimmed of
                     None \<Rightarrow> None
                   | Some digits \<Rightarrow> Some (CHR ''#'' # digits))))"

definition colorFromUser :: "string \<Rightarrow> string" where
  "colorFromUser uid =
     (let hash = foldl (\<lambda>h c. h * 31 + of_nat (of_char c)) (0 :: 32 word) uid;
          hue = nat \<bar>sint hash\<bar> mod 360
      in ''hsl('' @ decimal hue @ '' 75% 55%)'')"

definition getUserColor :: "World \<Rightarrow> string \<Rightarrow> string" where
  "getUserColor w uid = (case userColors w uid of Some c \<Rightarrow> c | None \<Rightarrow> colorFromUser uid)"

subsection \<open>Snapshots, messages and effects\<close>

record PlayerSnapshot =
  snap_connectionId :: string
  snap_userId :: string
  snap_name :: string
  snap_color :: string
  snap_x :: real
  snap_y :: real
  snap_score :: int
  activePowerups :: "PowerupType list"

record EnemySnapshot =
  esnap_id :: string
  esnap_x :: real
  esnap_y :: real

record WorldState =
  map_width :: real
  map_height :: real
  ws_streets :: "RectSnapshot list"
  ws_buildings :: "RectSnapshot list"
  ws_grasses :: "GrassSpot list"
  ws_powerups :: "PowerupSpot list"
  ws_enemies :: "EnemySnapshot list"
  ws_players :: "PlayerSnapshot list"

datatype ServerToClientMessage =
  Connected string
  | WorldStateMessage WorldState
  | ErrorMessage string

text \<open>
  What a handler does to the outside: a message sent to a peer (named by its connection
  id), a peer closed, or a persistence or hydration call started and not awaited.
\<close>

datatype Effect =
  Send string ServerToClientMessage
  | ClosePeer string nat string
  | PersistScoreDelta string int
  | PersistUserScore string int
  | PersistUserColor string string
  | HydrateUserScore string
  | HydrateUserColor string

definition getWorldState :: "World \<Rightarrow> int \<Rightarrow> WorldState" where
  "getWorldState w now =
     \<lparr>map_width = MAP_WIDTH,
      map_height = MAP_HEIGHT,
      ws_streets = streets cityLayout,
      ws_buildings = buildings cityLayout,
      ws_grasses = grasses w,
      ws_powerups = powerups w,
      ws_enemies = map (\<lambda>enemy. \<lparr>esnap_id = enemy_id enemy, esnap_x = enemy_x enemy,
                                    esnap_y = enemy_y enemy\<rparr>) (enemies w),
      ws_players = map (\<lambda>player.
                     \<lparr>snap_connectionId = connectionId player,
                      snap_userId = userId player,
                      snap_name = player_name player,
                      snap_color = player_color player,
                      snap_x = player_x player,
                      snap_y = player_y player,
                      snap_score = score player,
                      activePowerups = getActivePowerups player now\<rparr>) (players w)\<rparr>"

text \<open>\<open>now\<close> is the value of \<open>Date.now()\<close> when the snapshot is taken.\<close>

definition broadcastWorld :: "World \<Rightarrow> int \<Rightarrow> Effect list" where
  "broadcastWorld w now =
     (let message = WorldStateMessage (getWorldState w now)
      in map (\<lambda>player. Send (connectionId player) message) (players w))"

definition applyScoreToConnectedPlayers ::
  "string \<Rightarrow> int \<Rightarrow> ServerPlayer list \<Rightarrow> ServerPlayer list" where
  "applyScoreToConnectedPlayers uid sc ps =
     map (\<lambda>connectedPlayer.
            if userId connectedPlayer = uid then connectedPlayer\<lparr>score := sc\<rparr>
            else connectedPlayer) ps"

definition applyColorToConnectedPlayers ::
  "string \<Rightarrow> string \<Rightarrow> ServerPlayer list \<Rightarrow> ServerPlayer list" where
  "applyColorToConnectedPlayers uid col ps =
     map (\<lambda>connectedPlayer.
            if userId connectedPlayer = uid then connectedPlayer\<lparr>player_color := col\<rparr>
            else connectedPlayer) ps"

definition resetUserScore :: "string \<Rightarrow> World \<Rightarrow> World \<times> Effect list" where
  "resetUserScore uid w =
     (w\<lparr>userScores := (userScores w)(uid \<mapsto> 0),
        players := applyScoreToConnectedPlayers uid 0 (players w)\<rparr>,
      [PersistUserScore uid 0])"

subsection \<open>Enemy tick\<close>

record Moved =
  mv_x :: real
  mv_y :: real
  mv_moved :: bool
  mv_distanceSquared :: real

definition movePointToward :: "real \<Rightarrow> real \<Rightarrow> real \<Rightarrow> real \<Rightarrow> real \<Rightarrow> Moved" where
  "movePointToward currentX currentY targetX targetY maxStep =
     (let dx = targetX - currentX;
          dy = targetY - currentY;
          distanceSquared = dx * dx + dy * dy
      in if distanceSquared \<le> 0.0001
         then \<lparr>mv_x = currentX, mv_y = currentY, mv_moved = False, mv_distanceSquared = 0\<rparr>
         else (let distance = sqrt distanceSquared;
                   step = min maxStep distance;
                   next = resolveBlockedMovement currentX currentY
                            (currentX + (dx / distance) * step)
                            (currentY + (dy / distance) * step) ENEMY_RADIUS
               in \<lparr>mv_x = res_x next, mv_y = res_y next,
                   mv_moved = (movedSquared next > 0.0001),
                   mv_distanceSquared = distanceSquared\<rparr>))"

text \<open>
  The scan for the closest player: the pair is (\<open>closestPlayer\<close>, \<open>closestDistanceSquared\<close>),
  \<open>None\<close> standing for the initial \<open>null\<close> and \<open>Number.POSITIVE_INFINITY\<close>.
\<close>

definition closestPlayerStep ::
  "EnemySpot \<Rightarrow> (ServerPlayer \<times> real) option \<Rightarrow> ServerPlayer \<Rightarrow> (ServerPlayer \<times> real) option" where
  "closestPlayerStep enemy best player =
     (let dx = player_x player - enemy_x enemy;
          dy = player_y player - enemy_y enemy;
          distanceSquared = dx * dx + dy * dy
      in if (case best of None \<Rightarrow> True | Some (_, closest) \<Rightarrow> distanceSquared < closest)
         then Some (player, distanceSquared) else best)"

definition closestPlayerTo :: "EnemySpot \<Rightarrow> ServerPlayer list \<Rightarrow> (ServerPlayer \<times> real) option" where
  "closestPlayerTo enemy allPlayers = foldl (closestPlayerStep enemy) None allPlayers"

record Pursuit =
  targetX :: real
  targetY :: real
  speed :: real

definition choosePursuit :: "EnemySpot \<Rightarrow> ServerPlayer list \<Rightarrow> Pursuit" where
  "choosePursuit enemy allPlayers =
     (let homeDx = homeX enemy - enemy_x enemy;
          homeDy = homeY enemy - enemy_y enemy;
          homeDistanceSquared = homeDx * homeDx + homeDy * homeDy;
          leashSquared = (territoryRadius enemy * 1.35) ^ 2;
          closestPlayer = map_option fst (closestPlayerTo enemy allPlayers);
          shouldReturnHome = (homeDistanceSquared > leashSquared \<or> closestPlayer = None)
      in \<lparr>targetX = (case closestPlayer of
                       Some player \<Rightarrow> if shouldReturnHome then homeX enemy else player_x player
                     | None \<Rightarrow> homeX enemy),
          targetY = (case closestPlayer of
                       Some player \<Rightarrow> if shouldReturnHome then homeY enemy else player_y player
                     | None \<Rightarrow> homeY enemy),
          speed = (if shouldReturnHome
                   then ENEMY_SPEED_PER_TICK * ENEMY_RETURN_SPEED_MULTIPLIER
                   else ENEMY_SPEED_PER_TICK)\<rparr>)"

definition stepEnemy :: "EnemySpot \<Rightarrow> ServerPlayer list \<Rightarrow> EnemySpot \<times> bool" where
  "stepEnemy enemy allPlayers =
     (let pursuit = choosePursuit enemy allPlayers;
          moved = movePointToward (enemy_x enemy) (enemy_y enemy)
                    (targetX pursuit) (targetY pursuit) (speed pursuit)
      in if mv_moved moved
         then (enemy\<lparr>enemy_x := mv_x moved, enemy_y := mv_y moved\<rparr>, True)
         else (enemy, False))"

definition isHit :: "EnemySpot \<Rightarrow> ServerPlayer \<Rightarrow> bool" where
  "isHit enemy player =
     (let hitDistanceSquared = (PLAYER_RADIUS + ENEMY_RADIUS) ^ 2;
          dx = player_x player - enemy_x enemy;
          dy = player_y player - enemy_y enemy
      in dx * dx + dy * dy \<le> hitDistanceSquared)"

definition respawnPlayer :: "EnemySpot list \<Rightarrow> ServerPlayer \<Rightarrow> Entropy \<Rightarrow> ServerPlayer \<times> Entropy" where
  "respawnPlayer es player g =
     (let (next, g') = spawnPlayerPosition es g
      in (player\<lparr>player_x := fst next, player_y := snd next\<rparr>, g'))"

text \<open>
  The loop over \<open>allPlayers\<close> that follows an enemy's step. \<open>hitUserIds\<close> is a \<open>Set\<close>: a
  list, in insertion order, that \<open>add\<close> extends only with a user id it does not hold.
\<close>

fun hitPlayers ::
  "EnemySpot \<Rightarrow> EnemySpot list \<Rightarrow> ServerPlayer list \<Rightarrow> string list \<times> bool \<times> Entropy
     \<Rightarrow> ServerPlayer list \<times> string list \<times> bool \<times> Entropy" where
  "hitPlayers enemy es [] acc = ([], acc)"
| "hitPlayers enemy es (player # rest) (hitUserIds, changed, g) =
     (if isHit enemy player
      then (let hitUserIds' = (if userId player \<notin> set hitUserIds
                                then hitUserIds @ [userId player] else hitUserIds);
                (player', g') = respawnPlayer es player g;
                (rest', acc') = hitPlayers enemy es rest (hitUserIds', True, g')
            in (player' # rest', acc'))
      else (let (rest', acc') = hitPlayers enemy es rest (hitUserIds, changed, g)
            in (player # rest', acc')))"

text \<open>The body of \<open>for (const enemy of enemies)\<close>, for the enemy at index \<open>i\<close>.\<close>

definition enemyTurn :: "World \<times> string list \<times> bool \<Rightarrow> nat \<Rightarrow> World \<times> string list \<times> bool" where
  "enemyTurn st i =
     (case st of (w, hitUserIds, changed) \<Rightarrow>
        (let (enemy', moved) = stepEnemy (enemies w ! i) (players w);
             es' = (enemies w)[i := enemy'];
             (ps', hitUserIds', changed', g') =
               hitPlayers enemy' es' (players w) (hitUserIds, changed \<or> moved, entropy w)
         in (w\<lparr>enemies := es', players := ps', entropy := g'\<rparr>, hitUserIds', changed')))"

definition resetAll :: "string list \<Rightarrow> World \<Rightarrow> World \<times> Effect list" where
  "resetAll hitUserIds w =
     foldl (\<lambda>(w', effects) uid. let (w'', e) = resetUserScore uid w' in (w'', effects @ e))
       (w, []) hitUserIds"

text \<open>\<open>updateEnemies\<close> returns its boolean, the new state and the persistence calls it made.\<close>

definition enemyLoop :: "World \<Rightarrow> World \<times> string list \<times> bool" where
  "enemyLoop w = foldl enemyTurn (w, [], False) [0..<length (enemies w)]"

definition updateEnemies :: "World \<Rightarrow> bool \<times> World \<times> Effect list" where
  "updateEnemies w =
     (if players w = [] \<or> enemies w = [] then (False, w, [])
      else (case enemyLoop w of (w1, hitUserIds, changed) \<Rightarrow>
              (let (w2, effects) = resetAll hitUserIds w1
               in (changed \<or> hitUserIds \<noteq> [], w2, effects))))"

text \<open>The interval timer: \<open>snapNow\<close> is the clock when the snapshot is taken.\<close>

definition enemyTicker :: "World \<Rightarrow> int \<Rightarrow> World \<times> Effect list" where
  "enemyTicker w snapNow =
     (case updateEnemies w of (changed, w', effects) \<Rightarrow>
        (w', effects @ (if changed then broadcastWorld w' snapNow else [])))"

subsection \<open>Connection hooks\<close>

definition getPlayer :: "World \<Rightarrow> string \<Rightarrow> ServerPlayer option" where
  "getPlayer w peer = find (\<lambda>player. connectionId player = peer) (players w)"

text \<open>\<open>players.set(peer.id, player)\<close>: an existing key keeps its place, a new one goes last.\<close>

definition setPlayer :: "ServerPlayer \<Rightarrow> ServerPlayer list \<Rightarrow> ServerPlayer list" where
  "setPlayer player ps =
     (if list_ex (\<lambda>p. connectionId p = connectionId player) ps
      then map (\<lambda>p. if connectionId p = connectionId player then player else p) ps
      else ps @ [player])"

text \<open>
  \<open>open\<close>: \<open>contextUserId\<close> and \<open>contextName\<close> are the fields of \<open>peer.context\<close>, \<open>None\<close>
  when absent. The hook starts the two hydrations and the join timer.
\<close>

definition openPeer ::
  "World \<Rightarrow> string \<Rightarrow> string option \<Rightarrow> string option \<Rightarrow> World \<times> Effect list" where
  "openPeer w peer contextUserId contextName =
     (case contextUserId of
        None \<Rightarrow> (w, [ClosePeer peer 4401 ''Unauthorized''])
      | Some uid \<Rightarrow>
          if uid = [] then (w, [ClosePeer peer 4401 ''Unauthorized''])
          else (let displayName = (case contextName of Some n \<Rightarrow> n | None \<Rightarrow> ''Player'')
                in (w\<lparr>pendingJoinTimers := (pendingJoinTimers w)(peer \<mapsto> (uid, displayName))\<rparr>,
                    [HydrateUserScore uid, HydrateUserColor uid])))"

text \<open>The join timer of \<open>peer\<close> fires; a timer that is no longer tracked does nothing.\<close>

definition joinTimer :: "World \<Rightarrow> string \<Rightarrow> int \<Rightarrow> World \<times> Effect list" where
  "joinTimer w peer snapNow =
     (case pendingJoinTimers w peer of
        None \<Rightarrow> (w, [])
      | Some (uid, displayName) \<Rightarrow>
          (let persistedScore = (case userScores w uid of Some sc \<Rightarrow> sc | None \<Rightarrow> 0);
               (start, g') = spawnPlayerPosition (enemies w) (entropy w);
               player = \<lparr>connectionId = peer, userId = uid, player_name = displayName,
                         player_color = getUserColor w uid,
                         player_x = fst start, player_y = snd start,
                         score = persistedScore,
                         speedUntil = 0, magnetUntil = 0, doubleUntil = 0\<rparr>;
               w' = w\<lparr>pendingJoinTimers := (pendingJoinTimers w)(peer := None),
                      players := setPlayer player (players w),
                      entropy := g'\<rparr>
           in (w', Send peer (Connected peer) # broadcastWorld w' snapNow)))"

definition closePeer :: "World \<Rightarrow> string \<Rightarrow> int \<Rightarrow> World \<times> Effect list" where
  "closePeer w peer snapNow =
     (let w1 = w\<lparr>pendingJoinTimers := (pendingJoinTimers w)(peer := None)\<rparr>;
          closedPlayer = getPlayer w1 peer;
          hadPlayer = (closedPlayer \<noteq> None);
          w2 = w1\<lparr>players := filter (\<lambda>p. connectionId p \<noteq> peer) (players w1)\<rparr>;
          w3 = (case closedPlayer of
                  None \<Rightarrow> w2
                | Some gone \<Rightarrow>
                    (let hasOtherConnectionsForUser =
                           list_ex (\<lambda>connectedPlayer. userId connectedPlayer = userId gone)
                             (players w2)
                     in if \<not> hasOtherConnectionsForUser
                        then w2\<lparr>userScores := (userScores w2)(userId gone := None),
                                userColors := (userColors w2)(userId gone := None)\<rparr>
                        else w2))
      in (w3, if hadPlayer then broadcastWorld w3 snapNow else []))"

subsection \<open>Inbound messages\<close>

text \<open>
  The result of the builtin \<open>Number(v)\<close> coercion of a payload field: a finite number,
  an infinity or \<open>NaN\<close>.
\<close>

datatype JsNumber = Finite real | PosInfinity | NegInfinity | NaN

text \<open>
  A payload that \<open>message.json()\<close> parsed, by its \<open>type\<close> field: a colour change with its
  \<open>color\<close> field, a move with \<open>Number(payload.dx)\<close> and \<open>Number(payload.dy)\<close>, or any other
  value that has properties. A message is unparsable (\<open>json()\<close> throws), the JSON value
  \<open>null\<close> (reading \<open>payload.type\<close> throws a \<open>TypeError\<close>), or a parsed payload.
\<close>

datatype ClientPayload =
  SetColor Unknown
  | Move JsNumber JsNumber
  | OtherPayload

datatype RawMessage = Unparsable | ParsedNull | Parsed ClientPayload

datatype HandlerError = TypeError

text \<open>\<open>clamp(Number(v) || 0, -1, 1)\<close>: \<open>NaN\<close> and zero are falsy.\<close>

definition moveAxis :: "JsNumber \<Rightarrow> real" where
  "moveAxis n =
     (case n of
        NaN \<Rightarrow> clamp 0 (-1) 1
      | PosInfinity \<Rightarrow> 1
      | NegInfinity \<Rightarrow> -1
      | Finite r \<Rightarrow> clamp (if r = 0 then 0 else r) (-1) 1)"

text \<open>
  The handler's \<open>player\<close> is the object the map holds: a write to it is a write to the map
  entry of its connection.
\<close>

definition storePlayer :: "ServerPlayer \<Rightarrow> World \<Rightarrow> World" where
  "storePlayer player w =
     w\<lparr>players := map (\<lambda>p. if connectionId p = connectionId player then player else p)
                    (players w)\<rparr>"

definition handleSetColor :: "World \<Rightarrow> string \<Rightarrow> ServerPlayer \<Rightarrow> Unknown \<Rightarrow> int \<Rightarrow> World \<times> Effect list" where
  "handleSetColor w peer player col snapNow =
     (case sanitizeColor col of
        None \<Rightarrow> (w, [Send peer (ErrorMessage ''Invalid color format.'')])
      | Some nextColor \<Rightarrow>
          (let w' = w\<lparr>userColors := (userColors w)(userId player \<mapsto> nextColor),
                      players := applyColorToConnectedPlayers (userId player) nextColor (players w)\<rparr>
           in (w', PersistUserColor (userId player) nextColor # broadcastWorld w' snapNow)))"

definition powerupStep :: "int \<Rightarrow> ServerPlayer \<times> World \<Rightarrow> nat \<Rightarrow> ServerPlayer \<times> World" where
  "powerupStep now st i =
     (case st of (player, w) \<Rightarrow>
        (let distanceX = player_x player - powerup_x (powerups w ! i);
             distanceY = player_y player - powerup_y (powerups w ! i)
         in if distanceX * distanceX + distanceY * distanceY \<le> (PLAYER_RADIUS + POWERUP_RADIUS) ^ 2
            then (let player' = applyPowerup player (powerup_type (powerups w ! i)) now;
                      w1 = storePlayer player' w;
                      (spot, g') = spawnPowerup w1 (powerups w1) (Some i) (entropy w1)
                  in (player', w1\<lparr>powerups := (powerups w1)[i := spot], entropy := g'\<rparr>))
            else (player, w)))"

definition respawnGrass :: "nat \<Rightarrow> World \<Rightarrow> World" where
  "respawnGrass i w =
     (let (spot, g') = spawnGrass w (grasses w) (Some i) (entropy w)
      in w\<lparr>grasses := (grasses w)[i := spot], entropy := g'\<rparr>)"

definition pullGrass :: "ServerPlayer \<Rightarrow> GrassSpot \<Rightarrow> real \<Rightarrow> real \<Rightarrow> real \<Rightarrow> GrassSpot" where
  "pullGrass player grass distanceX distanceY distance =
     (let pullAmount = min MAGNET_PULL_PER_TICK (max 0 (distance - getGrassTouchRadius))
      in if pullAmount > 0
         then (let pulledX = clamp (grass_x grass + (distanceX / distance) * pullAmount)
                               GRASS_RADIUS (MAP_WIDTH - GRASS_RADIUS);
                   pulledY = clamp (grass_y grass + (distanceY / distance) * pullAmount)
                               GRASS_RADIUS (MAP_HEIGHT - GRASS_RADIUS)
               in if \<not> isCircleBlockedByBuildings pulledX pulledY GRASS_RADIUS
                  then grass\<lparr>grass_x := pulledX, grass_y := pulledY\<rparr>
                  else grass)
         else grass)"

definition grassStep :: "ServerPlayer \<Rightarrow> int \<Rightarrow> World \<times> nat \<Rightarrow> nat \<Rightarrow> World \<times> nat" where
  "grassStep player now st i =
     (case st of (w, touchedGrassCount) \<Rightarrow>
        (let isMagnetActive = (magnetUntil player > now);
             touchingDistanceSquared = getGrassTouchRadius ^ 2;
             magnetDistanceSquared = (getGrassMagnetRadius player now) ^ 2;
             grass = grasses w ! i;
             distanceX = player_x player - grass_x grass;
             distanceY = player_y player - grass_y grass;
             distanceSquared = distanceX * distanceX + distanceY * distanceY
         in if distanceSquared \<le> touchingDistanceSquared
            then (respawnGrass i w, touchedGrassCount + 1)
            else (let grass' =
                        (if isMagnetActive \<and> distanceSquared \<le> magnetDistanceSquared
                            \<and> sqrt distanceSquared > 0.001
                         then pullGrass player grass distanceX distanceY (sqrt distanceSquared)
                         else grass);
                      w1 = w\<lparr>grasses := (grasses w)[i := grass']\<rparr>;
                      distanceX' = player_x player - grass_x grass';
                      distanceY' = player_y player - grass_y grass';
                      distanceSquared' = distanceX' * distanceX' + distanceY' * distanceY'
                  in if distanceSquared' \<le> touchingDistanceSquared
                     then (respawnGrass i w1, touchedGrassCount + 1)
                     else (w1, touchedGrassCount))))"

definition pointsFor :: "nat \<Rightarrow> bool \<Rightarrow> int" where
  "pointsFor touchedGrassCount doubleActive =
     (let pointsAwarded = int touchedGrassCount;
          pointsAwarded = (if pointsAwarded > 0 \<and> doubleActive then pointsAwarded * 2
                           else pointsAwarded)
      in if touchedGrassCount \<ge> OVERGROWTH_THRESHOLD then pointsAwarded + OVERGROWTH_BONUS
         else pointsAwarded)"

definition awardPoints :: "ServerPlayer \<Rightarrow> int \<Rightarrow> nat \<Rightarrow> World \<Rightarrow> World \<times> Effect list" where
  "awardPoints player now touchedGrassCount w =
     (let pointsAwarded = pointsFor touchedGrassCount (doubleUntil player > now)
      in if pointsAwarded > 0
         then (let nextScore = (case userScores w (userId player) of
                                  Some sc \<Rightarrow> sc | None \<Rightarrow> score player) + pointsAwarded
               in (w\<lparr>userScores := (userScores w)(userId player \<mapsto> nextScore),
                      players := applyScoreToConnectedPlayers (userId player) nextScore (players w)\<rparr>,
                   [PersistScoreDelta (userId player) pointsAwarded]))
         else (w, []))"

text \<open>
  The state of a move intent after movement and pickups, before scoring: the handler's
  player, the world, and \<open>touchedGrassCount\<close>.
\<close>

definition moveAndCollect ::
  "World \<Rightarrow> ServerPlayer \<Rightarrow> real \<Rightarrow> real \<Rightarrow> int \<Rightarrow> ServerPlayer \<times> World \<times> nat" where
  "moveAndCollect w player dx dy now =
     (let diagonalScale = (if dx \<noteq> 0 \<and> dy \<noteq> 0 then sqrt (1 / 2) else 1);
          moveSpeed = getPlayerMoveSpeed player now;
          movedPlayer = resolveBlockedMovement (player_x player) (player_y player)
                          (player_x player + dx * moveSpeed * diagonalScale)
                          (player_y player + dy * moveSpeed * diagonalScale) PLAYER_RADIUS;
          player1 = player\<lparr>player_x := res_x movedPlayer, player_y := res_y movedPlayer\<rparr>;
          w1 = storePlayer player1 w;
          (player2, w2) = foldl (powerupStep now) (player1, w1) [0..<length (powerups w1)];
          (w3, touchedGrassCount) =
            foldl (grassStep player2 now) (w2, 0) [0..<length (grasses w2)]
      in (player2, w3, touchedGrassCount))"

definition handleMove ::
  "World \<Rightarrow> ServerPlayer \<Rightarrow> JsNumber \<Rightarrow> JsNumber \<Rightarrow> int \<Rightarrow> int \<Rightarrow> World \<times> Effect list" where
  "handleMove w player dxN dyN now snapNow =
     (let dx = moveAxis dxN;
          dy = moveAxis dyN
      in if dx = 0 \<and> dy = 0 then (w, [])
         else (case moveAndCollect w player dx dy now of
                 (player2, w3, touchedGrassCount) \<Rightarrow>
                   (let (w4, scored) = awardPoints player2 now touchedGrassCount w3;
                        (changed, w5, resets) = updateEnemies w4
                    in (w5, scored @ resets @ broadcastWorld w5 snapNow))))"

text \<open>
  The \<open>message\<close> hook. \<open>now\<close> is \<open>Date.now()\<close> at the start of a move, \<open>snapNow\<close> the
  clock when the closing broadcast takes its snapshot.
\<close>

definition message ::
  "World \<Rightarrow> string \<Rightarrow> RawMessage \<Rightarrow> int \<Rightarrow> int \<Rightarrow> HandlerError + World \<times> Effect list" where
  "message w peer raw now snapNow =
     (case getPlayer w peer of
        None \<Rightarrow> Inr (w, [])
      | Some player \<Rightarrow>
          (case raw of
             Unparsable \<Rightarrow> Inr (w, [Send peer (ErrorMessage ''Invalid message payload.'')])
           | ParsedNull \<Rightarrow> Inl TypeError
           | Parsed (SetColor col) \<Rightarrow> Inr (handleSetColor w peer player col snapNow)
           | Parsed (Move dxN dyN) \<Rightarrow> Inr (handleMove w player dxN dyN now snapNow)
           | Parsed OtherPayload \<Rightarrow> Inr (w, [])))"

subsection \<open>Placement predicates\<close>

text \<open>A centre lies within \<open>[radius, bound - radius]\<close> on both axes.\<close>

definition inBounds :: "real \<Rightarrow> real \<Rightarrow> real \<Rightarrow> bool" where
  "inBounds radius x y =
     (radius \<le> x \<and> x \<le> MAP_WIDTH - radius \<and> radius \<le> y \<and> y \<le> MAP_HEIGHT - radius)"

definition playerPlaced :: "ServerPlayer \<Rightarrow> bool" where
  "playerPlaced p =
     (inBounds PLAYER_RADIUS (player_x p) (player_y p)
      \<and> \<not> isCircleBlockedByBuildings (player_x p) (player_y p) PLAYER_RADIUS)"

definition enemyPlaced :: "EnemySpot \<Rightarrow> bool" where
  "enemyPlaced e =
     (inBounds ENEMY_RADIUS (enemy_x e) (enemy_y e)
      \<and> \<not> isCircleBlockedByBuildings (enemy_x e) (enemy_y e) ENEMY_RADIUS)"

text \<open>Two records that differ at most in the position.\<close>

definition playerMoved :: "ServerPlayer \<Rightarrow> ServerPlayer \<Rightarrow> bool" where
  "playerMoved p p' = (p' = p\<lparr>player_x := player_x p', player_y := player_y p'\<rparr>)"

definition enemyMoved :: "EnemySpot \<Rightarrow> EnemySpot \<Rightarrow> bool" where
  "enemyMoved e e' = (e' = e\<lparr>enemy_x := enemy_x e', enemy_y := enemy_y e'\<rparr>)"

definition playersFrame :: "ServerPlayer list \<Rightarrow> ServerPlayer list \<Rightarrow> bool" where
  "playersFrame ps ps' =
     list_all2 (\<lambda>p p'. playerMoved p p' \<and> (p' = p \<or> playerPlaced p')) ps ps'"

definition enemiesFrame :: "EnemySpot list \<Rightarrow> EnemySpot list \<Rightarrow> bool" where
  "enemiesFrame es es' =
     list_all2 (\<lambda>e e'. enemyMoved e e' \<and> (enemyPlaced e \<longrightarrow> enemyPlaced e')) es es'"

text \<open>What one turn of the enemy loop, or several, may change.\<close>

definition tickFrame :: "World \<times> string list \<times> bool \<Rightarrow> World \<times> string list \<times> bool \<Rightarrow> bool" where
  "tickFrame st st' =
     (playersFrame (players (fst st)) (players (fst st'))
      \<and> enemiesFrame (enemies (fst st)) (enemies (fst st'))
      \<and> set (fst (snd st)) \<subseteq> set (fst (snd st'))
      \<and> set (fst (snd st')) \<subseteq> set (fst (snd st)) \<union> userId ` set (players (fst st))
      \<and> (distinct (fst (snd st)) \<longrightarrow> distinct (fst (snd st')))
      \<and> (snd (snd st) \<longrightarrow> snd (snd st'))
      \<and> userScores (fst st') = userScores (fst st)
      \<and> userColors (fst st') = userColors (fst st)
      \<and> pendingJoinTimers (fst st') = pendingJoinTimers (fst st)
      \<and> powerups (fst st') = powerups (fst st)
      \<and> grasses (fst st') = grasses (fst st))"

text \<open>Connection id and position of every player, in order.\<close>

definition standing :: "World \<Rightarrow> (string \<times> real \<times> real) list" where
  "standing w = map (\<lambda>p. (connectionId p, player_x p, player_y p)) (players w)"

text \<open>What the pickup loops keep: who stands where, the enemies, and the maps.\<close>

definition pickupFrame :: "ServerPlayer \<times> World \<Rightarrow> ServerPlayer \<times> World \<Rightarrow> bool" where
  "pickupFrame st st' =
     (connectionId (fst st') = connectionId (fst st) \<and> userId (fst st') = userId (fst st)
      \<and> player_x (fst st') = player_x (fst st) \<and> player_y (fst st') = player_y (fst st)
      \<and> score (fst st') = score (fst st)
      \<and> standing (snd st') = standing (snd st)
      \<and> enemies (snd st') = enemies (snd st)
      \<and> userScores (snd st') = userScores (snd st)
      \<and> userColors (snd st') = userColors (snd st)
      \<and> pendingJoinTimers (snd st') = pendingJoinTimers (snd st)
      \<and> length (powerups (snd st')) = length (powerups (snd st)))"

definition inStep :: "ServerPlayer \<times> World \<Rightarrow> bool" where
  "inStep st =
     (\<forall>p\<in>set (players (snd st)). connectionId p = connectionId (fst st) \<longrightarrow>
        player_x p = player_x (fst st) \<and> player_y p = player_y (fst st))"

text \<open>What the grass loop keeps: everything but the grass and the random supply.\<close>

definition grassFrame :: "World \<Rightarrow> World \<Rightarrow> bool" where
  "grassFrame w w' =
     (players w' = players w \<and> enemies w' = enemies w \<and> powerups w' = powerups w
      \<and> userScores w' = userScores w \<and> userColors w' = userColors w
      \<and> pendingJoinTimers w' = pendingJoinTimers w
      \<and> length (grasses w') = length (grasses w))"

text \<open>The squared distance that the scan for the closest player computes.\<close>

definition distanceSquaredTo :: "EnemySpot \<Rightarrow> ServerPlayer \<Rightarrow> real" where
  "distanceSquaredTo e p =
     (player_x p - enemy_x e) * (player_x p - enemy_x e)
     + (player_y p - enemy_y e) * (player_y p - enemy_y e)"

subsection \<open>Sample states\<close>

text \<open>
  Concrete states on which the theorems below are instantiated: one user with two
  connections, standing in the leftmost street.
\<close>

definition sampleEntropy :: Entropy where
  "sampleEntropy = \<lparr>draws = (\<lambda>_. 0), used = 0, uuids = (\<lambda>_. ''uuid''), issued = 0\<rparr>"

definition samplePlayer :: ServerPlayer where
  "samplePlayer =
     \<lparr>connectionId = ''c1'', userId = ''u1'', player_name = ''Ann'',
      player_color = ''#aabbcc'', player_x = 100, player_y = 100, score = 0,
      speedUntil = 5000, magnetUntil = 0, doubleUntil = 0\<rparr>"

definition samplePlayer2 :: ServerPlayer where
  "samplePlayer2 =
     \<lparr>connectionId = ''c2'', userId = ''u1'', player_name = ''Ann'',
      player_color = ''#aabbcc'', player_x = 100, player_y = 400, score = 0,
      speedUntil = 0, magnetUntil = 0, doubleUntil = 0\<rparr>"

definition sampleWorld :: World where
  "sampleWorld =
     \<lparr>players = [samplePlayer, samplePlayer2],
      userScores = [''u1'' \<mapsto> 0],
      userColors = Map.empty,
      pendingJoinTimers = Map.empty,
      powerups = [],
      enemies = [],
      grasses = [],
      entropy = sampleEntropy\<rparr>"

text \<open>
  \<open>hitWorld\<close>: the two connections of user \<open>u1\<close> stand at \<open>(100, 100)\<close> and
  \<open>(100, 130)\<close>, an enemy between them at \<open>(100, 115)\<close>; the user's score is 7.
\<close>

definition sampleEnemy :: EnemySpot where
  "sampleEnemy = \<lparr>enemy_id = ''e1'', enemy_x = 100, enemy_y = 115, homeX = 100, homeY = 115,
                   territoryRadius = 900\<rparr>"

definition hitWorld :: World where
  "hitWorld = sampleWorld\<lparr>players := [samplePlayer, samplePlayer2\<lparr>player_y := 130\<rparr>],
                          userScores := [''u1'' \<mapsto> 7],
                          enemies := [sampleEnemy]\<rparr>"

text \<open>
  \<open>idleWorld\<close>: nobody is connected, and an enemy stands 100 units from its home.
  \<open>farEnemy\<close> is beyond its leash of \<open>900 * 1.35\<close>; \<open>farWorld\<close> is \<open>hitWorld\<close> with that
  enemy in place of the one at home.
\<close>

definition awayEnemy :: EnemySpot where
  "awayEnemy = \<lparr>enemy_id = ''e2'', enemy_x = 100, enemy_y = 115, homeX = 100, homeY = 215,
                 territoryRadius = 900\<rparr>"

definition idleWorld :: World where
  "idleWorld = sampleWorld\<lparr>players := [], enemies := [awayEnemy]\<rparr>"

definition farEnemy :: EnemySpot where
  "farEnemy = \<lparr>enemy_id = ''e3'', enemy_x = 100, enemy_y = 115, homeX = 100, homeY = 2000,
                 territoryRadius = 900\<rparr>"

definition farWorld :: World where
  "farWorld = hitWorld\<lparr>enemies := [farEnemy]\<rparr>"

text \<open>\<open>grassWorld\<close>: a grass item lies 12 units east of the first connection.\<close>

definition grassWorld :: World where
  "grassWorld = sampleWorld\<lparr>grasses := [\<lparr>grass_x = 112, grass_y = 100\<rparr>,
                                         \<lparr>grass_x = 5000, grass_y = 5000\<rparr>]\<rparr>"

subsection \<open>Runs of move intents and enemy ticks\<close>

text \<open>
  A run of the server in which only move intents and enemy ticks occur. A move intent
  names the sending connection, the coerced \<open>dx\<close> and \<open>dy\<close> and the two clock readings;
  a tick names the clock reading of its broadcast.
\<close>

datatype Activity = MoveIntent string JsNumber JsNumber int int | EnemyTick int

definition perform :: "World \<Rightarrow> Activity \<Rightarrow> World" where
  "perform w a =
     (case a of
        MoveIntent peer dxN dyN now snapNow \<Rightarrow>
          (case message w peer (Parsed (Move dxN dyN)) now snapNow of
             Inr (w', _) \<Rightarrow> w'
           | Inl _ \<Rightarrow> w)
      | EnemyTick snapNow \<Rightarrow> fst (enemyTicker w snapNow))"

definition performAll :: "World \<Rightarrow> Activity list \<Rightarrow> World" where
  "performAll w acts = foldl perform w acts"

text \<open>
  Between two states: the players and the enemies are the same, in the same order, and
  each one that was placed (within bounds, clear of every building) still is.
\<close>

definition placedFrame :: "World \<Rightarrow> World \<Rightarrow> bool" where
  "placedFrame w w' =
     (list_all2 (\<lambda>p p'. connectionId p' = connectionId p \<and> (playerPlaced p \<longrightarrow> playerPlaced p'))
        (players w) (players w')
      \<and> list_all2 (\<lambda>e e'. enemy_id e' = enemy_id e \<and> (enemyPlaced e \<longrightarrow> enemyPlaced e'))
          (enemies w) (enemies w'))"

subsection \<open>Events and deliveries\<close>

text \<open>
  The hooks of the server as events. \<open>eventPeer\<close> is the connection an event belongs to;
  the enemy timer belongs to none.
\<close>

datatype Event =
  Open string "string option" "string option"
  | JoinTimerFires string int
  | Close string int
  | Message string RawMessage int int
  | EnemyTimerFires int

definition eventPeer :: "Event \<Rightarrow> string option" where
  "eventPeer ev =
     (case ev of
        Open peer _ _ \<Rightarrow> Some peer
      | JoinTimerFires peer _ \<Rightarrow> Some peer
      | Close peer _ \<Rightarrow> Some peer
      | Message peer _ _ _ \<Rightarrow> Some peer
      | EnemyTimerFires _ \<Rightarrow> None)"

definition serve :: "World \<Rightarrow> Event \<Rightarrow> HandlerError + World \<times> Effect list" where
  "serve w ev =
     (case ev of
        Open peer contextUserId contextName \<Rightarrow> Inr (openPeer w peer contextUserId contextName)
      | JoinTimerFires peer snapNow \<Rightarrow> Inr (joinTimer w peer snapNow)
      | Close peer snapNow \<Rightarrow> Inr (closePeer w peer snapNow)
      | Message peer raw now snapNow \<Rightarrow> message w peer raw now snapNow
      | EnemyTimerFires snapNow \<Rightarrow> Inr (enemyTicker w snapNow))"

text \<open>
  A run of events: the final state and everything sent, in order. A hook that throws
  leaves the state as it was and sends nothing.
\<close>

fun serveAll :: "World \<Rightarrow> Event list \<Rightarrow> World \<times> Effect list" where
  "serveAll w [] = (w, [])"
| "serveAll w (ev # evs) =
     (case serve w ev of
        Inl _ \<Rightarrow> serveAll w evs
      | Inr (w', effects) \<Rightarrow>
          (case serveAll w' evs of (w'', later) \<Rightarrow> (w'', effects @ later)))"

text \<open>The messages that a list of effects sends to one connection.\<close>

definition delivered :: "string \<Rightarrow> Effect list \<Rightarrow> ServerToClientMessage list" where
  "delivered peer effects =
     concat (map (\<lambda>e. case e of Send q m \<Rightarrow> (if q = peer then [m] else []) | _ \<Rightarrow> []) effects)"

text \<open>\<open>pendingWorld\<close>: connection \<open>c9\<close> of user \<open>u9\<close> has been opened in \<open>sampleWorld\<close>.\<close>

definition pendingWorld :: World where
  "pendingWorld = fst (openPeer sampleWorld ''c9'' (Some ''u9'') (Some ''Bob''))"

section \<open>Buff timers\<close>

lemma applyPowerup_buffUntil:
  "buffUntil t (applyPowerup p t now) = extendPowerup (buffUntil t p) now (buffDuration t)"
  by (cases t) (simp_all add: applyPowerup_def buffUntil_def buffDuration_def)

lemma buffDuration_pos: "0 < buffDuration t"
  by (cases t) (simp_all add: buffDuration_def)

text \<open>
  Claim C3. \<open>extendPowerup e now d\<close> is \<open>max e now + d\<close>; it is monotone in the current
  expiry \<open>e\<close>; applied at or after expiry (\<open>e \<le> now\<close>) it gives exactly \<open>now + d\<close>; and for a
  duration \<open>d \<ge> 0\<close> it never shortens the buff, so that a second application (at any later
  or earlier time) ends no earlier than the first. For \<open>applyPowerup\<close>, whose durations
  are the three positive constants, the same holds of the expiry of the applied type:
  applying a type twice yields an expiry no earlier than applying it once, and the
  expiry after one application is no earlier than before it.
\<close>

theorem extendPowerup_monotone_extending:
  "extendPowerup e now d = max e now + d
   \<and> (e \<le> now \<longrightarrow> extendPowerup e now d = now + d)
   \<and> (e \<le> e' \<longrightarrow> extendPowerup e now d \<le> extendPowerup e' now d)
   \<and> (0 \<le> d \<longrightarrow> e \<le> extendPowerup e now d)
   \<and> (0 \<le> d \<longrightarrow>
        extendPowerup e now d \<le> extendPowerup (extendPowerup e now d) now2 d)
   \<and> buffUntil t (applyPowerup p t now) = max (buffUntil t p) now + buffDuration t
   \<and> buffUntil t p \<le> buffUntil t (applyPowerup p t now)
   \<and> buffUntil t (applyPowerup p t now)
       \<le> buffUntil t (applyPowerup (applyPowerup p t now) t now2)
   \<and> (buffUntil t p \<le> now \<longrightarrow>
        buffUntil t (applyPowerup p t now) = now + buffDuration t)"
proof -
  have eq: "\<And>a n k. extendPowerup a n k = max a n + k"
    by (simp add: extendPowerup_def max_def)
  have pos: "0 < buffDuration t" by (rule buffDuration_pos)
  show ?thesis
    using pos by (simp add: applyPowerup_buffUntil eq max_def)
qed

text \<open>
  The theorem at \<open>samplePlayer\<close>: a speed buff that expires at 5000 is picked up again
  at time 1000 and once more at time 2000.
\<close>

theorem extendPowerup_monotone_extending_witness:
  "extendPowerup 5000 1000 8000 = 13000
   \<and> extendPowerup 500 1000 8000 = 9000
   \<and> extendPowerup 500 1000 8000 \<le> extendPowerup 5000 1000 8000
   \<and> extendPowerup 13000 2000 8000 = 21000
   \<and> buffUntil Speed (applyPowerup samplePlayer Speed 1000) = 13000
   \<and> buffUntil Speed (applyPowerup (applyPowerup samplePlayer Speed 1000) Speed 2000) = 21000
   \<and> buffUntil Speed (applyPowerup samplePlayer Speed 6000) = 14000"
  using extendPowerup_monotone_extending [of 5000 1000 8000 5000 2000 Speed samplePlayer]
    extendPowerup_monotone_extending [of 500 1000 8000 5000 2000 Speed samplePlayer]
  by (simp add: extendPowerup_def applyPowerup_def buffUntil_def samplePlayer_def)

section \<open>Facts about the layout and the geometry\<close>

lemma seededUnit_range: "0 \<le> seededUnit s \<and> seededUnit s < 1"
  unfolding seededUnit_def Let_def by linarith

lemma blockWidth_val: "blockWidth = 4235 / 4"
  by (simp add: blockWidth_def)

lemma blockHeight_val: "blockHeight = 4235 / 4"
  by (simp add: blockHeight_def)

lemma clamp_lower: "lo \<le> hi \<Longrightarrow> lo \<le> clamp v lo hi"
  by (simp add: clamp_def)

lemma clamp_upper: "clamp v lo hi \<le> hi"
  by (simp add: clamp_def)

lemma clamp_id: "lo \<le> v \<Longrightarrow> v \<le> hi \<Longrightarrow> clamp v lo hi = v"
  by (simp add: clamp_def)

lemma mainTower_bounds:
  "216 \<le> rect_x (mainTower row col) \<and> 216 \<le> rect_y (mainTower row col)
   \<and> 0 \<le> rect_width (mainTower row col) \<and> 0 \<le> rect_height (mainTower row col)"
proof -
  let ?b = "real (row * 101 + col * 37 + 1)"
  have u: "\<And>s. 0 \<le> seededUnit s" "\<And>s. seededUnit s < 1" using seededUnit_range by auto
  have w: "0 \<le> 0.52 + seededUnit ?b * 0.3" "0.52 + seededUnit ?b * 0.3 \<le> 1"
    using u[of ?b] by auto
  have h: "0 \<le> 0.5 + seededUnit (?b + 1) * 0.34" "0.5 + seededUnit (?b + 1) * 0.34 \<le> 1"
    using u[of "?b + 1"] by auto
  have uw: "max 80 (blockWidth - BUILDING_MARGIN * 2) = 3867 / 4"
    by (simp add: blockWidth_val)
  have uh: "max 80 (blockHeight - BUILDING_MARGIN * 2) = 3867 / 4"
    by (simp add: blockHeight_val)
  have ox: "0 \<le> (3867 / 4 - 3867 / 4 * (0.52 + seededUnit ?b * 0.3)) * seededUnit (?b + 2)"
    using w u[of "?b + 2"] by (intro mult_nonneg_nonneg) auto
  have oy: "0 \<le> (3867 / 4 - 3867 / 4 * (0.5 + seededUnit (?b + 1) * 0.34)) * seededUnit (?b + 3)"
    using h u[of "?b + 3"] by (intro mult_nonneg_nonneg) auto
  have cx: "0 \<le> real col * (blockWidth + STREET_WIDTH)" by (simp add: blockWidth_val)
  have cy: "0 \<le> real row * (blockHeight + STREET_WIDTH)" by (simp add: blockHeight_val)
  show ?thesis
    unfolding mainTower_def Let_def uw uh
    using ox oy cx cy w h by simp
qed

lemma annexTower_bounds:
  "216 \<le> rect_x (annexTower row col) \<and> 216 \<le> rect_y (annexTower row col)
   \<and> 0 \<le> rect_width (annexTower row col) \<and> 0 \<le> rect_height (annexTower row col)"
proof -
  let ?b = "real (row * 101 + col * 37 + 1)"
  have u: "\<And>s. 0 \<le> seededUnit s" "\<And>s. seededUnit s < 1" using seededUnit_range by auto
  have uw: "max 80 (blockWidth - BUILDING_MARGIN * 2) = 3867 / 4"
    by (simp add: blockWidth_val)
  have uh: "max 80 (blockHeight - BUILDING_MARGIN * 2) = 3867 / 4"
    by (simp add: blockHeight_val)
  have aw: "max 60 (3867 / 4 * (0.2 + seededUnit (?b + 6) * 0.22)) \<le> 3867 / 4"
    using u[of "?b + 6"] by auto
  have ah: "max 60 (3867 / 4 * (0.2 + seededUnit (?b + 7) * 0.22)) \<le> 3867 / 4"
    using u[of "?b + 7"] by auto
  have aw0: "0 \<le> max 60 (3867 / 4 * (0.2 + seededUnit (?b + 6) * 0.22))" by simp
  have ah0: "0 \<le> max 60 (3867 / 4 * (0.2 + seededUnit (?b + 7) * 0.22))" by simp
  have cx: "0 \<le> real col * (blockWidth + STREET_WIDTH)" by (simp add: blockWidth_val)
  have cy: "0 \<le> real row * (blockHeight + STREET_WIDTH)" by (simp add: blockHeight_val)
  show ?thesis
    unfolding annexTower_def Let_def uw uh
    using aw ah aw0 ah0 cx cy by simp
qed

lemma in_nested_concat:
  "x \<in> set (concat (map (\<lambda>r. concat (map (f r) cs)) rs)) \<Longrightarrow> \<exists>r c. x \<in> set (f r c)"
  by auto

lemma buildings_bounds:
  assumes "b \<in> set (buildings cityLayout)"
  shows "216 \<le> rect_x b \<and> 216 \<le> rect_y b \<and> 0 \<le> rect_width b \<and> 0 \<le> rect_height b"
proof -
  from assms obtain row col where "b \<in> set (blockBuildings row col)"
    unfolding cityLayout_def createCityLayout_def CityLayout.simps
    using in_nested_concat [of b blockBuildings] by blast
  then have "b = mainTower row col \<or> b = annexTower row col"
    by (auto simp: blockBuildings_def split: if_splits)
  then show ?thesis using mainTower_bounds annexTower_bounds by auto
qed

lemma circle_clear_of_rect_left:
  assumes "x + radius < rect_x b" "0 \<le> radius" "0 \<le> rect_width b"
  shows "\<not> circleIntersectsRect x y radius b"
proof -
  have c: "clamp x (rect_x b) (rect_x b + rect_width b) \<ge> rect_x b"
    using assms by (simp add: clamp_def)
  let ?dx = "x - clamp x (rect_x b) (rect_x b + rect_width b)"
  let ?dy = "y - clamp y (rect_y b) (rect_y b + rect_height b)"
  have "?dx < - radius" using c assms by linarith
  then have r: "radius < - ?dx" by linarith
  have "radius * radius < (- ?dx) * (- ?dx)"
    by (rule mult_strict_mono) (use r assms(2) in auto)
  then have "radius * radius < ?dx * ?dx" by (simp only: minus_mult_minus)
  moreover have "0 \<le> ?dy * ?dy" by simp
  ultimately show ?thesis
    unfolding circleIntersectsRect_def Let_def by linarith
qed

section \<open>Colour changes\<close>








lemma getPlayer_mem:"getPlayer w peer = Some player \<Longrightarrow> player \<in> set (players w) \<and> connectionId player = peer"
  unfolding getPlayer_def by (auto simp: find_Some_iff)








section \<open>Move input coercion\<close>


lemma moveAxis_range: "-1 \<le> moveAxis n \<and> moveAxis n \<le> 1"
  by (cases n) (simp_all add: moveAxis_def clamp_def)

lemma moveAxis_zero_iff: "moveAxis n = 0 \<longleftrightarrow> n = NaN \<or> n = Finite 0"
  by (cases n) (auto simp: moveAxis_def clamp_def min_def max_def)



section \<open>Random draws and streets\<close>

lemma Math_random_range: "0 \<le> fst (Math_random g) \<and> fst (Math_random g) < 1"
  by (simp add: Math_random_def frac_lt_1)

lemma randomBetween_range:
  assumes "lo \<in> \<int>" "hi \<in> \<int>" "lo \<le> hi"
  shows "lo \<le> fst (randomBetween lo hi g) \<and> fst (randomBetween lo hi g) \<le> hi
         \<and> fst (randomBetween lo hi g) \<in> \<int>"
proof -
  obtain u g' where ug: "Math_random g = (u, g')" by (cases "Math_random g")
  then have u: "0 \<le> u" "u < 1" using Math_random_range[of g] by auto
  from assms obtain a b where ab: "lo = of_int a" "hi = of_int b" by (auto elim!: Ints_cases)
  let ?n = "hi - lo + 1"
  have n: "?n = of_int (b - a + 1)" "0 < ?n" using ab assms(3) by auto
  have "0 \<le> u * ?n" using u n by auto
  then have f0: "0 \<le> \<lfloor>u * ?n\<rfloor>" by simp
  have "u * ?n < ?n" using u n by auto
  then have "u * ?n < of_int (b - a + 1)" by (metis n(1))
  then have "\<lfloor>u * ?n\<rfloor> < b - a + 1" by (simp only: floor_less_iff)
  then have f1: "\<lfloor>u * ?n\<rfloor> \<le> b - a" by simp
  have r: "fst (randomBetween lo hi g) = of_int \<lfloor>u * ?n\<rfloor> + lo"
    by (simp add: randomBetween_def ug)
  have "of_int \<lfloor>u * ?n\<rfloor> + lo \<le> hi"
  proof -
    have "(of_int \<lfloor>u * ?n\<rfloor> :: real) \<le> of_int (b - a)" using f1 by (simp only: of_int_le_iff)
    then show ?thesis using ab by simp
  qed
  moreover have "lo \<le> of_int \<lfloor>u * ?n\<rfloor> + lo" using f0 by simp
  moreover have "of_int \<lfloor>u * ?n\<rfloor> + lo \<in> \<int>" using assms(1) by simp
  ultimately show ?thesis unfolding r by simp
qed

lemma verticalStreet_bounds:
  assumes "col \<le> 8"
  shows "0 \<le> rect_x (verticalStreet col)
         \<and> rect_x (verticalStreet col) + rect_width (verticalStreet col) \<le> MAP_WIDTH
         \<and> rect_y (verticalStreet col) = 0
         \<and> rect_height (verticalStreet col) = MAP_HEIGHT
         \<and> rect_width (verticalStreet col) = STREET_WIDTH"
proof -
  have "real col \<le> 8" using assms by simp
  then have "real col * (4915 / 4) \<le> 8 * (4915 / 4)" by (intro mult_right_mono) auto
  then show ?thesis by (simp add: verticalStreet_def blockWidth_val)
qed

lemma horizontalStreet_bounds:
  assumes "row \<le> 8"
  shows "0 \<le> rect_y (horizontalStreet row)
         \<and> rect_y (horizontalStreet row) + rect_height (horizontalStreet row) \<le> MAP_HEIGHT
         \<and> rect_x (horizontalStreet row) = 0
         \<and> rect_width (horizontalStreet row) = MAP_WIDTH
         \<and> rect_height (horizontalStreet row) = STREET_WIDTH"
proof -
  have "real row \<le> 8" using assms by simp
  then have "real row * (4915 / 4) \<le> 8 * (4915 / 4)" by (intro mult_right_mono) auto
  then show ?thesis by (simp add: horizontalStreet_def blockHeight_val)
qed

lemma streets_length: "length (streets cityLayout) = 18"
  by (simp add: cityLayout_def createCityLayout_def)

lemma streets_bounds:
  assumes "s \<in> set (streets cityLayout)"
  shows "0 \<le> rect_x s \<and> rect_x s + rect_width s \<le> MAP_WIDTH
         \<and> 0 \<le> rect_y s \<and> rect_y s + rect_height s \<le> MAP_HEIGHT
         \<and> STREET_WIDTH \<le> rect_width s \<and> STREET_WIDTH \<le> rect_height s"
proof -
  from assms consider col where "col < 9" "s = verticalStreet col"
    | row where "row < 9" "s = horizontalStreet row"
    unfolding cityLayout_def createCityLayout_def CityLayout.simps set_append set_map
    by (auto simp del: upt_Suc)
  then show ?thesis
  proof cases
    case 1
    then show ?thesis using verticalStreet_bounds[of col] by simp
  next
    case 2
    then show ?thesis using horizontalStreet_bounds[of row] by simp
  qed
qed

section \<open>Placement of grass\<close>

lemma randomBetween_used: "used (snd (randomBetween lo hi g)) = Suc (used g)"
  by (simp add: randomBetween_def Math_random_def)

lemma randomUUID_used: "used (snd (randomUUID g)) = used g"
  by (simp add: randomUUID_def)

lemma randomPowerupType_used: "used (snd (randomPowerupType g)) = Suc (used g)"
  using randomBetween_used[of 0 "real (length POWERUP_TYPES) - 1" g]
  by (auto simp: randomPowerupType_def split: prod.splits)

lemma newPowerup_props:
  "newPowerup x y g = (spot, g') \<Longrightarrow>
     powerup_x spot = x \<and> powerup_y spot = y \<and> used g' = Suc (used g)"
  using randomUUID_used[of g] randomPowerupType_used[of "snd (randomUUID g)"]
  by (auto simp: newPowerup_def split: prod.splits)

lemma newEnemy_props:
  "newEnemy home x y g = (spot, g') \<Longrightarrow>
     enemy_x spot = x \<and> enemy_y spot = y \<and> homeX spot = home_x home
     \<and> homeY spot = home_y home \<and> used g' = used g"
  using randomUUID_used[of g]
  by (auto simp: newEnemy_def split: prod.splits)

lemma random_coordinate:
  assumes "r \<in> \<int>" "r \<le> 5000" "randomBetween r (10000 - r) g = (v, g')"
  shows "r \<le> v \<and> v \<le> 10000 - r \<and> used g' = Suc (used g)"
  using randomBetween_range[of r "10000 - r" g] randomBetween_used[of r "10000 - r" g] assms
  by auto

lemma spawnGrassPrimary_props:
  "spawnGrassPrimary n w ex skip g = (res, g') \<Longrightarrow>
     used g' \<le> used g + 2 * n
     \<and> (\<forall>spot. res = Some spot \<longrightarrow> inBounds GRASS_RADIUS (grass_x spot) (grass_y spot)
            \<and> \<not> isCircleBlockedByBuildings (grass_x spot) (grass_y spot) GRASS_RADIUS)"
proof (induction n arbitrary: g)
  case 0
  then show ?case by simp
next
  case (Suc n)
  obtain nx g1 where d1: "randomBetween GRASS_RADIUS (MAP_WIDTH - GRASS_RADIUS) g = (nx, g1)"
    by (cases "randomBetween GRASS_RADIUS (MAP_WIDTH - GRASS_RADIUS) g")
  obtain ny g2 where d2: "randomBetween GRASS_RADIUS (MAP_HEIGHT - GRASS_RADIUS) g1 = (ny, g2)"
    by (cases "randomBetween GRASS_RADIUS (MAP_HEIGHT - GRASS_RADIUS) g1")
  have b1: "14 \<le> nx \<and> nx \<le> 10000 - 14 \<and> used g1 = Suc (used g)"
    using random_coordinate[of 14 g nx g1] d1 by simp
  have b2: "14 \<le> ny \<and> ny \<le> 10000 - 14 \<and> used g2 = Suc (used g1)"
    using random_coordinate[of 14 g1 ny g2] d2 by simp
  show ?case
  proof (cases "grassCandidateFree w ex skip nx ny")
    case True
    then have "res = Some \<lparr>grass_x = nx, grass_y = ny\<rparr>" "g' = g2"
      using Suc.prems d1 d2 by auto
    moreover have "\<not> isCircleBlockedByBuildings nx ny GRASS_RADIUS"
      using True by (simp add: grassCandidateFree_def Let_def)
    ultimately show ?thesis using b1 b2 by (simp add: inBounds_def)
  next
    case False
    then have "spawnGrassPrimary n w ex skip g2 = (res, g')"
      using Suc.prems d1 d2 by auto
    from Suc.IH[OF this] show ?thesis using b1 b2 by simp
  qed
qed

lemma spawnGrassFallback_props:
  "spawnGrassFallback n g = (res, g') \<Longrightarrow>
     used g' \<le> used g + 2 * n
     \<and> (\<forall>spot. res = Some spot \<longrightarrow> inBounds GRASS_RADIUS (grass_x spot) (grass_y spot)
            \<and> \<not> isCircleBlockedByBuildings (grass_x spot) (grass_y spot) GRASS_RADIUS)"
proof (induction n arbitrary: g)
  case 0
  then show ?case by simp
next
  case (Suc n)
  obtain nx g1 where d1: "randomBetween GRASS_RADIUS (MAP_WIDTH - GRASS_RADIUS) g = (nx, g1)"
    by (cases "randomBetween GRASS_RADIUS (MAP_WIDTH - GRASS_RADIUS) g")
  obtain ny g2 where d2: "randomBetween GRASS_RADIUS (MAP_HEIGHT - GRASS_RADIUS) g1 = (ny, g2)"
    by (cases "randomBetween GRASS_RADIUS (MAP_HEIGHT - GRASS_RADIUS) g1")
  have b1: "14 \<le> nx \<and> nx \<le> 10000 - 14 \<and> used g1 = Suc (used g)"
    using random_coordinate[of 14 g nx g1] d1 by simp
  have b2: "14 \<le> ny \<and> ny \<le> 10000 - 14 \<and> used g2 = Suc (used g1)"
    using random_coordinate[of 14 g1 ny g2] d2 by simp
  show ?case
  proof (cases "isCircleBlockedByBuildings nx ny GRASS_RADIUS")
    case False
    then have "res = Some \<lparr>grass_x = nx, grass_y = ny\<rparr>" "g' = g2"
      using Suc.prems d1 d2 by auto
    then show ?thesis using b1 b2 False by (simp add: inBounds_def)
  next
    case True
    then have "spawnGrassFallback n g2 = (res, g')"
      using Suc.prems d1 d2 by auto
    from Suc.IH[OF this] show ?thesis using b1 b2 by simp
  qed
qed

lemma spawnGrass_props:
  assumes "spawnGrass w ex skip g = (spot, g')"
  shows "inBounds GRASS_RADIUS (grass_x spot) (grass_y spot) \<and> used g' \<le> used g + 128"
proof -
  obtain r1 g1 where p: "spawnGrassPrimary 32 w ex skip g = (r1, g1)"
    by (cases "spawnGrassPrimary 32 w ex skip g")
  obtain r2 g2 where f: "spawnGrassFallback 32 g1 = (r2, g2)"
    by (cases "spawnGrassFallback 32 g1")
  note P = spawnGrassPrimary_props[OF p] and F = spawnGrassFallback_props[OF f]
  show ?thesis
  proof (cases r1)
    case (Some s1)
    then show ?thesis using assms p P by (simp add: spawnGrass_def)
  next
    case None
    show ?thesis
    proof (cases r2)
      case (Some s2)
      then show ?thesis using assms p f P F None by (simp add: spawnGrass_def)
    next
      case N2: None
      then show ?thesis using assms p f P F None
        by (auto simp: spawnGrass_def inBounds_def)
    qed
  qed
qed

section \<open>Movement resolution\<close>

lemma unblocked_near_border:
  assumes "x + radius < 216" "0 \<le> radius"
  shows "\<not> isCircleBlockedByBuildings x y radius"
proof -
  have "\<not> circleIntersectsRect x y radius b" if "b \<in> set (buildings cityLayout)" for b
    using buildings_bounds[OF that] assms by (intro circle_clear_of_rect_left) auto
  then show ?thesis by (auto simp: isCircleBlockedByBuildings_def list_ex_iff)
qed

lemma tryOrder_unblocked:
  assumes "\<not> isCircleBlockedByBuildings cx cy r"
  shows "\<not> isCircleBlockedByBuildings (res_x (tryOrder b cx cy tx ty r))
            (res_y (tryOrder b cx cy tx ty r)) r"
  using assms by (auto simp: tryOrder_def Let_def)

lemma tryOrder_inBounds:
  assumes "inBounds r cx cy" "inBounds r tx ty"
  shows "inBounds r (res_x (tryOrder b cx cy tx ty r)) (res_y (tryOrder b cx cy tx ty r))"
  using assms by (auto simp: tryOrder_def Let_def inBounds_def)

lemma clamped_target_inBounds:
  assumes "radius \<le> 5000"
  shows "inBounds radius (clamp tx radius (MAP_WIDTH - radius)) (clamp ty radius (MAP_HEIGHT - radius))"
  using assms by (auto simp: inBounds_def clamp_def)

lemma resolveBlockedMovement_unblocked:
  assumes "\<not> isCircleBlockedByBuildings cx cy r"
  shows "\<not> isCircleBlockedByBuildings (res_x (resolveBlockedMovement cx cy tx ty r))
            (res_y (resolveBlockedMovement cx cy tx ty r)) r"
  using tryOrder_unblocked[OF assms] by (simp add: resolveBlockedMovement_def Let_def)

lemma resolveBlockedMovement_inBounds:
  assumes "inBounds r cx cy" "r \<le> 5000"
  shows "inBounds r (res_x (resolveBlockedMovement cx cy tx ty r))
            (res_y (resolveBlockedMovement cx cy tx ty r))"
  using tryOrder_inBounds[OF assms(1) clamped_target_inBounds[OF assms(2)]]
  by (simp add: resolveBlockedMovement_def Let_def)

text \<open>An axis changes only to the clamped target, and only when the circle there is free.\<close>

lemma resolveBlockedMovement_axis:
  "res_x (resolveBlockedMovement cx cy tx ty r) \<in> {cx, clamp tx r (MAP_WIDTH - r)}
   \<and> res_y (resolveBlockedMovement cx cy tx ty r) \<in> {cy, clamp ty r (MAP_HEIGHT - r)}"
  by (auto simp: resolveBlockedMovement_def tryOrder_def Let_def)

lemma movePointToward_cases:
  "(mv_x (movePointToward cx cy tx ty s), mv_y (movePointToward cx cy tx ty s)) = (cx, cy)
   \<or> (\<exists>ax ay. mv_x (movePointToward cx cy tx ty s) = res_x (resolveBlockedMovement cx cy ax ay ENEMY_RADIUS)
        \<and> mv_y (movePointToward cx cy tx ty s) = res_y (resolveBlockedMovement cx cy ax ay ENEMY_RADIUS))"
  by (auto simp: movePointToward_def Let_def)

section \<open>Placement of powerups and players\<close>

lemma spawnPowerupPrimary_props:
  "spawnPowerupPrimary n w ex skip g = (res, g') \<Longrightarrow>
     used g' \<le> used g + 2 * n + (if res = None then 0 else 1)
     \<and> (\<forall>spot. res = Some spot \<longrightarrow> inBounds POWERUP_RADIUS (powerup_x spot) (powerup_y spot)
            \<and> \<not> isCircleBlockedByBuildings (powerup_x spot) (powerup_y spot) POWERUP_RADIUS)"
proof (induction n arbitrary: g)
  case 0
  then show ?case by simp
next
  case (Suc n)
  obtain nx g1 where d1: "randomBetween POWERUP_RADIUS (MAP_WIDTH - POWERUP_RADIUS) g = (nx, g1)"
    by (cases "randomBetween POWERUP_RADIUS (MAP_WIDTH - POWERUP_RADIUS) g")
  obtain ny g2 where d2: "randomBetween POWERUP_RADIUS (MAP_HEIGHT - POWERUP_RADIUS) g1 = (ny, g2)"
    by (cases "randomBetween POWERUP_RADIUS (MAP_HEIGHT - POWERUP_RADIUS) g1")
  have b1: "16 \<le> nx \<and> nx \<le> 10000 - 16 \<and> used g1 = Suc (used g)"
    using random_coordinate[of 16 g nx g1] d1 by simp
  have b2: "16 \<le> ny \<and> ny \<le> 10000 - 16 \<and> used g2 = Suc (used g1)"
    using random_coordinate[of 16 g1 ny g2] d2 by simp
  show ?case
  proof (cases "powerupCandidateFree w ex skip nx ny")
    case True
    obtain spot g3 where np: "newPowerup nx ny g2 = (spot, g3)" by (cases "newPowerup nx ny g2")
    then have "res = Some spot" "g' = g3"
      using Suc.prems d1 d2 True by auto
    moreover have "\<not> isCircleBlockedByBuildings nx ny POWERUP_RADIUS"
      using True by (simp add: powerupCandidateFree_def Let_def)
    ultimately show ?thesis using b1 b2 newPowerup_props[OF np] by (simp add: inBounds_def)
  next
    case False
    then have "spawnPowerupPrimary n w ex skip g2 = (res, g')"
      using Suc.prems d1 d2 by auto
    from Suc.IH[OF this] show ?thesis using b1 b2 by simp
  qed
qed

lemma spawnPowerupFallback_props:
  "spawnPowerupFallback n g = (res, g') \<Longrightarrow>
     used g' \<le> used g + 2 * n + (if res = None then 0 else 1)
     \<and> (\<forall>spot. res = Some spot \<longrightarrow> inBounds POWERUP_RADIUS (powerup_x spot) (powerup_y spot)
            \<and> \<not> isCircleBlockedByBuildings (powerup_x spot) (powerup_y spot) POWERUP_RADIUS)"
proof (induction n arbitrary: g)
  case 0
  then show ?case by simp
next
  case (Suc n)
  obtain nx g1 where d1: "randomBetween POWERUP_RADIUS (MAP_WIDTH - POWERUP_RADIUS) g = (nx, g1)"
    by (cases "randomBetween POWERUP_RADIUS (MAP_WIDTH - POWERUP_RADIUS) g")
  obtain ny g2 where d2: "randomBetween POWERUP_RADIUS (MAP_HEIGHT - POWERUP_RADIUS) g1 = (ny, g2)"
    by (cases "randomBetween POWERUP_RADIUS (MAP_HEIGHT - POWERUP_RADIUS) g1")
  have b1: "16 \<le> nx \<and> nx \<le> 10000 - 16 \<and> used g1 = Suc (used g)"
    using random_coordinate[of 16 g nx g1] d1 by simp
  have b2: "16 \<le> ny \<and> ny \<le> 10000 - 16 \<and> used g2 = Suc (used g1)"
    using random_coordinate[of 16 g1 ny g2] d2 by simp
  show ?case
  proof (cases "isCircleBlockedByBuildings nx ny POWERUP_RADIUS")
    case False
    obtain spot g3 where np: "newPowerup nx ny g2 = (spot, g3)" by (cases "newPowerup nx ny g2")
    then have "res = Some spot" "g' = g3"
      using Suc.prems d1 d2 False by auto
    then show ?thesis using b1 b2 False newPowerup_props[OF np] by (simp add: inBounds_def)
  next
    case True
    then have "spawnPowerupFallback n g2 = (res, g')"
      using Suc.prems d1 d2 by auto
    from Suc.IH[OF this] show ?thesis using b1 b2 by simp
  qed
qed

lemma spawnPowerup_props:
  assumes "spawnPowerup w ex skip g = (spot, g')"
  shows "inBounds POWERUP_RADIUS (powerup_x spot) (powerup_y spot) \<and> used g' \<le> used g + 129"
proof -
  obtain r1 g1 where p: "spawnPowerupPrimary 32 w ex skip g = (r1, g1)"
    by (cases "spawnPowerupPrimary 32 w ex skip g")
  obtain r2 g2 where f: "spawnPowerupFallback 32 g1 = (r2, g2)"
    by (cases "spawnPowerupFallback 32 g1")
  note P = spawnPowerupPrimary_props[OF p] and F = spawnPowerupFallback_props[OF f]
  show ?thesis
  proof (cases r1)
    case (Some s1)
    then show ?thesis using assms p P by (simp add: spawnPowerup_def)
  next
    case None
    show ?thesis
    proof (cases r2)
      case (Some s2)
      then show ?thesis using assms p f P F None by (simp add: spawnPowerup_def)
    next
      case N2: None
      then have "newPowerup POWERUP_RADIUS POWERUP_RADIUS g2 = (spot, g')"
        using assms p f None by (simp add: spawnPowerup_def)
      from newPowerup_props[OF this] show ?thesis using P F None N2
        by (auto simp: inBounds_def)
    qed
  qed
qed


lemma spawnPlayerAnywhere_props:
  "spawnPlayerAnywhere n es g = (res, g') \<Longrightarrow>
     used g' \<le> used g + 2 * n
     \<and> (\<forall>x y. res = Some (x, y) \<longrightarrow> inBounds PLAYER_RADIUS x y
            \<and> \<not> isCircleBlockedByBuildings x y PLAYER_RADIUS)"
proof (induction n arbitrary: g)
  case 0
  then show ?case by simp
next
  case (Suc n)
  obtain nx g1 where d1: "randomBetween PLAYER_RADIUS (MAP_WIDTH - PLAYER_RADIUS) g = (nx, g1)"
    by (cases "randomBetween PLAYER_RADIUS (MAP_WIDTH - PLAYER_RADIUS) g")
  obtain ny g2 where d2: "randomBetween PLAYER_RADIUS (MAP_HEIGHT - PLAYER_RADIUS) g1 = (ny, g2)"
    by (cases "randomBetween PLAYER_RADIUS (MAP_HEIGHT - PLAYER_RADIUS) g1")
  have b1: "16 \<le> nx \<and> nx \<le> 10000 - 16 \<and> used g1 = Suc (used g)"
    using random_coordinate[of 16 g nx g1] d1 by simp
  have b2: "16 \<le> ny \<and> ny \<le> 10000 - 16 \<and> used g2 = Suc (used g1)"
    using random_coordinate[of 16 g1 ny g2] d2 by simp
  let ?crowded = "list_ex (\<lambda>enemy. tooClose (enemy_x enemy) (enemy_y enemy) nx ny
                       (PLAYER_RADIUS + ENEMY_RADIUS + 60)) es"
  show ?case
  proof (cases "\<not> ?crowded \<and> \<not> isCircleBlockedByBuildings nx ny PLAYER_RADIUS")
    case True
    then have "res = Some (nx, ny)" "g' = g2"
      using Suc.prems d1 d2 by auto
    then show ?thesis using b1 b2 True by (simp add: inBounds_def)
  next
    case False
    then have "spawnPlayerAnywhere n es g2 = (res, g')"
      using Suc.prems d1 d2 by auto
    from Suc.IH[OF this] show ?thesis using b1 b2 by simp
  qed
qed

lemma random_street:
  assumes "randomBetween 0 (real (length (streets cityLayout)) - 1) g = (k, g1)"
  shows "streets cityLayout ! nat \<lfloor>k\<rfloor> \<in> set (streets cityLayout) \<and> used g1 = Suc (used g)"
proof -
  have "0 \<le> k \<and> k \<le> 17 \<and> k \<in> \<int>"
    using randomBetween_range[of 0 17 g] assms by (simp add: streets_length)
  then have "nat \<lfloor>k\<rfloor> < 18" by (simp add: floor_less_iff nat_less_iff) 
  then show ?thesis
    using randomBetween_used[of 0 "real (length (streets cityLayout)) - 1" g] assms
    by (simp add: streets_length)
qed

lemma spawnPlayerOnStreet_props:
  "spawnPlayerOnStreet n g = (res, g') \<Longrightarrow>
     used g' \<le> used g + 3 * n
     \<and> (\<forall>x y. res = Some (x, y) \<longrightarrow> inBounds PLAYER_RADIUS x y
            \<and> \<not> isCircleBlockedByBuildings x y PLAYER_RADIUS)"
proof (induction n arbitrary: g)
  case 0
  then show ?case by simp
next
  case (Suc n)
  obtain k g1 where d0: "randomBetween 0 (real (length (streets cityLayout)) - 1) g = (k, g1)"
    by (cases "randomBetween 0 (real (length (streets cityLayout)) - 1) g")
  define street where "street = streets cityLayout ! nat \<lfloor>k\<rfloor>"
  have st: "street \<in> set (streets cityLayout)" and u1: "used g1 = Suc (used g)"
    using random_street[OF d0] by (simp_all add: street_def)
  note sb = streets_bounds[OF st]
  define minX maxX minY maxY :: real where
    "minX = of_int \<lceil>rect_x street + PLAYER_RADIUS\<rceil>"
    and "maxX = of_int \<lfloor>rect_x street + rect_width street - PLAYER_RADIUS\<rfloor>"
    and "minY = of_int \<lceil>rect_y street + PLAYER_RADIUS\<rceil>"
    and "maxY = of_int \<lfloor>rect_y street + rect_height street - PLAYER_RADIUS\<rfloor>"
  have lo: "16 \<le> minX" "16 \<le> minY"
    using sb unfolding minX_def minY_def by (simp_all add: le_of_int_ceiling order_trans[OF _ le_of_int_ceiling])
  have hi: "maxX \<le> 10000 - 16" "maxY \<le> 10000 - 16"
    using sb unfolding maxX_def maxY_def by (simp_all add: order_trans[OF of_int_floor_le])
  have step: "spawnPlayerOnStreet (Suc n) g =
      (if minX > maxX \<or> minY > maxY then spawnPlayerOnStreet n g1
       else (let (x, g2) = randomBetween minX maxX g1;
                 (y, g3) = randomBetween minY maxY g2
             in if \<not> isCircleBlockedByBuildings x y PLAYER_RADIUS then (Some (x, y), g3)
                else spawnPlayerOnStreet n g3))"
    by (simp only: spawnPlayerOnStreet.simps d0 Let_def prod.case street_def minX_def maxX_def
          minY_def maxY_def)
  show ?case
  proof (cases "minX > maxX \<or> minY > maxY")
    case True
    then have "spawnPlayerOnStreet n g1 = (res, g')"
      using Suc.prems step by simp
    from Suc.IH[OF this] show ?thesis using u1 by simp
  next
    case False
    obtain x g2 where d1: "randomBetween minX maxX g1 = (x, g2)"
      by (cases "randomBetween minX maxX g1")
    obtain y g3 where d2: "randomBetween minY maxY g2 = (y, g3)"
      by (cases "randomBetween minY maxY g2")
    have ints: "minX \<in> \<int>" "maxX \<in> \<int>" "minY \<in> \<int>" "maxY \<in> \<int>"
      by (simp_all add: minX_def maxX_def minY_def maxY_def)
    have bx: "minX \<le> x \<and> x \<le> maxX" and u2: "used g2 = Suc (used g1)"
      using randomBetween_range[of minX maxX g1] randomBetween_used[of minX maxX g1] d1 False ints
      by simp_all
    have byy: "minY \<le> y \<and> y \<le> maxY" and u3: "used g3 = Suc (used g2)"
      using randomBetween_range[of minY maxY g2] randomBetween_used[of minY maxY g2] d2 False ints
      by simp_all
    show ?thesis
    proof (cases "isCircleBlockedByBuildings x y PLAYER_RADIUS")
      case B: False
      then have "res = Some (x, y)" "g' = g3"
        using Suc.prems step d1 d2 False by simp_all
      then show ?thesis using bx byy lo hi B u1 u2 u3 by (simp add: inBounds_def)
    next
      case B: True
      then have "spawnPlayerOnStreet n g3 = (res, g')"
        using Suc.prems step d1 d2 False by simp
      from Suc.IH[OF this] show ?thesis using u1 u2 u3 by simp
    qed
  qed
qed

lemma spawnPlayerPosition_props:
  assumes "spawnPlayerPosition es g = ((x, y), g')"
  shows "inBounds PLAYER_RADIUS x y \<and> \<not> isCircleBlockedByBuildings x y PLAYER_RADIUS
         \<and> used g' \<le> used g + 256"
proof -
  obtain r1 g1 where p: "spawnPlayerAnywhere 32 es g = (r1, g1)"
    by (cases "spawnPlayerAnywhere 32 es g")
  obtain r2 g2 where f: "spawnPlayerOnStreet 64 g1 = (r2, g2)"
    by (cases "spawnPlayerOnStreet 64 g1")
  note P = spawnPlayerAnywhere_props[OF p] and F = spawnPlayerOnStreet_props[OF f]
  have corner: "\<not> isCircleBlockedByBuildings PLAYER_RADIUS PLAYER_RADIUS PLAYER_RADIUS"
    by (rule unblocked_near_border) simp_all
  show ?thesis
  proof (cases r1)
    case (Some s1)
    then show ?thesis using assms p P by (auto simp: spawnPlayerPosition_def)
  next
    case None
    show ?thesis
    proof (cases r2)
      case (Some s2)
      then show ?thesis using assms p f P F None by (auto simp: spawnPlayerPosition_def)
    next
      case N2: None
      then show ?thesis using assms p f P F None corner
        by (auto simp: spawnPlayerPosition_def inBounds_def)
    qed
  qed
qed

section \<open>Placement of enemies\<close>

lemma clamp_between: "lo \<le> hi \<Longrightarrow> lo \<le> clamp v lo hi \<and> clamp v lo hi \<le> hi"
  by (simp add: clamp_def)

lemma closestStreetStep_inBounds:
  assumes "street \<in> set (streets cityLayout)"
    "inBounds ENEMY_RADIUS (fst (fst acc)) (snd (fst acc))"
  shows "inBounds ENEMY_RADIUS (fst (fst (closestStreetStep hx hy acc street)))
           (snd (fst (closestStreetStep hx hy acc street)))"
proof -
  note sb = streets_bounds[OF assms(1)]
  have px: "rect_x street + 20 \<le> clamp hx (rect_x street + 20) (rect_x street + rect_width street - 20)
       \<and> clamp hx (rect_x street + 20) (rect_x street + rect_width street - 20)
           \<le> rect_x street + rect_width street - 20"
    using sb by (intro clamp_between) simp
  have py: "rect_y street + 20 \<le> clamp hy (rect_y street + 20) (rect_y street + rect_height street - 20)
       \<and> clamp hy (rect_y street + 20) (rect_y street + rect_height street - 20)
           \<le> rect_y street + rect_height street - 20"
    using sb by (intro clamp_between) simp
  show ?thesis
    using assms(2) px py sb
    by (auto simp: closestStreetStep_def Let_def inBounds_def)
qed

lemma closestStreet_fold_inBounds:
  assumes "set ss \<subseteq> set (streets cityLayout)"
    "inBounds ENEMY_RADIUS (fst (fst acc)) (snd (fst acc))"
  shows "inBounds ENEMY_RADIUS (fst (fst (foldl (closestStreetStep hx hy) acc ss)))
           (snd (fst (foldl (closestStreetStep hx hy) acc ss)))"
  using assms
proof (induction ss arbitrary: acc)
  case Nil
  then show ?case by simp
next
  case (Cons s ss)
  have "inBounds ENEMY_RADIUS (fst (fst (closestStreetStep hx hy acc s)))
           (snd (fst (closestStreetStep hx hy acc s)))"
    using Cons.prems by (intro closestStreetStep_inBounds) auto
  then show ?case using Cons by simp
qed

lemma getEnemyHome_props:
  assumes "getEnemyHome index g = (home, g')"
  shows "inBounds ENEMY_RADIUS (home_x home) (home_y home) \<and> used g' = used g + 2"
proof -
  define jxr :: real where "jxr = max 20 (of_int \<lfloor>MAP_WIDTH / real (nat \<lceil>sqrt (real ENEMY_COUNT)\<rceil>) * 0.2\<rfloor>)"
  define jyr :: real where "jyr = max 20 (of_int \<lfloor>MAP_HEIGHT / real (nat \<lceil>real ENEMY_COUNT / real (nat \<lceil>sqrt (real ENEMY_COUNT)\<rceil>)\<rceil>) * 0.2\<rfloor>)"
  obtain jx g1 where d1: "randomBetween (- jxr) jxr g = (jx, g1)" by (cases "randomBetween (- jxr) jxr g")
  obtain jy g2 where d2: "randomBetween (- jyr) jyr g1 = (jy, g2)" by (cases "randomBetween (- jyr) jyr g1")
  define hx where "hx = clamp (Math_round ((real (index mod nat \<lceil>sqrt (real ENEMY_COUNT)\<rceil>) + 0.5) * (MAP_WIDTH / real (nat \<lceil>sqrt (real ENEMY_COUNT)\<rceil>)) + jx))
                 ENEMY_RADIUS (MAP_WIDTH - ENEMY_RADIUS)"
  define hy where "hy = clamp (Math_round ((real (nat \<lfloor>real index / real (nat \<lceil>sqrt (real ENEMY_COUNT)\<rceil>)\<rfloor>) + 0.5) * (MAP_HEIGHT / real (nat \<lceil>real ENEMY_COUNT / real (nat \<lceil>sqrt (real ENEMY_COUNT)\<rceil>)\<rceil>)) + jy))
                 ENEMY_RADIUS (MAP_HEIGHT - ENEMY_RADIUS)"
  define radius :: real where "radius = max 900 (of_int \<lfloor>min (MAP_WIDTH / real (nat \<lceil>sqrt (real ENEMY_COUNT)\<rceil>)) (MAP_HEIGHT / real (nat \<lceil>real ENEMY_COUNT / real (nat \<lceil>sqrt (real ENEMY_COUNT)\<rceil>)\<rceil>)) * 0.8\<rfloor>)"
  have step: "getEnemyHome index g =
     (let snapped = resolveBlockedMovement hx hy hx hy ENEMY_RADIUS
      in if \<not> isCircleBlockedByBuildings (res_x snapped) (res_y snapped) ENEMY_RADIUS
         then (\<lparr>home_x = res_x snapped, home_y = res_y snapped,
                 home_territoryRadius = radius\<rparr>, g2)
         else (let closestStreetPoint =
                     fst (foldl (closestStreetStep hx hy) ((hx, hy), None) (streets cityLayout))
               in (\<lparr>home_x = fst closestStreetPoint, home_y = snd closestStreetPoint,
                     home_territoryRadius = radius\<rparr>, g2)))"
    unfolding getEnemyHome_def Let_def
    by (simp only: jxr_def[symmetric] jyr_def[symmetric] d1 d2 prod.case hx_def[symmetric]
          hy_def[symmetric] radius_def[symmetric])
  have hb: "inBounds ENEMY_RADIUS hx hy"
    by (simp add: hx_def hy_def inBounds_def clamp_def)
  have u: "used g2 = used g + 2"
    using randomBetween_used[of "- jxr" jxr g] randomBetween_used[of "- jyr" jyr g1] d1 d2 by simp
  have r: "inBounds ENEMY_RADIUS (res_x (resolveBlockedMovement hx hy hx hy ENEMY_RADIUS))
             (res_y (resolveBlockedMovement hx hy hx hy ENEMY_RADIUS))"
    using hb by (intro resolveBlockedMovement_inBounds) auto
  have c: "inBounds ENEMY_RADIUS
             (fst (fst (foldl (closestStreetStep hx hy) ((hx, hy), None) (streets cityLayout))))
             (snd (fst (foldl (closestStreetStep hx hy) ((hx, hy), None) (streets cityLayout))))"
    using hb by (intro closestStreet_fold_inBounds) auto
  show ?thesis
    using assms r c u unfolding step Let_def by (auto split: if_splits)
qed

lemma spawnEnemyNearHome_props:
  "spawnEnemyNearHome n home existing g = (res, g') \<Longrightarrow>
     used g' \<le> used g + n
     \<and> (\<forall>spot. res = Some spot \<longrightarrow> inBounds ENEMY_RADIUS (enemy_x spot) (enemy_y spot)
            \<and> \<not> isCircleBlockedByBuildings (enemy_x spot) (enemy_y spot) ENEMY_RADIUS
            \<and> homeX spot = home_x home \<and> homeY spot = home_y home)"
proof (induction n arbitrary: g)
  case 0
  then show ?case by simp
next
  case (Suc n)
  define i where "i = 16 - Suc n"
  obtain d g1 where d0: "(if i = 0 then (0, g)
             else randomBetween 0 (of_int \<lfloor>home_territoryRadius home * 0.4\<rfloor>) g) = (d, g1)"
    by (cases "(if i = 0 then (0, g)
             else randomBetween 0 (of_int \<lfloor>home_territoryRadius home * 0.4\<rfloor>) g)")
  have u1: "used g1 \<le> Suc (used g)"
    using d0 randomBetween_used[of 0 "of_int \<lfloor>home_territoryRadius home * 0.4\<rfloor>" g]
    by (auto split: if_splits)
  define x where "x = clamp (Math_round (home_x home + cos ((pi * 2 * real i) / 16) * d))
                ENEMY_RADIUS (MAP_WIDTH - ENEMY_RADIUS)"
  define y where "y = clamp (Math_round (home_y home + sin ((pi * 2 * real i) / 16) * d))
                ENEMY_RADIUS (MAP_HEIGHT - ENEMY_RADIUS)"
  have step: "spawnEnemyNearHome (Suc n) home existing g =
     (if \<not> enemyCrowded existing x y \<and> \<not> isCircleBlockedByBuildings x y ENEMY_RADIUS
         then (let (spot, g2) = newEnemy home x y g1 in (Some spot, g2))
         else spawnEnemyNearHome n home existing g1)"
    by (simp only: spawnEnemyNearHome.simps Let_def i_def[symmetric] d0 prod.case
          x_def[symmetric] y_def[symmetric])
  have xb: "inBounds ENEMY_RADIUS x y"
    by (simp add: x_def y_def inBounds_def clamp_def)
  show ?case
  proof (cases "\<not> enemyCrowded existing x y \<and> \<not> isCircleBlockedByBuildings x y ENEMY_RADIUS")
    case True
    obtain spot g2 where ne: "newEnemy home x y g1 = (spot, g2)" by (cases "newEnemy home x y g1")
    then have "res = Some spot" "g' = g2" using Suc.prems[unfolded step] True by simp_all
    then show ?thesis using newEnemy_props[OF ne] xb True u1 by simp
  next
    case False
    then have "spawnEnemyNearHome n home existing g1 = (res, g')"
      using Suc.prems[unfolded step] by (auto split: if_splits)
    from Suc.IH[OF this] show ?thesis using u1 by simp
  qed
qed

lemma ceiling_le_floor:
  fixes a b :: real
  assumes "a + 1 \<le> b"
  shows "(of_int \<lceil>a\<rceil> :: real) \<le> of_int \<lfloor>b\<rfloor>"
proof -
  have "of_int \<lceil>a\<rceil> < a + 1" by linarith
  then have "of_int \<lceil>a\<rceil> \<le> b" using assms by linarith
  then have "\<lceil>a\<rceil> \<le> \<lfloor>b\<rfloor>" by (simp add: le_floor_iff)
  then show ?thesis by (simp only: of_int_le_iff)
qed

lemma spawnEnemyOnStreet_props:
  "spawnEnemyOnStreet n home existing g = (res, g') \<Longrightarrow>
     used g' \<le> used g + 3 * n
     \<and> (\<forall>spot. res = Some spot \<longrightarrow> inBounds ENEMY_RADIUS (enemy_x spot) (enemy_y spot)
            \<and> \<not> isCircleBlockedByBuildings (enemy_x spot) (enemy_y spot) ENEMY_RADIUS
            \<and> homeX spot = home_x home \<and> homeY spot = home_y home)"
proof (induction n arbitrary: g)
  case 0
  then show ?case by simp
next
  case (Suc n)
  obtain k g1 where d0: "randomBetween 0 (real (length (streets cityLayout)) - 1) g = (k, g1)"
    by (cases "randomBetween 0 (real (length (streets cityLayout)) - 1) g")
  define street where "street = streets cityLayout ! nat \<lfloor>k\<rfloor>"
  have st: "street \<in> set (streets cityLayout)" and u1: "used g1 = Suc (used g)"
    using random_street[OF d0] by (simp_all add: street_def)
  note sb = streets_bounds[OF st]
  define minX maxX minY maxY :: real where
    "minX = of_int \<lceil>rect_x street + ENEMY_RADIUS\<rceil>"
    and "maxX = of_int \<lfloor>rect_x street + rect_width street - ENEMY_RADIUS\<rfloor>"
    and "minY = of_int \<lceil>rect_y street + ENEMY_RADIUS\<rceil>"
    and "maxY = of_int \<lfloor>rect_y street + rect_height street - ENEMY_RADIUS\<rfloor>"
  have lo: "20 \<le> minX" "20 \<le> minY"
    using sb unfolding minX_def minY_def by (simp_all add: order_trans[OF _ le_of_int_ceiling])
  have hi: "maxX \<le> 10000 - 20" "maxY \<le> 10000 - 20"
    using sb unfolding maxX_def maxY_def by (simp_all add: order_trans[OF of_int_floor_le])
  have ord: "minX \<le> maxX" "minY \<le> maxY"
    unfolding minX_def maxX_def minY_def maxY_def
    by (rule ceiling_le_floor, use sb in linarith)+
  have ints: "minX \<in> \<int>" "maxX \<in> \<int>" "minY \<in> \<int>" "maxY \<in> \<int>"
    by (simp_all add: minX_def maxX_def minY_def maxY_def)
  obtain x g2 where d1: "randomBetween minX maxX g1 = (x, g2)"
    by (cases "randomBetween minX maxX g1")
  obtain y g3 where d2: "randomBetween minY maxY g2 = (y, g3)"
    by (cases "randomBetween minY maxY g2")
  have step: "spawnEnemyOnStreet (Suc n) home existing g =
      (if \<not> enemyCrowded existing x y \<and> \<not> isCircleBlockedByBuildings x y ENEMY_RADIUS
         then (let (spot, g4) = newEnemy home x y g3 in (Some spot, g4))
         else spawnEnemyOnStreet n home existing g3)"
    by (simp only: spawnEnemyOnStreet.simps d0 Let_def prod.case street_def[symmetric]
          minX_def[symmetric] maxX_def[symmetric] minY_def[symmetric] maxY_def[symmetric] d1 d2)
  have bx: "minX \<le> x \<and> x \<le> maxX" and u2: "used g2 = Suc (used g1)"
    using randomBetween_range[of minX maxX g1] randomBetween_used[of minX maxX g1] d1 ord ints
    by simp_all
  have byy: "minY \<le> y \<and> y \<le> maxY" and u3: "used g3 = Suc (used g2)"
    using randomBetween_range[of minY maxY g2] randomBetween_used[of minY maxY g2] d2 ord ints
    by simp_all
  show ?case
  proof (cases "\<not> enemyCrowded existing x y \<and> \<not> isCircleBlockedByBuildings x y ENEMY_RADIUS")
    case True
    obtain spot g4 where ne: "newEnemy home x y g3 = (spot, g4)" by (cases "newEnemy home x y g3")
    then have "res = Some spot" "g' = g4" using Suc.prems[unfolded step] True by simp_all
    then show ?thesis using newEnemy_props[OF ne] bx byy lo hi True u1 u2 u3
      by (simp add: inBounds_def)
  next
    case False
    then have "spawnEnemyOnStreet n home existing g3 = (res, g')"
      using Suc.prems[unfolded step] by (auto split: if_splits)
    from Suc.IH[OF this] show ?thesis using u1 u2 u3 by simp
  qed
qed

lemma spawnEnemy_props:
  assumes "spawnEnemy existing enemyIndex g = (spot, g')"
  shows "inBounds ENEMY_RADIUS (enemy_x spot) (enemy_y spot)
         \<and> inBounds ENEMY_RADIUS (homeX spot) (homeY spot)
         \<and> used g' \<le> used g + 114"
proof -
  obtain home g0 where h: "getEnemyHome enemyIndex g = (home, g0)"
    by (cases "getEnemyHome enemyIndex g")
  obtain r1 g1 where p: "spawnEnemyNearHome 16 home existing g0 = (r1, g1)"
    by (cases "spawnEnemyNearHome 16 home existing g0")
  obtain r2 g2 where f: "spawnEnemyOnStreet 32 home existing g1 = (r2, g2)"
    by (cases "spawnEnemyOnStreet 32 home existing g1")
  note H = getEnemyHome_props[OF h] and P = spawnEnemyNearHome_props[OF p]
    and F = spawnEnemyOnStreet_props[OF f]
  have start: "spawnEnemy existing enemyIndex g =
      (case r1 of Some s1 \<Rightarrow> (s1, g1)
       | None \<Rightarrow> (case r2 of Some s2 \<Rightarrow> (s2, g2)
                   | None \<Rightarrow> newEnemy home (home_x home) (home_y home) g2))"
    by (simp add: spawnEnemy_def h p f split: option.splits)
  show ?thesis
  proof (cases r1)
    case (Some s1)
    then show ?thesis using assms start H P by simp
  next
    case None
    show ?thesis
    proof (cases r2)
      case (Some s2)
      then show ?thesis using assms start None H P F by simp
    next
      case N2: None
      then have "newEnemy home (home_x home) (home_y home) g2 = (spot, g')"
        using assms start None by simp
      from newEnemy_props[OF this] show ?thesis using H P F None N2 by simp
    qed
  qed
qed

section \<open>Placement always ends within bounds\<close>

text \<open>
  Claim C9. Each placement routine is a total function: its loops are the primitive
  recursions above over fixed retry budgets (32 and 32 attempts for grass and powerups,
  16 and 32 for enemies, 32 and 64 for players), followed by a fixed last-resort point.
  For every state, every list of existing items, every skipped index and every random
  supply, the routine returns a position within \<open>[radius, bound - radius]\<close> on both axes,
  having consumed a bounded number of random draws.
\<close>

theorem placement_terminates_in_bounds:
  "(case spawnGrass w grassExisting grassSkip g of
      (spot, g') \<Rightarrow> inBounds GRASS_RADIUS (grass_x spot) (grass_y spot)
                    \<and> used g' \<le> used g + 128)
   \<and> (case spawnPowerup w powerupExisting powerupSkip g of
      (spot, g') \<Rightarrow> inBounds POWERUP_RADIUS (powerup_x spot) (powerup_y spot)
                    \<and> used g' \<le> used g + 129)
   \<and> (case spawnEnemy enemyExisting enemyIndex g of
      (spot, g') \<Rightarrow> inBounds ENEMY_RADIUS (enemy_x spot) (enemy_y spot)
                    \<and> used g' \<le> used g + 114)
   \<and> (case spawnPlayerPosition es g of
      ((x, y), g') \<Rightarrow> inBounds PLAYER_RADIUS x y \<and> used g' \<le> used g + 256)"
proof -
  have 1: "case spawnGrass w grassExisting grassSkip g of
      (spot, g') \<Rightarrow> inBounds GRASS_RADIUS (grass_x spot) (grass_y spot)
                    \<and> used g' \<le> used g + 128"
    using spawnGrass_props by (cases "spawnGrass w grassExisting grassSkip g") auto
  have 2: "case spawnPowerup w powerupExisting powerupSkip g of
      (spot, g') \<Rightarrow> inBounds POWERUP_RADIUS (powerup_x spot) (powerup_y spot)
                    \<and> used g' \<le> used g + 129"
    using spawnPowerup_props by (cases "spawnPowerup w powerupExisting powerupSkip g") auto
  have 3: "case spawnEnemy enemyExisting enemyIndex g of
      (spot, g') \<Rightarrow> inBounds ENEMY_RADIUS (enemy_x spot) (enemy_y spot)
                    \<and> used g' \<le> used g + 114"
    using spawnEnemy_props by (cases "spawnEnemy enemyExisting enemyIndex g") auto
  have 4: "case spawnPlayerPosition es g of
      ((x, y), g') \<Rightarrow> inBounds PLAYER_RADIUS x y \<and> used g' \<le> used g + 256"
    using spawnPlayerPosition_props by (cases "spawnPlayerPosition es g") auto
  show ?thesis using 1 2 3 4 by blast
qed

text \<open>
  At \<open>sampleWorld\<close> with a random supply of zeros: grass lands on \<open>(14, 14)\<close> and a player
  on \<open>(16, 16)\<close>, each after two draws.
\<close>

theorem placement_terminates_in_bounds_witness:
  "spawnGrass sampleWorld [] None sampleEntropy
     = (\<lparr>grass_x = 14, grass_y = 14\<rparr>, sampleEntropy\<lparr>used := 2\<rparr>)
   \<and> inBounds GRASS_RADIUS 14 14
   \<and> spawnPlayerPosition [] sampleEntropy = ((16, 16), sampleEntropy\<lparr>used := 2\<rparr>)
   \<and> inBounds PLAYER_RADIUS 16 16"
proof -
  have g: "spawnGrass sampleWorld [] None sampleEntropy
     = (\<lparr>grass_x = 14, grass_y = 14\<rparr>, sampleEntropy\<lparr>used := 2\<rparr>)"
    by (simp add: spawnGrass_def numeral_eq_Suc randomBetween_def Math_random_def
          sampleEntropy_def grassCandidateFree_def sampleWorld_def samplePlayer_def
          samplePlayer2_def tooClose_def unblocked_near_border)
  have p: "spawnPlayerPosition [] sampleEntropy = ((16, 16), sampleEntropy\<lparr>used := 2\<rparr>)"
    by (simp add: spawnPlayerPosition_def numeral_eq_Suc randomBetween_def Math_random_def
          sampleEntropy_def unblocked_near_border)
  show ?thesis
    using placement_terminates_in_bounds
            [where w = sampleWorld and g = sampleEntropy and grassExisting = "[]"
               and grassSkip = None and powerupExisting = "[]" and powerupSkip = None
               and enemyExisting = "[]" and enemyIndex = 0 and es = "[]"] g p
    by simp
qed

section \<open>The enemy tick: what it may change\<close>

lemma playerMoved_refl: "playerMoved p p"
  by (simp add: playerMoved_def)

lemma playerMoved_trans: "playerMoved p q \<Longrightarrow> playerMoved q r \<Longrightarrow> playerMoved p r"
  unfolding playerMoved_def by (metis ServerPlayer.surjective ServerPlayer.update_convs(5,6) ServerPlayer.select_convs)

lemma playerMoved_fields:
  "playerMoved p q \<Longrightarrow> connectionId q = connectionId p \<and> userId q = userId p
     \<and> score q = score p \<and> player_color q = player_color p \<and> player_name q = player_name p
     \<and> speedUntil q = speedUntil p \<and> magnetUntil q = magnetUntil p \<and> doubleUntil q = doubleUntil p"
  unfolding playerMoved_def by (metis ServerPlayer.select_convs ServerPlayer.surjective ServerPlayer.update_convs(5,6))

lemma enemyMoved_refl: "enemyMoved e e"
  by (simp add: enemyMoved_def)

lemma enemyMoved_trans: "enemyMoved p q \<Longrightarrow> enemyMoved q r \<Longrightarrow> enemyMoved p r"
  unfolding enemyMoved_def by (metis EnemySpot.surjective EnemySpot.update_convs(2,3) EnemySpot.select_convs)

lemma respawnPlayer_props:
  assumes "respawnPlayer es p g = (p', g')"
  shows "playerMoved p p' \<and> playerPlaced p' \<and> used g' \<le> used g + 256"
proof -
  obtain x y g1 where s: "spawnPlayerPosition es g = ((x, y), g1)"
    by (cases "spawnPlayerPosition es g") auto
  then have "p' = p\<lparr>player_x := x, player_y := y\<rparr>" "g' = g1"
    using assms by (simp_all add: respawnPlayer_def)
  then show ?thesis using spawnPlayerPosition_props[OF s]
    by (simp add: playerMoved_def playerPlaced_def)
qed

lemma hitPlayers_frame:
  "hitPlayers enemy es ps (h, c, g) = (ps', h', c', g') \<Longrightarrow>
     list_all2 (\<lambda>p p'. playerMoved p p'
                  \<and> (if isHit enemy p then playerPlaced p' \<and> userId p \<in> set h' else p' = p))
        ps ps'
     \<and> set h \<subseteq> set h' \<and> set h' \<subseteq> set h \<union> userId ` set ps
     \<and> (distinct h \<longrightarrow> distinct h') \<and> (c \<longrightarrow> c') \<and> (h' \<noteq> [] \<and> h = [] \<longrightarrow> c')"
proof (induction ps arbitrary: h c g ps' h' c' g')
  case Nil
  then show ?case by simp
next
  case (Cons p ps)
  show ?case
  proof (cases "isHit enemy p")
    case True
    define h1 where "h1 = (if userId p \<notin> set h then h @ [userId p] else h)"
    obtain p1 g1 where r: "respawnPlayer es p g = (p1, g1)" by (cases "respawnPlayer es p g")
    obtain rest' h2 c2 g2 where rec: "hitPlayers enemy es ps (h1, True, g1) = (rest', h2, c2, g2)"
      by (cases "hitPlayers enemy es ps (h1, True, g1)") auto
    have eq: "ps' = p1 # rest'" "h' = h2" "c' = c2" "g' = g2"
      using Cons.prems True r rec by (simp_all add: h1_def)
    note IH = Cons.IH[OF rec]
    have h1: "set h \<subseteq> set h1" "userId p \<in> set h1" "set h1 \<subseteq> set h \<union> {userId p}"
      "distinct h \<longrightarrow> distinct h1"
      by (auto simp: h1_def)
    have "list_all2 (\<lambda>p p'. playerMoved p p'
                  \<and> (if isHit enemy p then playerPlaced p' \<and> userId p \<in> set h' else p' = p))
        (p # ps) ps'"
      using IH respawnPlayer_props[OF r] True h1 unfolding eq by auto
    moreover have "set h \<subseteq> set h'" "set h' \<subseteq> set h \<union> userId ` set (p # ps)"
      "distinct h \<longrightarrow> distinct h'" "c \<longrightarrow> c'" "h' \<noteq> [] \<and> h = [] \<longrightarrow> c'"
      using IH h1 unfolding eq by auto
    ultimately show ?thesis by blast
  next
    case False
    obtain rest' h2 c2 g2 where rec: "hitPlayers enemy es ps (h, c, g) = (rest', h2, c2, g2)"
      by (cases "hitPlayers enemy es ps (h, c, g)") auto
    have eq: "ps' = p # rest'" "h' = h2" "c' = c2" "g' = g2"
      using Cons.prems False rec by simp_all
    note IH = Cons.IH[OF rec]
    show ?thesis using IH False unfolding eq by (auto simp: playerMoved_refl)
  qed
qed

lemma movePointToward_placed:
  assumes "inBounds ENEMY_RADIUS cx cy" "\<not> isCircleBlockedByBuildings cx cy ENEMY_RADIUS"
  shows "inBounds ENEMY_RADIUS (mv_x (movePointToward cx cy tx ty s)) (mv_y (movePointToward cx cy tx ty s))
         \<and> \<not> isCircleBlockedByBuildings (mv_x (movePointToward cx cy tx ty s))
               (mv_y (movePointToward cx cy tx ty s)) ENEMY_RADIUS"
proof (cases "(tx - cx) * (tx - cx) + (ty - cy) * (ty - cy) \<le> 0.0001")
  case True
  then show ?thesis using assms by (simp add: movePointToward_def Let_def)
next
  case False
  define ax where "ax = cx + ((tx - cx) / sqrt ((tx - cx) * (tx - cx) + (ty - cy) * (ty - cy)))
      * min s (sqrt ((tx - cx) * (tx - cx) + (ty - cy) * (ty - cy)))"
  define ay where "ay = cy + ((ty - cy) / sqrt ((tx - cx) * (tx - cx) + (ty - cy) * (ty - cy)))
      * min s (sqrt ((tx - cx) * (tx - cx) + (ty - cy) * (ty - cy)))"
  have m: "mv_x (movePointToward cx cy tx ty s) = res_x (resolveBlockedMovement cx cy ax ay ENEMY_RADIUS)"
    "mv_y (movePointToward cx cy tx ty s) = res_y (resolveBlockedMovement cx cy ax ay ENEMY_RADIUS)"
    using False by (simp_all add: movePointToward_def Let_def ax_def ay_def)
  show ?thesis
    unfolding m
    using resolveBlockedMovement_inBounds[OF assms(1), of ax ay]
      resolveBlockedMovement_unblocked[OF assms(2), of ax ay] by simp
qed

lemma stepEnemy_props:
  assumes "stepEnemy e ps = (e', moved)"
  shows "enemyMoved e e' \<and> (enemyPlaced e \<longrightarrow> enemyPlaced e')"
proof -
  let ?m = "movePointToward (enemy_x e) (enemy_y e) (targetX (choosePursuit e ps))
              (targetY (choosePursuit e ps)) (speed (choosePursuit e ps))"
  have e': "e' = (if mv_moved ?m then e\<lparr>enemy_x := mv_x ?m, enemy_y := mv_y ?m\<rparr> else e)"
    using assms by (auto simp: stepEnemy_def Let_def split: if_splits)
  have mv: "enemyMoved e e'" unfolding e' by (simp add: enemyMoved_def)
  have pl: "enemyPlaced e'" if "enemyPlaced e"
    using movePointToward_placed[of "enemy_x e" "enemy_y e"] that
    unfolding e' by (simp add: enemyPlaced_def)
  show ?thesis using mv pl by blast
qed

lemma playersFrame_refl: "playersFrame ps ps"
  by (simp add: playersFrame_def list_all2_same playerMoved_refl)

lemma enemiesFrame_refl: "enemiesFrame es es"
  by (simp add: enemiesFrame_def list_all2_same enemyMoved_refl)

lemma playersFrame_trans:
  assumes "playersFrame a b" "playersFrame b c"
  shows "playersFrame a c"
  unfolding playersFrame_def
proof (rule list_all2_trans[OF _ assms(1)[unfolded playersFrame_def] assms(2)[unfolded playersFrame_def]])
  fix p q r
  assume "playerMoved p q \<and> (q = p \<or> playerPlaced q)" "playerMoved q r \<and> (r = q \<or> playerPlaced r)"
  then show "playerMoved p r \<and> (r = p \<or> playerPlaced r)"
    using playerMoved_trans by blast
qed

lemma enemiesFrame_trans:
  assumes "enemiesFrame a b" "enemiesFrame b c"
  shows "enemiesFrame a c"
  unfolding enemiesFrame_def
proof (rule list_all2_trans[OF _ assms(1)[unfolded enemiesFrame_def] assms(2)[unfolded enemiesFrame_def]])
  fix p q r
  assume "enemyMoved p q \<and> (enemyPlaced p \<longrightarrow> enemyPlaced q)"
    "enemyMoved q r \<and> (enemyPlaced q \<longrightarrow> enemyPlaced r)"
  then show "enemyMoved p r \<and> (enemyPlaced p \<longrightarrow> enemyPlaced r)"
    using enemyMoved_trans by blast
qed

lemma playersFrame_userIds:
  assumes "playersFrame ps ps'"
  shows "map userId ps' = map userId ps \<and> map connectionId ps' = map connectionId ps
         \<and> map score ps' = map score ps \<and> length ps' = length ps"
  using assms unfolding playersFrame_def
  by (induction rule: list_all2_induct) (auto dest: playerMoved_fields)

lemma tickFrame_refl: "tickFrame st st"
  by (simp add: tickFrame_def playersFrame_refl enemiesFrame_refl)

lemma tickFrame_trans:
  assumes "tickFrame a b" "tickFrame b c"
  shows "tickFrame a c"
proof -
  note A = assms(1)[unfolded tickFrame_def] and B = assms(2)[unfolded tickFrame_def]
  have P: "playersFrame (players (fst a)) (players (fst c))"
    using A B playersFrame_trans by blast
  have E: "enemiesFrame (enemies (fst a)) (enemies (fst c))"
    using A B enemiesFrame_trans by blast
  have "map userId (players (fst b)) = map userId (players (fst a))"
    using A playersFrame_userIds by blast
  then have U: "userId ` set (players (fst b)) = userId ` set (players (fst a))"
    by (metis set_map)
  have H1: "set (fst (snd a)) \<subseteq> set (fst (snd c))" using A B by blast
  have H2: "set (fst (snd c)) \<subseteq> set (fst (snd a)) \<union> userId ` set (players (fst a))"
    using A B U by blast
  have H3: "distinct (fst (snd a)) \<longrightarrow> distinct (fst (snd c))" using A B by blast
  have H4: "snd (snd a) \<longrightarrow> snd (snd c)" using A B by blast
  have R: "userScores (fst c) = userScores (fst a)" "userColors (fst c) = userColors (fst a)"
    "pendingJoinTimers (fst c) = pendingJoinTimers (fst a)"
    "powerups (fst c) = powerups (fst a)" "grasses (fst c) = grasses (fst a)"
    using A B by simp_all
  show ?thesis unfolding tickFrame_def using P E H1 H2 H3 H4 R by blast
qed

lemma enemyTurn_frame:
  assumes "i < length (enemies w)"
  shows "tickFrame (w, h, c) (enemyTurn (w, h, c) i)"
proof -
  obtain e' moved where s: "stepEnemy (enemies w ! i) (players w) = (e', moved)"
    by (cases "stepEnemy (enemies w ! i) (players w)")
  define es' where "es' = (enemies w)[i := e']"
  obtain ps' h' c' g' where hp:
    "hitPlayers e' es' (players w) (h, c \<or> moved, entropy w) = (ps', h', c', g')"
    by (cases "hitPlayers e' es' (players w) (h, c \<or> moved, entropy w)") auto
  have t: "enemyTurn (w, h, c) i = (w\<lparr>enemies := es', players := ps', entropy := g'\<rparr>, h', c')"
    by (simp add: enemyTurn_def s es'_def[symmetric] hp)
  note H = hitPlayers_frame[OF hp] and S = stepEnemy_props[OF s]
  have "list_all2 (\<lambda>p p'. playerMoved p p'
                  \<and> (if isHit e' p then playerPlaced p' \<and> userId p \<in> set h' else p' = p))
        (players w) ps'" using H by blast
  then have P: "playersFrame (players w) ps'"
    unfolding playersFrame_def by (rule list_all2_mono) (auto split: if_splits)
  have E: "enemiesFrame (enemies w) es'"
    unfolding es'_def enemiesFrame_def list_all2_conv_all_nth
    using S assms by (auto simp: nth_list_update enemyMoved_refl)
  show ?thesis
    unfolding t tickFrame_def using P E H by simp
qed

lemma enemyTurn_length:
  "length (enemies (fst (enemyTurn (w, h, c) i))) = length (enemies w)"
  by (auto simp: enemyTurn_def Let_def split: prod.splits)

lemma enemyTurns_frame:
  assumes "\<forall>i\<in>set is. i < length (enemies (fst st))"
  shows "tickFrame st (foldl enemyTurn st is)"
  using assms
proof (induction "is" arbitrary: st)
  case Nil
  then show ?case by (simp add: tickFrame_refl)
next
  case (Cons i "is")
  obtain w h c where st: "st = (w, h, c)" by (cases st)
  have 1: "tickFrame st (enemyTurn st i)"
    unfolding st using Cons.prems st by (intro enemyTurn_frame) simp
  have "length (enemies (fst (enemyTurn st i))) = length (enemies (fst st))"
    unfolding st by (simp add: enemyTurn_length)
  then have "tickFrame (enemyTurn st i) (foldl enemyTurn (enemyTurn st i) is)"
    using Cons.prems by (intro Cons.IH) simp
  with 1 show ?case using tickFrame_trans[of st "enemyTurn st i"] by simp
qed

lemma enemyLoop_frame: "tickFrame (w, [], False) (enemyLoop w)"
  unfolding enemyLoop_def by (rule enemyTurns_frame) simp

lemma resetAll_fold:
  "foldl (\<lambda>(w', effects) uid. let (w'', e) = resetUserScore uid w' in (w'', effects @ e))
       (w, effs) hs = (w', effs') \<Longrightarrow>
   effs' = effs @ map (\<lambda>u. PersistUserScore u 0) hs
   \<and> (\<forall>u. userScores w' u = (if u \<in> set hs then Some 0 else userScores w u))
   \<and> players w' = map (\<lambda>p. if userId p \<in> set hs then p\<lparr>score := 0\<rparr> else p) (players w)
   \<and> enemies w' = enemies w \<and> grasses w' = grasses w \<and> powerups w' = powerups w
   \<and> userColors w' = userColors w \<and> pendingJoinTimers w' = pendingJoinTimers w
   \<and> entropy w' = entropy w"
proof (induction hs arbitrary: w effs)
  case Nil
  then show ?case by simp
next
  case (Cons u hs)
  let ?f = "\<lambda>(w', effects) uid. let (w'', e) = resetUserScore uid w' in (w'', effects @ e)"
  let ?w1 = "w\<lparr>userScores := (userScores w)(u \<mapsto> 0),
               players := applyScoreToConnectedPlayers u 0 (players w)\<rparr>"
  have step: "?f (w, effs) u = (?w1, effs @ [PersistUserScore u 0])"
    by (simp add: resetUserScore_def)
  have "foldl ?f (?w1, effs @ [PersistUserScore u 0]) hs = (w', effs')"
    using Cons.prems by (simp only: foldl_Cons step)
  note IH = Cons.IH[OF this]
  have m: "map (\<lambda>p. if userId p \<in> set hs then p\<lparr>score := 0\<rparr> else p)
             (applyScoreToConnectedPlayers u 0 (players w))
           = map (\<lambda>p. if userId p \<in> set (u # hs) then p\<lparr>score := 0\<rparr> else p) (players w)"
    by (auto simp: applyScoreToConnectedPlayers_def)
  show ?case using IH m by auto
qed

lemma resetAll_props:
  assumes "resetAll hs w = (w', effs)"
  shows "effs = map (\<lambda>u. PersistUserScore u 0) hs
   \<and> (\<forall>u. userScores w' u = (if u \<in> set hs then Some 0 else userScores w u))
   \<and> players w' = map (\<lambda>p. if userId p \<in> set hs then p\<lparr>score := 0\<rparr> else p) (players w)
   \<and> enemies w' = enemies w \<and> grasses w' = grasses w \<and> powerups w' = powerups w
   \<and> userColors w' = userColors w \<and> pendingJoinTimers w' = pendingJoinTimers w
   \<and> entropy w' = entropy w"
  using resetAll_fold[of w "[]" hs w' effs] assms unfolding resetAll_def by simp

section \<open>Enemy hits\<close>

lemma sqrt_225: "sqrt 225 = 15"
  by (rule real_sqrt_unique) simp_all

lemma stepEnemy_hitWorld:
  "stepEnemy sampleEnemy (players hitWorld) = (sampleEnemy\<lparr>enemy_y := 108\<rparr>, True)"
  by (simp add: stepEnemy_def choosePursuit_def closestPlayerTo_def closestPlayerStep_def
        hitWorld_def sampleWorld_def samplePlayer_def samplePlayer2_def sampleEnemy_def
        movePointToward_def sqrt_225 resolveBlockedMovement_def tryOrder_def clamp_def
        unblocked_near_border Let_def)

lemma spawn_zero:
  "spawnPlayerPosition [sampleEnemy\<lparr>enemy_y := 108\<rparr>] (sampleEntropy\<lparr>used := n\<rparr>)
     = ((16, 16), sampleEntropy\<lparr>used := Suc (Suc n)\<rparr>)"
  by (simp add: spawnPlayerPosition_def numeral_eq_Suc randomBetween_def Math_random_def
        sampleEntropy_def sampleEnemy_def tooClose_def unblocked_near_border)

lemma enemyLoop_hitWorld:
  "enemyLoop hitWorld =
     (hitWorld\<lparr>enemies := [sampleEnemy\<lparr>enemy_y := 108\<rparr>],
               players := [samplePlayer\<lparr>player_x := 16, player_y := 16\<rparr>,
                           samplePlayer2\<lparr>player_x := 16, player_y := 16\<rparr>],
               entropy := sampleEntropy\<lparr>used := 4\<rparr>\<rparr>, [''u1''], True)"
proof -
  have e: "enemies hitWorld = [sampleEnemy]" by (simp add: hitWorld_def)
  have s: "stepEnemy (enemies hitWorld ! 0) (players hitWorld) = (sampleEnemy\<lparr>enemy_y := 108\<rparr>, True)"
    using stepEnemy_hitWorld by (simp add: e)
  have ent: "entropy hitWorld = sampleEntropy\<lparr>used := 0\<rparr>"
    by (simp add: hitWorld_def sampleWorld_def sampleEntropy_def)
  have ps: "players hitWorld = [samplePlayer, samplePlayer2\<lparr>player_y := 130\<rparr>]"
    by (simp add: hitWorld_def)
  have h1: "isHit (sampleEnemy\<lparr>enemy_y := 108\<rparr>) samplePlayer"
    "isHit (sampleEnemy\<lparr>enemy_y := 108\<rparr>) (samplePlayer2\<lparr>player_y := 130\<rparr>)"
    by (simp_all add: isHit_def sampleEnemy_def samplePlayer_def samplePlayer2_def)
  have u: "userId samplePlayer = ''u1''" "userId (samplePlayer2\<lparr>player_y := 130\<rparr>) = ''u1''"
    by (simp_all add: samplePlayer_def samplePlayer2_def)
  have hp: "hitPlayers (sampleEnemy\<lparr>enemy_y := 108\<rparr>) [sampleEnemy\<lparr>enemy_y := 108\<rparr>]
              [samplePlayer, samplePlayer2\<lparr>player_y := 130\<rparr>] ([], True, sampleEntropy\<lparr>used := 0\<rparr>)
            = ([samplePlayer\<lparr>player_x := 16, player_y := 16\<rparr>,
                samplePlayer2\<lparr>player_x := 16, player_y := 16\<rparr>], [''u1''], True, sampleEntropy\<lparr>used := 4\<rparr>)"
    by (simp add: h1 u respawnPlayer_def spawn_zero numeral_eq_Suc)
  have s': "stepEnemy sampleEnemy [samplePlayer, samplePlayer2\<lparr>player_y := 130\<rparr>]
             = (sampleEnemy\<lparr>enemy_y := 108\<rparr>, True)"
    using stepEnemy_hitWorld by (simp add: ps)
  show ?thesis
    unfolding enemyLoop_def
    by (simp add: enemyTurn_def e s' ent ps hp Let_def del: hitPlayers.simps)
qed


lemma count_list_distinct: "distinct xs \<Longrightarrow> count_list xs x \<le> 1"
  by (induction xs) (auto simp: count_list_0_iff)

lemma updateEnemies_effects:
  assumes "updateEnemies w = (changed, w', effects)"
  shows "\<exists>hits. distinct hits \<and> set hits \<subseteq> userId ` set (players w)
           \<and> effects = map (\<lambda>u. PersistUserScore u 0) hits
           \<and> (\<forall>u. userScores w' u = (if u \<in> set hits then Some 0 else userScores w u))"
proof (cases "players w = [] \<or> enemies w = []")
  case True
  then have "effects = []" "w' = w" using assms by (auto simp: updateEnemies_def)
  then show ?thesis by (intro exI[of _ "[]"]) simp
next
  case False
  obtain w1 hits ch where l: "enemyLoop w = (w1, hits, ch)" by (cases "enemyLoop w") auto
  obtain w2 effs where r: "resetAll hits w1 = (w2, effs)" by (cases "resetAll hits w1")
  have u: "w' = w2" "effects = effs"
    using assms False l r by (simp_all add: updateEnemies_def)
  note F = enemyLoop_frame[of w, unfolded l tickFrame_def] and R = resetAll_props[OF r]
  have "distinct hits" "set hits \<subseteq> userId ` set (players w)" using F by auto
  moreover have "userScores w1 = userScores w" using F by simp
  ultimately show ?thesis using R u by (intro exI[of _ hits]) simp
qed

text \<open>
  Claim C8. In one invocation of \<open>updateEnemies\<close> the persistence calls are exactly one
  \<open>persistUserScore(uid, 0)\<close> for each user id of a duplicate-free list (the set
  \<open>hitUserIds\<close>), one call to \<open>resetUserScore\<close> each; so for every user the absolute zero
  is written at most once, however many enemies hit the user and however many of the
  user's connections are hit.
\<close>

theorem score_reset_once:
  "case updateEnemies w of (changed, w', effects) \<Rightarrow>
     (\<exists>hits. distinct hits \<and> effects = map (\<lambda>u. PersistUserScore u 0) hits)
     \<and> count_list effects (PersistUserScore uid 0) \<le> 1"
proof -
  obtain changed w' effects where u: "updateEnemies w = (changed, w', effects)"
    by (cases "updateEnemies w") auto
  from updateEnemies_effects[OF u] obtain hits where
    h: "distinct hits" "effects = map (\<lambda>u. PersistUserScore u 0) hits" by blast
  have "distinct effects"
    unfolding h(2) using h(1) by (simp add: distinct_map inj_on_def)
  then have "count_list effects (PersistUserScore uid 0) \<le> 1" by (rule count_list_distinct)
  then show ?thesis using h u by auto
qed

text \<open>
  At \<open>hitWorld\<close> the enemy steps to \<open>(100, 108)\<close> and hits both connections of \<open>u1\<close>;
  the invocation makes one persistence call.
\<close>

theorem score_reset_once_witness:
  "map userId (players hitWorld) = [''u1'', ''u1'']
   \<and> isHit (sampleEnemy\<lparr>enemy_y := 108\<rparr>) (players hitWorld ! 0)
   \<and> isHit (sampleEnemy\<lparr>enemy_y := 108\<rparr>) (players hitWorld ! 1)
   \<and> snd (snd (updateEnemies hitWorld)) = [PersistUserScore ''u1'' 0]
   \<and> count_list (snd (snd (updateEnemies hitWorld))) (PersistUserScore ''u1'' 0) = 1"
proof -
  have ps: "players hitWorld = [samplePlayer, samplePlayer2\<lparr>player_y := 130\<rparr>]"
    "enemies hitWorld = [sampleEnemy]"
    by (simp_all add: hitWorld_def)
  have h1: "isHit (sampleEnemy\<lparr>enemy_y := 108\<rparr>) samplePlayer"
    "isHit (sampleEnemy\<lparr>enemy_y := 108\<rparr>) (samplePlayer2\<lparr>player_y := 130\<rparr>)"
    by (simp_all add: isHit_def sampleEnemy_def samplePlayer_def samplePlayer2_def)
  have u: "userId samplePlayer = ''u1''" "userId (samplePlayer2\<lparr>player_y := 130\<rparr>) = ''u1''"
    by (simp_all add: samplePlayer_def samplePlayer2_def)
  have e: "snd (snd (updateEnemies hitWorld)) = [PersistUserScore ''u1'' 0]"
    by (simp add: updateEnemies_def ps enemyLoop_hitWorld resetAll_def resetUserScore_def)
  show ?thesis
    using score_reset_once[where w = hitWorld and uid = "''u1''"] e
    by (simp add: ps h1 u)
qed

lemma isHit_distance:
  "isHit e p \<longleftrightarrow>
     sqrt ((player_x p - enemy_x e)\<^sup>2 + (player_y p - enemy_y e)\<^sup>2) \<le> PLAYER_RADIUS + ENEMY_RADIUS"
proof -
  let ?d = "(player_x p - enemy_x e)\<^sup>2 + (player_y p - enemy_y e)\<^sup>2"
  have "sqrt ?d \<le> 36 \<longleftrightarrow> sqrt ?d \<le> sqrt (36\<^sup>2)" by simp
  also have "\<dots> \<longleftrightarrow> ?d \<le> 36\<^sup>2" by (rule real_sqrt_le_iff)
  finally show ?thesis by (simp add: isHit_def Let_def power2_eq_square)
qed

lemma enemyTurn_hit:
  assumes "i < length (enemies w)" "j < length (players w)"
    "isHit (fst (stepEnemy (enemies w ! i) (players w))) (players w ! j)"
    "enemyTurn (w, h, c) i = (w', h', c')"
  shows "userId (players w ! j) \<in> set h' \<and> playerPlaced (players w' ! j)"
proof -
  obtain e' moved where s: "stepEnemy (enemies w ! i) (players w) = (e', moved)"
    by (cases "stepEnemy (enemies w ! i) (players w)")
  define es' where "es' = (enemies w)[i := e']"
  obtain ps1 h1 c1 g1 where hp:
    "hitPlayers e' es' (players w) (h, c \<or> moved, entropy w) = (ps1, h1, c1, g1)"
    by (cases "hitPlayers e' es' (players w) (h, c \<or> moved, entropy w)") auto
  have t: "enemyTurn (w, h, c) i = (w\<lparr>enemies := es', players := ps1, entropy := g1\<rparr>, h1, c1)"
    by (simp add: enemyTurn_def s es'_def[symmetric] hp)
  have eq: "players w' = ps1" "h' = h1" using assms(4) t by auto
  have "list_all2 (\<lambda>p p'. playerMoved p p'
                  \<and> (if isHit e' p then playerPlaced p' \<and> userId p \<in> set h1 else p' = p))
        (players w) ps1" using hitPlayers_frame[OF hp] by blast
  from list_all2_nthD[OF this assms(2)] assms(3) s show ?thesis
    unfolding eq by simp
qed

text \<open>
  A hit in the turn of enemy \<open>i\<close>, seen when \<open>updateEnemies\<close> returns: the user's score and
  where the player may stand.
\<close>

lemma updateEnemies_hit:
  assumes "i < length (enemies w)"
    and "foldl enemyTurn (w, [], False) [0..<i] = (wi, hi, ci)"
    and "stepEnemy (enemies wi ! i) (players wi) = (enemy', moved)"
    and "j < length (players wi)"
    and "sqrt ((player_x (players wi ! j) - enemy_x enemy')\<^sup>2
               + (player_y (players wi ! j) - enemy_y enemy')\<^sup>2)
           \<le> PLAYER_RADIUS + ENEMY_RADIUS"
    and "updateEnemies w = (changed, w', effects)"
  shows "userScores w' (userId (players w ! j)) = Some 0
     \<and> (\<forall>q\<in>set (players w'). userId q = userId (players w ! j) \<longrightarrow> score q = 0)
     \<and> connectionId (players w' ! j) = connectionId (players w ! j)
     \<and> userId (players w' ! j) = userId (players w ! j)
     \<and> \<not> isCircleBlockedByBuildings (player_x (players w' ! j)) (player_y (players w' ! j))
           PLAYER_RADIUS
     \<and> inBounds PLAYER_RADIUS (player_x (players w' ! j)) (player_y (players w' ! j))
     \<and> PersistUserScore (userId (players w ! j)) 0 \<in> set effects
     \<and> changed"
proof -
  let ?n = "length (enemies w)"
  let ?uid = "userId (players w ! j)"
  have F0: "tickFrame (w, [], False) (wi, hi, ci)"
    using enemyTurns_frame[of "[0..<i]" "(w, [], False)"] assms(1,2) by simp
  then have P0: "playersFrame (players w) (players wi)"
    and E0: "enemiesFrame (enemies w) (enemies wi)"
    by (simp_all add: tickFrame_def)
  have len: "length (players wi) = length (players w)" "length (enemies wi) = ?n"
    using playersFrame_userIds[OF P0] E0 by (auto simp: enemiesFrame_def dest: list_all2_lengthD)
  have jw: "j < length (players w)" using assms(4) len by simp
  have uid_i: "userId (players wi ! j) = ?uid"
  proof -
    have "map userId (players wi) ! j = map userId (players w) ! j"
      using playersFrame_userIds[OF P0] by simp
    then show ?thesis using jw assms(4) by simp
  qed
  have ne: "players w \<noteq> []" "enemies w \<noteq> []" using jw assms(1) by auto
  obtain wi1 hi1 ci1 where t: "enemyTurn (wi, hi, ci) i = (wi1, hi1, ci1)"
    by (cases "enemyTurn (wi, hi, ci) i") auto
  have hit: "isHit (fst (stepEnemy (enemies wi ! i) (players wi))) (players wi ! j)"
    using assms(3,5) by (simp add: isHit_distance)
  have H: "?uid \<in> set hi1" "playerPlaced (players wi1 ! j)"
    using enemyTurn_hit[OF _ assms(4) hit t] assms(1) len uid_i by auto
  have split: "[0..<?n] = [0..<i] @ i # [Suc i..<?n]"
  proof -
    have "[0..<?n] = [0..<i] @ [i..<?n]"
      using assms(1) upt_add_eq_append[of 0 i "?n - i"] by simp
    then show ?thesis using assms(1) by (simp add: upt_conv_Cons)
  qed
  obtain w1 hits ch where l: "enemyLoop w = (w1, hits, ch)" by (cases "enemyLoop w") auto
  have rest: "foldl enemyTurn (wi1, hi1, ci1) [Suc i..<?n] = (w1, hits, ch)"
    using l unfolding enemyLoop_def split by (simp add: assms(2) t)
  have len1: "length (enemies wi1) = ?n"
    using enemyTurn_length[of wi hi ci i] t len by simp
  have F2: "tickFrame (wi1, hi1, ci1) (w1, hits, ch)"
    using enemyTurns_frame[of "[Suc i..<?n]" "(wi1, hi1, ci1)"] rest len1 by simp
  have F: "tickFrame (w, [], False) (w1, hits, ch)"
    using enemyLoop_frame[of w] l by simp
  have P: "playersFrame (players w) (players w1)" using F by (simp add: tickFrame_def)
  have P2: "playersFrame (players wi1) (players w1)" using F2 by (simp add: tickFrame_def)
  have in_hits: "?uid \<in> set hits" using F2 H(1) by (auto simp: tickFrame_def)
  have j1: "j < length (players wi1)"
    using playersFrame_userIds[OF P2] playersFrame_userIds[OF P] jw by simp
  have "players w1 ! j = players wi1 ! j \<or> playerPlaced (players w1 ! j)"
    using list_all2_nthD[OF P2[unfolded playersFrame_def] j1] by blast
  then have placed1: "playerPlaced (players w1 ! j)" using H(2) by auto
  have ids1: "connectionId (players w1 ! j) = connectionId (players w ! j)"
    "userId (players w1 ! j) = ?uid"
    using list_all2_nthD[OF P[unfolded playersFrame_def] jw]
      playerMoved_fields[of "players w ! j" "players w1 ! j"] by simp_all
  obtain w2 effs where r: "resetAll hits w1 = (w2, effs)" by (cases "resetAll hits w1")
  have u: "w' = w2" "effects = effs" "changed = (ch \<or> hits \<noteq> [])"
    using assms(6) ne l r by (simp_all add: updateEnemies_def)
  note R = resetAll_props[OF r]
  have j2: "j < length (players w1)" using playersFrame_userIds[OF P] jw by simp
  have pj: "players w2 ! j = (players w1 ! j)\<lparr>score := 0\<rparr>"
    using R j2 in_hits ids1 by simp
  have sc: "\<forall>q\<in>set (players w2). userId q = ?uid \<longrightarrow> score q = 0"
    using R in_hits by auto
  have a1: "userScores w2 ?uid = Some 0" using R in_hits by simp
  have a2: "connectionId (players w2 ! j) = connectionId (players w ! j)"
    "userId (players w2 ! j) = ?uid"
    "player_x (players w2 ! j) = player_x (players w1 ! j)"
    "player_y (players w2 ! j) = player_y (players w1 ! j)"
    using pj ids1 by simp_all
  have a3: "PersistUserScore ?uid 0 \<in> set effs" using R in_hits by simp
  have a4: "ch \<or> hits \<noteq> []" using in_hits by auto
  show ?thesis
    unfolding u a2 using a1 a3 a4 sc placed1 by (simp add: playerPlaced_def)
qed

lemma updateEnemies_hitWorld:
  "players (fst (snd (updateEnemies hitWorld)))
     = [samplePlayer\<lparr>player_x := 16, player_y := 16, score := 0\<rparr>,
        samplePlayer2\<lparr>player_x := 16, player_y := 16, score := 0\<rparr>]"
  "userScores (fst (snd (updateEnemies hitWorld))) = [''u1'' \<mapsto> 0]"
  "snd (snd (updateEnemies hitWorld)) = [PersistUserScore ''u1'' 0]"
  "fst (updateEnemies hitWorld)"
proof -
  have ne: "players hitWorld \<noteq> []" "enemies hitWorld \<noteq> []" by (simp_all add: hitWorld_def)
  have u: "userId samplePlayer = ''u1''" "userId samplePlayer2 = ''u1''"
    by (simp_all add: samplePlayer_def samplePlayer2_def)
  have sc: "userScores hitWorld = [''u1'' \<mapsto> 7]" by (simp add: hitWorld_def)
  show "players (fst (snd (updateEnemies hitWorld)))
     = [samplePlayer\<lparr>player_x := 16, player_y := 16, score := 0\<rparr>,
        samplePlayer2\<lparr>player_x := 16, player_y := 16, score := 0\<rparr>]"
    by (simp add: updateEnemies_def ne enemyLoop_hitWorld resetAll_def resetUserScore_def
        applyScoreToConnectedPlayers_def u)
  show "userScores (fst (snd (updateEnemies hitWorld))) = [''u1'' \<mapsto> 0]"
    by (simp add: updateEnemies_def ne enemyLoop_hitWorld resetAll_def resetUserScore_def sc)
  show "snd (snd (updateEnemies hitWorld)) = [PersistUserScore ''u1'' 0]"
    by (simp add: updateEnemies_def ne enemyLoop_hitWorld resetAll_def resetUserScore_def)
  show "fst (updateEnemies hitWorld)"
    by (simp add: updateEnemies_def ne enemyLoop_hitWorld resetAll_def resetUserScore_def)
qed

lemma hitPlayers_Cons_hit:
  assumes "isHit enemy p"
  shows "hitPlayers enemy es (p # rest) (h, c, g) =
     (fst (respawnPlayer es p g)
        # fst (hitPlayers enemy es rest
                 (if userId p \<notin> set h then h @ [userId p] else h, True, snd (respawnPlayer es p g))),
      snd (hitPlayers enemy es rest
             (if userId p \<notin> set h then h @ [userId p] else h, True, snd (respawnPlayer es p g))))"
  using assms by (simp add: Let_def split: prod.splits)

lemma hitPlayers_Cons_miss:
  assumes "\<not> isHit enemy p"
  shows "hitPlayers enemy es (p # rest) (h, c, g) =
     (p # fst (hitPlayers enemy es rest (h, c, g)), snd (hitPlayers enemy es rest (h, c, g)))"
  using assms by (simp add: Let_def split: prod.splits)

lemma hitPlayers_nth_hit:
  assumes "j < length ps" "isHit enemy (ps ! j)"
  shows "fst (hitPlayers enemy es ps (h, c, g)) ! j
           = fst (respawnPlayer es (ps ! j)
                    (snd (snd (snd (hitPlayers enemy es (take j ps) (h, c, g))))))"
  using assms
proof (induction ps arbitrary: j h c g)
  case Nil
  then show ?case by simp
next
  case (Cons p rest)
  show ?case
  proof (cases j)
    case 0
    then have "isHit enemy p" using Cons.prems(2) by simp
    then show ?thesis unfolding 0 hitPlayers_Cons_hit[OF \<open>isHit enemy p\<close>] by simp
  next
    case (Suc j')
    have j': "j' < length rest" "isHit enemy (rest ! j')" using Cons.prems Suc by simp_all
    show ?thesis
    proof (cases "isHit enemy p")
      case True
      show ?thesis
        unfolding Suc take_Suc_Cons hitPlayers_Cons_hit[OF True]
        using Cons.IH[OF j'] by simp
    next
      case False
      show ?thesis
        unfolding Suc take_Suc_Cons hitPlayers_Cons_miss[OF False]
        using Cons.IH[OF j'] by simp
    qed
  qed
qed

lemma respawnPlayer_position:
  "player_x (fst (respawnPlayer es p g)) = fst (fst (spawnPlayerPosition es g))
   \<and> player_y (fst (respawnPlayer es p g)) = snd (fst (spawnPlayerPosition es g))"
  by (simp add: respawnPlayer_def split: prod.splits)

lemma enemyTurn_players:
  "players (fst (enemyTurn (w, h, c) k))
     = fst (hitPlayers (fst (stepEnemy (enemies w ! k) (players w)))
              ((enemies w)[k := fst (stepEnemy (enemies w ! k) (players w))])
              (players w) (h, c \<or> snd (stepEnemy (enemies w ! k) (players w)), entropy w))"
  by (simp add: enemyTurn_def Let_def split: prod.splits)

lemma hitPlayers_length: "length (fst (hitPlayers enemy es ps acc)) = length ps"
proof -
  obtain h c g where acc: "acc = (h, c, g)" by (cases acc)
  obtain ps' h' c' g' where hp: "hitPlayers enemy es ps (h, c, g) = (ps', h', c', g')"
    by (cases "hitPlayers enemy es ps (h, c, g)") auto
  have "list_all2 (\<lambda>p p'. playerMoved p p'
                  \<and> (if isHit enemy p then playerPlaced p' \<and> userId p \<in> set h' else p' = p))
        ps ps'" using hitPlayers_frame[OF hp] by blast
  then have "length ps = length ps'" by (rule list_all2_lengthD)
  then show ?thesis unfolding acc hp by simp
qed

lemma hitPlayers_nth_miss:
  assumes "j < length ps" "\<not> isHit enemy (ps ! j)"
  shows "fst (hitPlayers enemy es ps acc) ! j = ps ! j"
proof -
  obtain h c g where acc: "acc = (h, c, g)" by (cases acc)
  obtain ps' h' c' g' where hp: "hitPlayers enemy es ps (h, c, g) = (ps', h', c', g')"
    by (cases "hitPlayers enemy es ps (h, c, g)") auto
  have "list_all2 (\<lambda>p p'. playerMoved p p'
                  \<and> (if isHit enemy p then playerPlaced p' \<and> userId p \<in> set h' else p' = p))
        ps ps'" using hitPlayers_frame[OF hp] by blast
  from list_all2_nthD[OF this assms(1)] assms(2) have "ps' ! j = ps ! j" by simp
  then show ?thesis unfolding acc hp by simp
qed

lemma enemyTurns_players_length:
  "length (players (fst (foldl enemyTurn st ks))) = length (players (fst st))"
proof (induction ks arbitrary: st)
  case Nil
  show ?case by simp
next
  case (Cons k ks)
  obtain w h c where st: "st = (w, h, c)" by (cases st)
  have "length (players (fst (enemyTurn st k))) = length (players (fst st))"
    unfolding st enemyTurn_players hitPlayers_length by simp
  then show ?case using Cons.IH[of "enemyTurn st k"] by simp
qed

lemma enemyTurns_unhit:
  assumes "j < length (players (fst st0))" "a \<le> b"
    and "\<forall>k. a \<le> k \<and> k < b \<longrightarrow>
           \<not> isHit (fst (stepEnemy (enemies (fst (foldl enemyTurn st0 [0..<k])) ! k)
                             (players (fst (foldl enemyTurn st0 [0..<k])))))
                   (players (fst (foldl enemyTurn st0 [0..<k])) ! j)"
  shows "players (fst (foldl enemyTurn st0 [0..<b])) ! j
           = players (fst (foldl enemyTurn st0 [0..<a])) ! j"
  using assms(2,3)
proof (induction b rule: dec_induct)
  case base
  show ?case ..
next
  case (step n)
  define st where "st = foldl enemyTurn st0 [0..<n]"
  obtain w h c where s: "st = (w, h, c)" by (cases st)
  have jl: "j < length (players w)"
    using enemyTurns_players_length[of st0 "[0..<n]"] assms(1) s unfolding st_def by simp
  have "\<not> isHit (fst (stepEnemy (enemies (fst (foldl enemyTurn st0 [0..<n])) ! n)
                             (players (fst (foldl enemyTurn st0 [0..<n])))))
                   (players (fst (foldl enemyTurn st0 [0..<n])) ! j)"
    using step.prems step.hyps(1) by blast
  then have miss: "\<not> isHit (fst (stepEnemy (enemies w ! n) (players w))) (players w ! j)"
    unfolding s[unfolded st_def] by simp
  have "players (fst (enemyTurn (w, h, c) n)) ! j = players w ! j"
    unfolding enemyTurn_players by (rule hitPlayers_nth_miss[OF jl miss])
  then have "players (fst (foldl enemyTurn st0 [0..<Suc n])) ! j = players (fst st) ! j"
    using s unfolding st_def by simp
  moreover have "players (fst st) ! j = players (fst (foldl enemyTurn st0 [0..<a])) ! j"
    unfolding st_def
  proof (rule step.IH)
    show "\<forall>k. a \<le> k \<and> k < n \<longrightarrow>
           \<not> isHit (fst (stepEnemy (enemies (fst (foldl enemyTurn st0 [0..<k])) ! k)
                             (players (fst (foldl enemyTurn st0 [0..<k])))))
                   (players (fst (foldl enemyTurn st0 [0..<k])) ! j)"
      using step.prems by (meson less_SucI)
  qed
  ultimately show ?case by simp
qed

lemma updateEnemies_respawn:
  assumes "i < length (enemies w)"
    and "foldl enemyTurn (w, [], False) [0..<i] = (wi, hi, ci)"
    and "stepEnemy (enemies wi ! i) (players wi) = (enemy', moved)"
    and "j < length (players wi)"
    and "isHit enemy' (players wi ! j)"
    and "updateEnemies w = (changed, w', effects)"
    and "next = fst (spawnPlayerPosition ((enemies wi)[i := enemy'])
                  (snd (snd (snd (hitPlayers enemy' ((enemies wi)[i := enemy'])
                                    (take j (players wi)) (hi, ci \<or> moved, entropy wi))))))"
  shows "player_x (players (fst (enemyTurn (wi, hi, ci) i)) ! j) = fst next
         \<and> player_y (players (fst (enemyTurn (wi, hi, ci) i)) ! j) = snd next"
    and "(\<forall>k. i < k \<and> k < length (enemies w) \<longrightarrow>
            (let wk = fst (foldl enemyTurn (w, [], False) [0..<k])
             in \<not> isHit (fst (stepEnemy (enemies wk ! k) (players wk))) (players wk ! j)))
         \<longrightarrow> player_x (players w' ! j) = fst next \<and> player_y (players w' ! j) = snd next"
proof -
  let ?n = "length (enemies w)"
  let ?t = "enemyTurn (wi, hi, ci) i"
  have pt: "players (fst ?t)
              = fst (hitPlayers enemy' ((enemies wi)[i := enemy']) (players wi)
                       (hi, ci \<or> moved, entropy wi))"
    unfolding enemyTurn_players assms(3) by simp
  show turn: "player_x (players (fst ?t) ! j) = fst next
         \<and> player_y (players (fst ?t) ! j) = snd next"
    unfolding pt hitPlayers_nth_hit[OF assms(4,5)] assms(7) by (rule respawnPlayer_position)
  show "(\<forall>k. i < k \<and> k < ?n \<longrightarrow>
            (let wk = fst (foldl enemyTurn (w, [], False) [0..<k])
             in \<not> isHit (fst (stepEnemy (enemies wk ! k) (players wk))) (players wk ! j)))
         \<longrightarrow> player_x (players w' ! j) = fst next \<and> player_y (players w' ! j) = snd next"
  proof
    assume later: "\<forall>k. i < k \<and> k < ?n \<longrightarrow>
            (let wk = fst (foldl enemyTurn (w, [], False) [0..<k])
             in \<not> isHit (fst (stepEnemy (enemies wk ! k) (players wk))) (players wk ! j))"
    have lw: "length (players wi) = length (players w)"
      using enemyTurns_players_length[of "(w, [], False)" "[0..<i]"] assms(2) by simp
    have jw: "j < length (players (fst (w, [] :: string list, False)))" using assms(4) lw by simp
    have l2: "\<forall>k. Suc i \<le> k \<and> k < ?n \<longrightarrow>
           \<not> isHit (fst (stepEnemy (enemies (fst (foldl enemyTurn (w, [], False) [0..<k])) ! k)
                             (players (fst (foldl enemyTurn (w, [], False) [0..<k])))))
                   (players (fst (foldl enemyTurn (w, [], False) [0..<k])) ! j)"
      using later unfolding Let_def by (simp add: Suc_le_eq)
    have si: "Suc i \<le> ?n" using assms(1) by simp
    have "foldl enemyTurn (w, [], False) [0..<Suc i] = ?t"
      using assms(2) by simp
    then have same: "players (fst (foldl enemyTurn (w, [], False) [0..<?n])) ! j = players (fst ?t) ! j"
      using enemyTurns_unhit[OF jw si l2] by simp
    obtain w1 hits ch where l: "enemyLoop w = (w1, hits, ch)" by (cases "enemyLoop w") auto
    have w1: "players w1 ! j = players (fst ?t) ! j"
      using same l unfolding enemyLoop_def by simp
    have l1: "length (players w1) = length (players w)"
      using enemyTurns_players_length[of "(w, [], False)" "[0..<?n]"] l unfolding enemyLoop_def
      by simp
    have ne: "players w \<noteq> []" "enemies w \<noteq> []" using assms(1,4) lw by auto
    obtain w2 effs where r: "resetAll hits w1 = (w2, effs)" by (cases "resetAll hits w1")
    have u: "w' = w2" using assms(6) ne l r by (simp add: updateEnemies_def)
    have "players w2 = map (\<lambda>p. if userId p \<in> set hits then p\<lparr>score := 0\<rparr> else p) (players w1)"
      using resetAll_props[OF r] by blast
    then have "player_x (players w2 ! j) = player_x (players w1 ! j)
               \<and> player_y (players w2 ! j) = player_y (players w1 ! j)"
      using l1 assms(4) lw by simp
    then show "player_x (players w' ! j) = fst next \<and> player_y (players w' ! j) = snd next"
      unfolding u w1 using turn by simp
  qed
qed

lemma respawn_hitWorld:
  "respawnPlayer [sampleEnemy\<lparr>enemy_y := 108\<rparr>] p (sampleEntropy\<lparr>used := n\<rparr>)
     = (p\<lparr>player_x := 16, player_y := 16\<rparr>, sampleEntropy\<lparr>used := Suc (Suc n)\<rparr>)"
  unfolding respawnPlayer_def spawn_zero by simp

lemma hitPlayers_hitWorld_prefix:
  "snd (snd (snd (hitPlayers (sampleEnemy\<lparr>enemy_y := 108\<rparr>) [sampleEnemy\<lparr>enemy_y := 108\<rparr>]
                    [samplePlayer] ([], True, sampleEntropy\<lparr>used := 0\<rparr>))))
     = sampleEntropy\<lparr>used := Suc (Suc 0)\<rparr>"
proof -
  have h1: "isHit (sampleEnemy\<lparr>enemy_y := 108\<rparr>) samplePlayer"
    by (simp add: isHit_def sampleEnemy_def samplePlayer_def)
  show ?thesis
    unfolding hitPlayers_Cons_hit[OF h1] respawn_hitWorld by simp
qed

text \<open>
  Claim C2. Take the state \<open>(wi, hi, ci)\<close> in which the loop of \<open>updateEnemies\<close> reaches
  enemy \<open>i\<close>, the enemy \<open>enemy'\<close> after its step, and a connected player \<open>j\<close> whose
  distance to it is at most \<open>PLAYER_RADIUS + ENEMY_RADIUS\<close>. In that turn the player is
  given the position that \<open>spawnPlayerPosition\<close> returns, for the enemies as they stand after
  the step and the random source as the players before \<open>j\<close> in the hit loop have left it.
  When the invocation returns, the player's user has score 0 in the user score map and on
  every live connection, the zero has been handed to persistence, the invocation reports
  a change, and the player (still the same connection of the same user) stands within
  bounds with its circle clear of every building: at that position, unless a later enemy
  of the same invocation has hit the player again.
\<close>

theorem enemy_hit_resets_and_relocates:
  assumes "i < length (enemies w)"
    and "foldl enemyTurn (w, [], False) [0..<i] = (wi, hi, ci)"
    and "stepEnemy (enemies wi ! i) (players wi) = (enemy', moved)"
    and "j < length (players wi)"
    and "sqrt ((player_x (players wi ! j) - enemy_x enemy')\<^sup>2
               + (player_y (players wi ! j) - enemy_y enemy')\<^sup>2)
           \<le> PLAYER_RADIUS + ENEMY_RADIUS"
    and "updateEnemies w = (changed, w', effects)"
  shows "userScores w' (userId (players w ! j)) = Some 0
     \<and> (\<forall>q\<in>set (players w'). userId q = userId (players w ! j) \<longrightarrow> score q = 0)
     \<and> connectionId (players w' ! j) = connectionId (players w ! j)
     \<and> userId (players w' ! j) = userId (players w ! j)
     \<and> \<not> isCircleBlockedByBuildings (player_x (players w' ! j)) (player_y (players w' ! j))
           PLAYER_RADIUS
     \<and> inBounds PLAYER_RADIUS (player_x (players w' ! j)) (player_y (players w' ! j))
     \<and> PersistUserScore (userId (players w ! j)) 0 \<in> set effects
     \<and> changed
     \<and> (let es' = (enemies wi)[i := enemy'];
             g = snd (snd (snd (hitPlayers enemy' es' (take j (players wi))
                                  (hi, ci \<or> moved, entropy wi))));
             next = fst (spawnPlayerPosition es' g)
         in player_x (players (fst (enemyTurn (wi, hi, ci) i)) ! j) = fst next
            \<and> player_y (players (fst (enemyTurn (wi, hi, ci) i)) ! j) = snd next
            \<and> ((\<forall>k. i < k \<and> k < length (enemies w) \<longrightarrow>
                   (let wk = fst (foldl enemyTurn (w, [], False) [0..<k])
                    in \<not> isHit (fst (stepEnemy (enemies wk ! k) (players wk))) (players wk ! j)))
                \<longrightarrow> player_x (players w' ! j) = fst next \<and> player_y (players w' ! j) = snd next))"
proof -
  have hit: "isHit enemy' (players wi ! j)" using assms(5) by (simp only: isHit_distance)
  note A = updateEnemies_hit[OF assms]
  note B = updateEnemies_respawn[OF assms(1,2,3,4) hit assms(6) refl]
  show ?thesis unfolding Let_def using A B(1) B(2)[unfolded Let_def] by blast
qed

text \<open>
  At \<open>hitWorld\<close>, for the second connection: the score 7 of \<open>u1\<close> becomes 0 and the player
  is moved from \<open>(100, 130)\<close> to \<open>(16, 16)\<close>, the position drawn for it.
\<close>

theorem enemy_hit_resets_and_relocates_witness:
  "stepEnemy (enemies hitWorld ! 0) (players hitWorld) = (sampleEnemy\<lparr>enemy_y := 108\<rparr>, True)
   \<and> sqrt ((player_x (players hitWorld ! 1) - 100)\<^sup>2 + (player_y (players hitWorld ! 1) - 108)\<^sup>2)
        \<le> PLAYER_RADIUS + ENEMY_RADIUS
   \<and> userScores hitWorld ''u1'' = Some 7
   \<and> player_x (players hitWorld ! 1) = 100
   \<and> player_y (players hitWorld ! 1) = 130
   \<and> fst (spawnPlayerPosition [sampleEnemy\<lparr>enemy_y := 108\<rparr>]
           (snd (snd (snd (hitPlayers (sampleEnemy\<lparr>enemy_y := 108\<rparr>)
                             [sampleEnemy\<lparr>enemy_y := 108\<rparr>] (take 1 (players hitWorld))
                             ([], False \<or> True, entropy hitWorld)))))) = (16, 16)
   \<and> userScores (fst (snd (updateEnemies hitWorld))) ''u1'' = Some 0
   \<and> map score (players (fst (snd (updateEnemies hitWorld)))) = [0, 0]
   \<and> player_x (players (fst (snd (updateEnemies hitWorld))) ! 1) = 16
   \<and> player_y (players (fst (snd (updateEnemies hitWorld))) ! 1) = 16
   \<and> \<not> isCircleBlockedByBuildings 16 16 PLAYER_RADIUS"
proof -
  have ps: "players hitWorld = [samplePlayer, samplePlayer2\<lparr>player_y := 130\<rparr>]"
    "enemies hitWorld = [sampleEnemy]"
    by (simp_all add: hitWorld_def)
  have ent: "entropy hitWorld = sampleEntropy\<lparr>used := 0\<rparr>"
    by (simp add: hitWorld_def sampleWorld_def sampleEntropy_def)
  have s: "stepEnemy (enemies hitWorld ! 0) (players hitWorld) = (sampleEnemy\<lparr>enemy_y := 108\<rparr>, True)"
    using stepEnemy_hitWorld by (simp add: ps)
  have "isHit (sampleEnemy\<lparr>enemy_y := 108\<rparr>) (players hitWorld ! 1)"
    by (simp add: isHit_def ps sampleEnemy_def samplePlayer2_def)
  then have d: "sqrt ((player_x (players hitWorld ! 1) - enemy_x (sampleEnemy\<lparr>enemy_y := 108\<rparr>))\<^sup>2
               + (player_y (players hitWorld ! 1) - enemy_y (sampleEnemy\<lparr>enemy_y := 108\<rparr>))\<^sup>2)
           \<le> PLAYER_RADIUS + ENEMY_RADIUS"
    by (simp only: isHit_distance)
  have d': "sqrt ((player_x (players hitWorld ! 1) - 100)\<^sup>2 + (player_y (players hitWorld ! 1) - 108)\<^sup>2)
        \<le> PLAYER_RADIUS + ENEMY_RADIUS"
    using d by (simp add: sampleEnemy_def)
  have f: "foldl enemyTurn (hitWorld, [], False) [0..<0] = (hitWorld, [], False)" by simp
  have i: "0 < length (enemies hitWorld)" "1 < length (players hitWorld)" by (simp_all add: ps)
  have sc: "userScores hitWorld ''u1'' = Some 7" by (simp add: hitWorld_def)
  have pos0: "player_x (players hitWorld ! 1) = 100" "player_y (players hitWorld ! 1) = 130"
    by (simp_all add: ps samplePlayer2_def)
  have r: "updateEnemies hitWorld = (fst (updateEnemies hitWorld),
             fst (snd (updateEnemies hitWorld)), snd (snd (updateEnemies hitWorld)))" by simp
  have es': "(enemies hitWorld)[0 := sampleEnemy\<lparr>enemy_y := 108\<rparr>] = [sampleEnemy\<lparr>enemy_y := 108\<rparr>]"
    by (simp add: ps)
  have tk: "take 1 (players hitWorld) = [samplePlayer]" by (simp add: ps)
  have nx: "fst (spawnPlayerPosition [sampleEnemy\<lparr>enemy_y := 108\<rparr>]
           (snd (snd (snd (hitPlayers (sampleEnemy\<lparr>enemy_y := 108\<rparr>)
                             [sampleEnemy\<lparr>enemy_y := 108\<rparr>] (take 1 (players hitWorld))
                             ([], False \<or> True, entropy hitWorld)))))) = (16, 16)"
    unfolding tk ent simp_thms hitPlayers_hitWorld_prefix spawn_zero by simp
  have last: "\<forall>k. 0 < k \<and> k < length (enemies hitWorld) \<longrightarrow>
                   (let wk = fst (foldl enemyTurn (hitWorld, [], False) [0..<k])
                    in \<not> isHit (fst (stepEnemy (enemies wk ! k) (players wk))) (players wk ! 1))"
  proof (intro allI impI)
    fix k assume "0 < k \<and> k < length (enemies hitWorld)"
    then have False by (auto simp: ps(2))
    then show "let wk = fst (foldl enemyTurn (hitWorld, [], False) [0..<k])
                    in \<not> isHit (fst (stepEnemy (enemies wk ! k) (players wk))) (players wk ! 1)" ..
  qed
  note T = enemy_hit_resets_and_relocates[OF i(1) f s i(2) d r]
  have t1: "userScores (fst (snd (updateEnemies hitWorld))) (userId (players hitWorld ! 1)) = Some 0"
    using T by (elim conjE)
  have t3: "\<not> isCircleBlockedByBuildings (player_x (players (fst (snd (updateEnemies hitWorld))) ! 1))
              (player_y (players (fst (snd (updateEnemies hitWorld))) ! 1)) PLAYER_RADIUS"
    using T by (elim conjE)
  note T9 = T[THEN conjunct2, THEN conjunct2, THEN conjunct2, THEN conjunct2, THEN conjunct2,
              THEN conjunct2, THEN conjunct2, THEN conjunct2, unfolded Let_def es' nx]
  note T10 = T9[THEN conjunct2, THEN conjunct2, THEN mp, OF last[unfolded Let_def]]
  have a3: "player_x (players (fst (snd (updateEnemies hitWorld))) ! 1) = 16"
    and a4: "player_y (players (fst (snd (updateEnemies hitWorld))) ! 1) = 16"
    using T10 by simp_all
  have a1: "userScores (fst (snd (updateEnemies hitWorld))) ''u1'' = Some 0"
    using t1 by (simp add: ps samplePlayer2_def)
  have a2: "map score (players (fst (snd (updateEnemies hitWorld)))) = [0, 0]"
    by (simp add: updateEnemies_hitWorld)
  have a5: "\<not> isCircleBlockedByBuildings 16 16 PLAYER_RADIUS"
    using t3 unfolding a3 a4 .
  show ?thesis
    by (rule conjI[OF s conjI[OF d' conjI[OF sc conjI[OF pos0(1) conjI[OF pos0(2) conjI[OF nx
          conjI[OF a1 conjI[OF a2 conjI[OF a3 conjI[OF a4 a5]]]]]]]]]])
qed

section \<open>Enemy pursuit\<close>

lemma closestPlayerStep_Some:
  "closestPlayerStep e (Some (p0, d0)) p =
     (if distanceSquaredTo e p < d0 then Some (p, distanceSquaredTo e p) else Some (p0, d0))"
  unfolding closestPlayerStep_def distanceSquaredTo_def Let_def by simp

lemma closestPlayerStep_None:
  "closestPlayerStep e None p = Some (p, distanceSquaredTo e p)"
  unfolding closestPlayerStep_def distanceSquaredTo_def Let_def by simp

lemma closestPlayerTo_empty: "closestPlayerTo e [] = None"
  by (simp add: closestPlayerTo_def)

lemma sqrt_gt_iff_sq:
  fixes a b :: real
  assumes "0 \<le> b"
  shows "sqrt a > b \<longleftrightarrow> a > b ^ 2"
proof -
  have "sqrt a > b \<longleftrightarrow> sqrt a > sqrt (b ^ 2)" using assms by simp
  also have "\<dots> \<longleftrightarrow> a > b ^ 2" by (rule real_sqrt_less_iff)
  finally show ?thesis .
qed

lemma closestPlayerTo_snoc:
  "closestPlayerTo e (ps @ [a]) = closestPlayerStep e (closestPlayerTo e ps) a"
  by (simp add: closestPlayerTo_def)

lemma closestPlayerTo_first_nearest:
  assumes "ps \<noteq> []"
  shows "\<exists>k<length ps.
           closestPlayerTo e ps = Some (ps ! k, distanceSquaredTo e (ps ! k))
           \<and> (\<forall>j<length ps. distanceSquaredTo e (ps ! k) \<le> distanceSquaredTo e (ps ! j))
           \<and> (\<forall>j<k. distanceSquaredTo e (ps ! k) < distanceSquaredTo e (ps ! j))"
  using assms
proof (induction ps rule: rev_induct)
  case Nil
  then show ?case by simp
next
  case (snoc a ps)
  show ?case
  proof (cases "ps = []")
    case True
    have "closestPlayerTo e (ps @ [a]) = Some (a, distanceSquaredTo e a)"
      unfolding closestPlayerTo_snoc True by (simp add: closestPlayerTo_empty closestPlayerStep_None)
    then show ?thesis using True by simp
  next
    case False
    from snoc.IH[OF False] obtain k where k: "k < length ps"
      "closestPlayerTo e ps = Some (ps ! k, distanceSquaredTo e (ps ! k))"
      "\<forall>j<length ps. distanceSquaredTo e (ps ! k) \<le> distanceSquaredTo e (ps ! j)"
      "\<forall>j<k. distanceSquaredTo e (ps ! k) < distanceSquaredTo e (ps ! j)"
      by blast
    show ?thesis
    proof (cases "distanceSquaredTo e a < distanceSquaredTo e (ps ! k)")
      case True
      have r: "closestPlayerTo e (ps @ [a]) = Some (a, distanceSquaredTo e a)"
        unfolding closestPlayerTo_snoc k(2) closestPlayerStep_Some using True by simp
      have n: "(ps @ [a]) ! length ps = a" by simp
      have 1: "\<forall>j<length (ps @ [a]). distanceSquaredTo e a \<le> distanceSquaredTo e ((ps @ [a]) ! j)"
      proof (intro allI impI)
        fix j assume "j < length (ps @ [a])"
        then consider "j < length ps" | "j = length ps" by fastforce
        then show "distanceSquaredTo e a \<le> distanceSquaredTo e ((ps @ [a]) ! j)"
        proof cases
          case 1
          then show ?thesis using k(3) True by (simp add: nth_append) (meson less_le_trans less_imp_le)
        next
          case 2
          then show ?thesis by simp
        qed
      qed
      have 2: "\<forall>j<length ps. distanceSquaredTo e a < distanceSquaredTo e ((ps @ [a]) ! j)"
      proof (intro allI impI)
        fix j assume j: "j < length ps"
        then have "distanceSquaredTo e (ps ! k) \<le> distanceSquaredTo e (ps ! j)" using k(3) by blast
        then show "distanceSquaredTo e a < distanceSquaredTo e ((ps @ [a]) ! j)"
          using True j by (simp add: nth_append)
      qed
      have "length ps < length (ps @ [a])
           \<and> closestPlayerTo e (ps @ [a])
               = Some ((ps @ [a]) ! length ps, distanceSquaredTo e ((ps @ [a]) ! length ps))
           \<and> (\<forall>j<length (ps @ [a]). distanceSquaredTo e ((ps @ [a]) ! length ps)
                                         \<le> distanceSquaredTo e ((ps @ [a]) ! j))
           \<and> (\<forall>j<length ps. distanceSquaredTo e ((ps @ [a]) ! length ps)
                                 < distanceSquaredTo e ((ps @ [a]) ! j))"
        unfolding n using r 1 2 by simp
      then show ?thesis by (rule exI[of _ "length ps"])
    next
      case False
      have r: "closestPlayerTo e (ps @ [a]) = Some (ps ! k, distanceSquaredTo e (ps ! k))"
        unfolding closestPlayerTo_snoc k(2) closestPlayerStep_Some using False by simp
      have n: "(ps @ [a]) ! k = ps ! k" using k(1) by (simp add: nth_append)
      have 1: "\<forall>j<length (ps @ [a]). distanceSquaredTo e (ps ! k) \<le> distanceSquaredTo e ((ps @ [a]) ! j)"
      proof (intro allI impI)
        fix j assume "j < length (ps @ [a])"
        then consider "j < length ps" | "j = length ps" by fastforce
        then show "distanceSquaredTo e (ps ! k) \<le> distanceSquaredTo e ((ps @ [a]) ! j)"
        proof cases
          case 1
          then show ?thesis using k(3) by (simp add: nth_append)
        next
          case 2
          then show ?thesis using False by simp
        qed
      qed
      have 2: "\<forall>j<k. distanceSquaredTo e (ps ! k) < distanceSquaredTo e ((ps @ [a]) ! j)"
        using k(1,4) by (simp add: nth_append)
      have "k < length (ps @ [a])
           \<and> closestPlayerTo e (ps @ [a])
               = Some ((ps @ [a]) ! k, distanceSquaredTo e ((ps @ [a]) ! k))
           \<and> (\<forall>j<length (ps @ [a]). distanceSquaredTo e ((ps @ [a]) ! k)
                                         \<le> distanceSquaredTo e ((ps @ [a]) ! j))
           \<and> (\<forall>j<k. distanceSquaredTo e ((ps @ [a]) ! k)
                                 < distanceSquaredTo e ((ps @ [a]) ! j))"
        unfolding n using r 1 2 k(1) by simp
      then show ?thesis by (rule exI[of _ k])
    qed
  qed
qed

lemma enemyTurn_enemies:
  "enemies (fst (enemyTurn (w, h, c) k))
     = (enemies w)[k := fst (stepEnemy (enemies w ! k) (players w))]"
  by (simp add: enemyTurn_def Let_def split: prod.splits)

lemma enemyTurns_other:
  assumes "i \<notin> set ks"
  shows "enemies (fst (foldl enemyTurn st ks)) ! i = enemies (fst st) ! i"
  using assms
proof (induction ks arbitrary: st)
  case Nil
  show ?case by simp
next
  case (Cons k ks)
  obtain w h c where st: "st = (w, h, c)" by (cases st)
  have "enemies (fst (enemyTurn st k)) ! i = enemies (fst st) ! i"
    unfolding st enemyTurn_enemies using Cons.prems by simp
  moreover have "enemies (fst (foldl enemyTurn (enemyTurn st k) ks)) ! i
                   = enemies (fst (enemyTurn st k)) ! i"
    using Cons.IH[of "enemyTurn st k"] Cons.prems by simp
  ultimately show ?case by simp
qed

lemma enemyTurn_changed:
  assumes "enemyTurn (w, h, c) k = (w', h', c')" "snd (stepEnemy (enemies w ! k) (players w))"
  shows "c'"
proof -
  obtain e' moved where s: "stepEnemy (enemies w ! k) (players w) = (e', moved)"
    by (cases "stepEnemy (enemies w ! k) (players w)")
  define es' where "es' = (enemies w)[k := e']"
  obtain ps1 h1 c1 g1 where hp:
    "hitPlayers e' es' (players w) (h, c \<or> moved, entropy w) = (ps1, h1, c1, g1)"
    by (cases "hitPlayers e' es' (players w) (h, c \<or> moved, entropy w)") auto
  have t: "enemyTurn (w, h, c) k = (w\<lparr>enemies := es', players := ps1, entropy := g1\<rparr>, h1, c1)"
    by (simp add: enemyTurn_def s es'_def[symmetric] hp)
  have "moved" using assms(2) s by simp
  then have "c1" using hitPlayers_frame[OF hp] by blast
  then show ?thesis using t assms(1) by simp
qed

lemma choosePursuit_first_nearest:
  assumes "0 \<le> territoryRadius e" "ps \<noteq> []"
  shows "\<exists>k<length ps.
            (\<forall>j<length ps.
               sqrt ((player_x (ps ! k) - enemy_x e)\<^sup>2 + (player_y (ps ! k) - enemy_y e)\<^sup>2)
               \<le> sqrt ((player_x (ps ! j) - enemy_x e)\<^sup>2 + (player_y (ps ! j) - enemy_y e)\<^sup>2))
            \<and> (\<forall>j<k.
               sqrt ((player_x (ps ! k) - enemy_x e)\<^sup>2 + (player_y (ps ! k) - enemy_y e)\<^sup>2)
               < sqrt ((player_x (ps ! j) - enemy_x e)\<^sup>2 + (player_y (ps ! j) - enemy_y e)\<^sup>2))
            \<and> choosePursuit e ps =
                (if sqrt ((homeX e - enemy_x e)\<^sup>2 + (homeY e - enemy_y e)\<^sup>2)
                      > territoryRadius e * 1.35
                 then \<lparr>targetX = homeX e, targetY = homeY e,
                       speed = ENEMY_SPEED_PER_TICK * ENEMY_RETURN_SPEED_MULTIPLIER\<rparr>
                 else \<lparr>targetX = player_x (ps ! k), targetY = player_y (ps ! k),
                       speed = ENEMY_SPEED_PER_TICK\<rparr>)"
proof -
  from closestPlayerTo_first_nearest[OF assms(2), of e] obtain k where
    k: "k < length ps" "closestPlayerTo e ps = Some (ps ! k, distanceSquaredTo e (ps ! k))"
       "\<forall>j<length ps. distanceSquaredTo e (ps ! k) \<le> distanceSquaredTo e (ps ! j)"
       "\<forall>j<k. distanceSquaredTo e (ps ! k) < distanceSquaredTo e (ps ! j)" by blast
  have d: "\<And>q. distanceSquaredTo e q = (player_x q - enemy_x e)\<^sup>2 + (player_y q - enemy_y e)\<^sup>2"
    by (simp add: distanceSquaredTo_def power2_eq_square)
  have near: "\<forall>j<length ps.
               sqrt ((player_x (ps ! k) - enemy_x e)\<^sup>2 + (player_y (ps ! k) - enemy_y e)\<^sup>2)
               \<le> sqrt ((player_x (ps ! j) - enemy_x e)\<^sup>2 + (player_y (ps ! j) - enemy_y e)\<^sup>2)"
    using k(3) by (simp add: d)
  have first: "\<forall>j<k.
               sqrt ((player_x (ps ! k) - enemy_x e)\<^sup>2 + (player_y (ps ! k) - enemy_y e)\<^sup>2)
               < sqrt ((player_x (ps ! j) - enemy_x e)\<^sup>2 + (player_y (ps ! j) - enemy_y e)\<^sup>2)"
    using k(4) by (simp add: d)
  have leash: "(sqrt ((homeX e - enemy_x e)\<^sup>2 + (homeY e - enemy_y e)\<^sup>2) > territoryRadius e * 1.35)
        \<longleftrightarrow> ((homeX e - enemy_x e) * (homeX e - enemy_x e)
              + (homeY e - enemy_y e) * (homeY e - enemy_y e) > (territoryRadius e * 1.35) ^ 2)"
    using assms(1) by (subst sqrt_gt_iff_sq) (simp_all add: power2_eq_square)
  have c: "choosePursuit e ps =
                (if sqrt ((homeX e - enemy_x e)\<^sup>2 + (homeY e - enemy_y e)\<^sup>2)
                      > territoryRadius e * 1.35
                 then \<lparr>targetX = homeX e, targetY = homeY e,
                       speed = ENEMY_SPEED_PER_TICK * ENEMY_RETURN_SPEED_MULTIPLIER\<rparr>
                 else \<lparr>targetX = player_x (ps ! k), targetY = player_y (ps ! k),
                       speed = ENEMY_SPEED_PER_TICK\<rparr>)"
    unfolding leash by (simp add: choosePursuit_def k(2) Let_def)
  show ?thesis
    by (rule exI[of _ k]) (rule conjI[OF k(1) conjI[OF near conjI[OF first c]]])
qed

lemma stepEnemy_eq:
  "stepEnemy e ps =
     (if mv_moved (movePointToward (enemy_x e) (enemy_y e) (targetX (choosePursuit e ps))
                     (targetY (choosePursuit e ps)) (speed (choosePursuit e ps)))
      then (e\<lparr>enemy_x := mv_x (movePointToward (enemy_x e) (enemy_y e) (targetX (choosePursuit e ps))
                     (targetY (choosePursuit e ps)) (speed (choosePursuit e ps))),
               enemy_y := mv_y (movePointToward (enemy_x e) (enemy_y e) (targetX (choosePursuit e ps))
                     (targetY (choosePursuit e ps)) (speed (choosePursuit e ps)))\<rparr>, True)
      else (e, False))"
  by (simp add: stepEnemy_def Let_def)

lemma updateEnemies_enemy:
  assumes "players w \<noteq> []" "i < length (enemies w)"
    and "foldl enemyTurn (w, [], False) [0..<i] = (wi, hi, ci)"
    and "updateEnemies w = (changed, w', effects)"
  shows "enemies w' ! i = fst (stepEnemy (enemies w ! i) (players wi))"
    and "snd (stepEnemy (enemies w ! i) (players wi)) \<longrightarrow> changed"
    and "map connectionId (players wi) = map connectionId (players w)"
    and "players wi \<noteq> []"
proof -
  let ?n = "length (enemies w)"
  have ne: "enemies w \<noteq> []" using assms(2) by auto
  have F0: "tickFrame (w, [], False) (wi, hi, ci)"
    using enemyTurns_frame[of "[0..<i]" "(w, [], False)"] assms(2,3) by simp
  then have P0: "playersFrame (players w) (players wi)"
    and E0: "enemiesFrame (enemies w) (enemies wi)"
    by (simp_all add: tickFrame_def)
  show ids: "map connectionId (players wi) = map connectionId (players w)"
    using playersFrame_userIds[OF P0] by blast
  have "length (players wi) = length (players w)" using playersFrame_userIds[OF P0] by blast
  then show "players wi \<noteq> []" using assms(1) by auto
  have len: "length (enemies wi) = ?n"
    using E0 by (auto simp: enemiesFrame_def dest: list_all2_lengthD)
  have same: "enemies wi ! i = enemies w ! i"
    using enemyTurns_other[of i "[0..<i]" "(w, [], False)"] assms(3) by simp
  obtain wi1 hi1 ci1 where t: "enemyTurn (wi, hi, ci) i = (wi1, hi1, ci1)"
    by (cases "enemyTurn (wi, hi, ci) i") auto
  have e1: "enemies wi1 ! i = fst (stepEnemy (enemies w ! i) (players wi))"
    using enemyTurn_enemies[of wi hi ci i] t len assms(2) same by simp
  have split: "[0..<?n] = [0..<i] @ i # [Suc i..<?n]"
  proof -
    have "[0..<?n] = [0..<i] @ [i..<?n]"
      using assms(2) upt_add_eq_append[of 0 i "?n - i"] by simp
    then show ?thesis using assms(2) by (simp add: upt_conv_Cons)
  qed
  obtain w1 hits ch where l: "enemyLoop w = (w1, hits, ch)" by (cases "enemyLoop w") auto
  have rest: "foldl enemyTurn (wi1, hi1, ci1) [Suc i..<?n] = (w1, hits, ch)"
    using l unfolding enemyLoop_def split by (simp add: assms(3) t)
  have e2: "enemies w1 ! i = enemies wi1 ! i"
    using enemyTurns_other[of i "[Suc i..<?n]" "(wi1, hi1, ci1)"] rest by simp
  obtain w2 effs where r: "resetAll hits w1 = (w2, effs)" by (cases "resetAll hits w1")
  have u: "w' = w2" "changed = (ch \<or> hits \<noteq> [])"
    using assms(4) assms(1) ne l r by (simp_all add: updateEnemies_def)
  have e3: "enemies w2 = enemies w1" using resetAll_props[OF r] by blast
  show "enemies w' ! i = fst (stepEnemy (enemies w ! i) (players wi))"
    unfolding u e3 e2 e1 ..
  have len1: "length (enemies wi1) = ?n"
    using enemyTurn_length[of wi hi ci i] t len by simp
  have F2: "tickFrame (wi1, hi1, ci1) (w1, hits, ch)"
    using enemyTurns_frame[of "[Suc i..<?n]" "(wi1, hi1, ci1)"] rest len1 by simp
  show "snd (stepEnemy (enemies w ! i) (players wi)) \<longrightarrow> changed"
  proof
    assume "snd (stepEnemy (enemies w ! i) (players wi))"
    then have "ci1" using enemyTurn_changed[OF t] same by simp
    then have "ch" using F2 by (simp add: tickFrame_def)
    then show "changed" using u by simp
  qed
qed

text \<open>
  Claim C5, as the code has it. Take an invocation of \<open>updateEnemies\<close>, the enemy at index
  \<open>i\<close> and the state \<open>(wi, hi, ci)\<close> in which the loop reaches it. With no player
  connected the invocation returns \<open>false\<close> at once and changes nothing: no enemy moves.
  With at least one player connected, the players of \<open>wi\<close> are the connected players
  (where the enemies before \<open>i\<close> have left them), and the enemy heads for its home
  position at \<open>ENEMY_SPEED_PER_TICK * ENEMY_RETURN_SPEED_MULTIPLIER\<close> if its distance from
  home exceeds \<open>territoryRadius * 1.35\<close>, otherwise for the nearest connected player (the
  first of them in iteration order, if several are equally near) at
  \<open>ENEMY_SPEED_PER_TICK\<close>. When the invocation returns, the enemy stands where
  \<open>movePointToward\<close> that target at that speed has taken it, and if it has moved the
  invocation reports a change.
\<close>

theorem enemy_pursuit:
  assumes "i < length (enemies w)"
    and "0 \<le> territoryRadius (enemies w ! i)"
    and "foldl enemyTurn (w, [], False) [0..<i] = (wi, hi, ci)"
    and "updateEnemies w = (changed, w', effects)"
  shows "(players w = [] \<longrightarrow> \<not> changed \<and> w' = w \<and> effects = [])
    \<and> (players w \<noteq> [] \<longrightarrow>
         map connectionId (players wi) = map connectionId (players w)
         \<and> (\<exists>k<length (players wi).
              (\<forall>j<length (players wi).
                 sqrt ((player_x (players wi ! k) - enemy_x (enemies w ! i))\<^sup>2
                       + (player_y (players wi ! k) - enemy_y (enemies w ! i))\<^sup>2)
                 \<le> sqrt ((player_x (players wi ! j) - enemy_x (enemies w ! i))\<^sup>2
                         + (player_y (players wi ! j) - enemy_y (enemies w ! i))\<^sup>2))
              \<and> (\<forall>j<k.
                 sqrt ((player_x (players wi ! k) - enemy_x (enemies w ! i))\<^sup>2
                       + (player_y (players wi ! k) - enemy_y (enemies w ! i))\<^sup>2)
                 < sqrt ((player_x (players wi ! j) - enemy_x (enemies w ! i))\<^sup>2
                         + (player_y (players wi ! j) - enemy_y (enemies w ! i))\<^sup>2))
              \<and> choosePursuit (enemies w ! i) (players wi) =
                  (if sqrt ((homeX (enemies w ! i) - enemy_x (enemies w ! i))\<^sup>2
                            + (homeY (enemies w ! i) - enemy_y (enemies w ! i))\<^sup>2)
                        > territoryRadius (enemies w ! i) * 1.35
                   then \<lparr>targetX = homeX (enemies w ! i), targetY = homeY (enemies w ! i),
                         speed = ENEMY_SPEED_PER_TICK * ENEMY_RETURN_SPEED_MULTIPLIER\<rparr>
                   else \<lparr>targetX = player_x (players wi ! k), targetY = player_y (players wi ! k),
                         speed = ENEMY_SPEED_PER_TICK\<rparr>))
         \<and> (let pursuit = choosePursuit (enemies w ! i) (players wi);
                 moved = movePointToward (enemy_x (enemies w ! i)) (enemy_y (enemies w ! i))
                           (targetX pursuit) (targetY pursuit) (speed pursuit)
             in enemies w' ! i =
                  (if mv_moved moved
                   then (enemies w ! i)\<lparr>enemy_x := mv_x moved, enemy_y := mv_y moved\<rparr>
                   else enemies w ! i)
                \<and> (mv_moved moved \<longrightarrow> changed)))"
proof (intro conjI impI)
  assume "players w = []"
  then have "updateEnemies w = (False, w, [])" by (simp add: updateEnemies_def)
  then show "\<not> changed" "w' = w" "effects = []" using assms(4) by simp_all
next
  assume ne: "players w \<noteq> []"
  note U = updateEnemies_enemy[OF ne assms(1,3,4)]
  show "map connectionId (players wi) = map connectionId (players w)" by (rule U(3))
  show "\<exists>k<length (players wi).
              (\<forall>j<length (players wi).
                 sqrt ((player_x (players wi ! k) - enemy_x (enemies w ! i))\<^sup>2
                       + (player_y (players wi ! k) - enemy_y (enemies w ! i))\<^sup>2)
                 \<le> sqrt ((player_x (players wi ! j) - enemy_x (enemies w ! i))\<^sup>2
                         + (player_y (players wi ! j) - enemy_y (enemies w ! i))\<^sup>2))
              \<and> (\<forall>j<k.
                 sqrt ((player_x (players wi ! k) - enemy_x (enemies w ! i))\<^sup>2
                       + (player_y (players wi ! k) - enemy_y (enemies w ! i))\<^sup>2)
                 < sqrt ((player_x (players wi ! j) - enemy_x (enemies w ! i))\<^sup>2
                         + (player_y (players wi ! j) - enemy_y (enemies w ! i))\<^sup>2))
              \<and> choosePursuit (enemies w ! i) (players wi) =
                  (if sqrt ((homeX (enemies w ! i) - enemy_x (enemies w ! i))\<^sup>2
                            + (homeY (enemies w ! i) - enemy_y (enemies w ! i))\<^sup>2)
                        > territoryRadius (enemies w ! i) * 1.35
                   then \<lparr>targetX = homeX (enemies w ! i), targetY = homeY (enemies w ! i),
                         speed = ENEMY_SPEED_PER_TICK * ENEMY_RETURN_SPEED_MULTIPLIER\<rparr>
                   else \<lparr>targetX = player_x (players wi ! k), targetY = player_y (players wi ! k),
                         speed = ENEMY_SPEED_PER_TICK\<rparr>)"
    by (rule choosePursuit_first_nearest[OF assms(2) U(4)])
  define m where "m = movePointToward (enemy_x (enemies w ! i)) (enemy_y (enemies w ! i))
                           (targetX (choosePursuit (enemies w ! i) (players wi)))
                           (targetY (choosePursuit (enemies w ! i) (players wi)))
                           (speed (choosePursuit (enemies w ! i) (players wi)))"
  have s: "stepEnemy (enemies w ! i) (players wi)
             = (if mv_moved m then ((enemies w ! i)\<lparr>enemy_x := mv_x m, enemy_y := mv_y m\<rparr>, True)
                else (enemies w ! i, False))"
    unfolding m_def by (rule stepEnemy_eq)
  have 1: "enemies w' ! i = (if mv_moved m then (enemies w ! i)\<lparr>enemy_x := mv_x m, enemy_y := mv_y m\<rparr>
                   else enemies w ! i)"
    unfolding U(1) s by simp
  have 2: "mv_moved m \<longrightarrow> changed" using U(2) unfolding s by simp
  show "let pursuit = choosePursuit (enemies w ! i) (players wi);
                 moved = movePointToward (enemy_x (enemies w ! i)) (enemy_y (enemies w ! i))
                           (targetX pursuit) (targetY pursuit) (speed pursuit)
             in enemies w' ! i =
                  (if mv_moved moved
                   then (enemies w ! i)\<lparr>enemy_x := mv_x moved, enemy_y := mv_y moved\<rparr>
                   else enemies w ! i)
                \<and> (mv_moved moved \<longrightarrow> changed)"
    unfolding Let_def m_def[symmetric] by (rule conjI[OF 1 2])
qed

lemma sqrt_10000: "sqrt 10000 = 100"
  by (rule real_sqrt_unique) simp_all

lemma stepEnemy_awayEnemy:
  "stepEnemy awayEnemy [] = (awayEnemy\<lparr>enemy_y := 123.4\<rparr>, True)"
  by (simp add: stepEnemy_def choosePursuit_def closestPlayerTo_def awayEnemy_def
        movePointToward_def sqrt_10000 resolveBlockedMovement_def tryOrder_def clamp_def
        unblocked_near_border Let_def)

text \<open>
  The claim as stated fails at \<open>idleWorld\<close>: the branch for "no closest player" would send
  the enemy from \<open>(100, 115)\<close> to \<open>(100, 123.4)\<close>, but the tick returns before the loop and
  the enemy stays where it is.
\<close>

theorem enemy_pursuit_counterexample:
  "players idleWorld = [] \<and> enemies idleWorld = [awayEnemy]
   \<and> choosePursuit awayEnemy (players idleWorld)
        = \<lparr>targetX = 100, targetY = 215,
           speed = ENEMY_SPEED_PER_TICK * ENEMY_RETURN_SPEED_MULTIPLIER\<rparr>
   \<and> stepEnemy awayEnemy (players idleWorld) = (awayEnemy\<lparr>enemy_y := 123.4\<rparr>, True)
   \<and> updateEnemies idleWorld = (False, idleWorld, [])
   \<and> enemyTicker idleWorld 0 = (idleWorld, [])
   \<and> enemy_y (enemies (fst (enemyTicker idleWorld 0)) ! 0) = 115
   \<and> \<not> (\<forall>w. players w = [] \<longrightarrow>
            enemies (fst (enemyTicker w 0)) = map (\<lambda>e. fst (stepEnemy e (players w))) (enemies w))"
proof -
  have p: "players idleWorld = []" "enemies idleWorld = [awayEnemy]"
    by (simp_all add: idleWorld_def)
  have c: "choosePursuit awayEnemy [] = \<lparr>targetX = 100, targetY = 215, speed = 7 * 1.2\<rparr>"
    by (simp add: choosePursuit_def closestPlayerTo_def awayEnemy_def)
  have u: "updateEnemies idleWorld = (False, idleWorld, [])"
    by (simp add: updateEnemies_def p)
  have t: "enemyTicker idleWorld 0 = (idleWorld, [])"
    by (simp add: enemyTicker_def u)
  have y: "enemy_y (enemies (fst (enemyTicker idleWorld 0)) ! 0) = 115"
    by (simp add: t p awayEnemy_def)
  have n: "\<not> (\<forall>w. players w = [] \<longrightarrow>
            enemies (fst (enemyTicker w 0)) = map (\<lambda>e. fst (stepEnemy e (players w))) (enemies w))"
  proof
    assume "\<forall>w. players w = [] \<longrightarrow>
            enemies (fst (enemyTicker w 0)) = map (\<lambda>e. fst (stepEnemy e (players w))) (enemies w)"
    then have "enemies (fst (enemyTicker idleWorld 0))
                 = map (\<lambda>e. fst (stepEnemy e (players idleWorld))) (enemies idleWorld)"
      using p(1) by blast
    then have "awayEnemy = awayEnemy\<lparr>enemy_y := 123.4\<rparr>"
      by (simp add: t p stepEnemy_awayEnemy)
    then have "enemy_y awayEnemy = enemy_y (awayEnemy\<lparr>enemy_y := 123.4\<rparr>)" by simp
    then show False by (simp add: awayEnemy_def)
  qed
  show ?thesis using p c u t y n stepEnemy_awayEnemy by simp
qed

lemma sqrt_3553225: "sqrt 3553225 = 1885"
  by (rule real_sqrt_unique) simp_all

lemma stepEnemy_farEnemy:
  "stepEnemy farEnemy (players farWorld) = (farEnemy\<lparr>enemy_y := 123.4\<rparr>, True)"
  by (simp add: stepEnemy_def choosePursuit_def closestPlayerTo_def closestPlayerStep_def
        farWorld_def hitWorld_def sampleWorld_def samplePlayer_def samplePlayer2_def farEnemy_def
        movePointToward_def sqrt_3553225 resolveBlockedMovement_def tryOrder_def clamp_def
        unblocked_near_border Let_def)

text \<open>
  At \<open>hitWorld\<close> the enemy, at home, chases the first connection at speed 7 and ends at
  \<open>(100, 108)\<close>; at \<open>farWorld\<close> the enemy, beyond its leash, returns home at speed 8.4
  and ends at \<open>(100, 123.4)\<close>; at \<open>idleWorld\<close> nothing happens.
\<close>

theorem enemy_pursuit_witness:
  "0 < length (enemies hitWorld) \<and> 0 \<le> territoryRadius (enemies hitWorld ! 0)
   \<and> players hitWorld \<noteq> []
   \<and> choosePursuit sampleEnemy (players hitWorld)
        = \<lparr>targetX = 100, targetY = 100, speed = ENEMY_SPEED_PER_TICK\<rparr>
   \<and> enemies (fst (snd (updateEnemies hitWorld))) ! 0 = sampleEnemy\<lparr>enemy_y := 108\<rparr>
   \<and> fst (updateEnemies hitWorld)
   \<and> 0 < length (enemies farWorld) \<and> 0 \<le> territoryRadius (enemies farWorld ! 0)
   \<and> players farWorld \<noteq> []
   \<and> choosePursuit farEnemy (players farWorld)
        = \<lparr>targetX = 100, targetY = 2000,
           speed = ENEMY_SPEED_PER_TICK * ENEMY_RETURN_SPEED_MULTIPLIER\<rparr>
   \<and> enemies (fst (snd (updateEnemies farWorld))) ! 0 = farEnemy\<lparr>enemy_y := 123.4\<rparr>
   \<and> fst (updateEnemies farWorld)
   \<and> players idleWorld = []
   \<and> updateEnemies idleWorld = (False, idleWorld, [])"
proof -
  have ps: "players hitWorld = [samplePlayer, samplePlayer2\<lparr>player_y := 130\<rparr>]"
    and es: "enemies hitWorld = [sampleEnemy]"
    by (simp_all add: hitWorld_def)
  have e0: "enemies hitWorld ! 0 = sampleEnemy" by (simp add: es)
  have h1: "0 < length (enemies hitWorld)" by (simp add: es)
  have h2: "0 \<le> territoryRadius (enemies hitWorld ! 0)" by (simp add: e0 sampleEnemy_def)
  have h3: "players hitWorld \<noteq> []" by (simp add: ps)
  have f: "\<And>w. foldl enemyTurn (w, [], False) [0..<0] = (w, [], False)" by simp
  have r: "\<And>w. updateEnemies w = (fst (updateEnemies w),
             fst (snd (updateEnemies w)), snd (snd (updateEnemies w)))" by simp
  have c1: "choosePursuit sampleEnemy (players hitWorld)
        = \<lparr>targetX = 100, targetY = 100, speed = 7\<rparr>"
    by (simp add: choosePursuit_def closestPlayerTo_def closestPlayerStep_def ps
          sampleEnemy_def samplePlayer_def samplePlayer2_def Let_def)
  note T1 = enemy_pursuit[OF h1 h2 f r]
  have s1: "enemies (fst (snd (updateEnemies hitWorld))) ! 0
              = fst (stepEnemy (enemies hitWorld ! 0) (players hitWorld))
            \<and> (snd (stepEnemy (enemies hitWorld ! 0) (players hitWorld)) \<longrightarrow> fst (updateEnemies hitWorld))"
    using T1 h3 unfolding stepEnemy_eq Let_def by simp
  have a1: "enemies (fst (snd (updateEnemies hitWorld))) ! 0 = sampleEnemy\<lparr>enemy_y := 108\<rparr>"
    and b1: "fst (updateEnemies hitWorld)"
    using s1 unfolding e0 stepEnemy_hitWorld by simp_all
  have psf: "players farWorld = [samplePlayer, samplePlayer2\<lparr>player_y := 130\<rparr>]"
    and esf: "enemies farWorld = [farEnemy]"
    by (simp_all add: farWorld_def hitWorld_def)
  have e0f: "enemies farWorld ! 0 = farEnemy" by (simp add: esf)
  have g1: "0 < length (enemies farWorld)" by (simp add: esf)
  have g2: "0 \<le> territoryRadius (enemies farWorld ! 0)" by (simp add: e0f farEnemy_def)
  have g3: "players farWorld \<noteq> []" by (simp add: psf)
  have c2: "choosePursuit farEnemy (players farWorld)
        = \<lparr>targetX = 100, targetY = 2000, speed = 7 * 1.2\<rparr>"
    by (simp add: choosePursuit_def closestPlayerTo_def closestPlayerStep_def psf
          farEnemy_def samplePlayer_def samplePlayer2_def Let_def)
  note T2 = enemy_pursuit[OF g1 g2 f r]
  have s2: "enemies (fst (snd (updateEnemies farWorld))) ! 0
              = fst (stepEnemy (enemies farWorld ! 0) (players farWorld))
            \<and> (snd (stepEnemy (enemies farWorld ! 0) (players farWorld)) \<longrightarrow> fst (updateEnemies farWorld))"
    using T2 g3 unfolding stepEnemy_eq Let_def by simp
  have a2: "enemies (fst (snd (updateEnemies farWorld))) ! 0 = farEnemy\<lparr>enemy_y := 123.4\<rparr>"
    and b2: "fst (updateEnemies farWorld)"
    using s2 unfolding e0f stepEnemy_farEnemy by simp_all
  have p: "players idleWorld = []" and ei: "enemies idleWorld = [awayEnemy]"
    by (simp_all add: idleWorld_def)
  have i1: "0 < length (enemies idleWorld)" by (simp add: ei)
  have i2: "0 \<le> territoryRadius (enemies idleWorld ! 0)" by (simp add: ei awayEnemy_def)
  note T3 = enemy_pursuit[OF i1 i2 f r]
  have "\<not> fst (updateEnemies idleWorld) \<and> fst (snd (updateEnemies idleWorld)) = idleWorld
        \<and> snd (snd (updateEnemies idleWorld)) = []"
    using T3 p by blast
  then have u: "updateEnemies idleWorld = (False, idleWorld, [])"
    by (metis prod.collapse)
  show ?thesis
    by (rule conjI[OF h1 conjI[OF h2 conjI[OF h3 conjI[OF c1 conjI[OF a1 conjI[OF b1
          conjI[OF g1 conjI[OF g2 conjI[OF g3 conjI[OF c2 conjI[OF a2 conjI[OF b2
          conjI[OF p u]]]]]]]]]]]]])
qed

section \<open>Move intents: what they may change\<close>

lemma storePlayer_same_position:
  assumes "\<forall>p\<in>set (players w). connectionId p = connectionId player \<longrightarrow>
             player_x p = player_x player \<and> player_y p = player_y player"
  shows "standing (storePlayer player w) = standing w"
  using assms by (auto simp: standing_def storePlayer_def)

lemma storePlayer_fields:
  "enemies (storePlayer player w) = enemies w \<and> powerups (storePlayer player w) = powerups w
   \<and> grasses (storePlayer player w) = grasses w \<and> entropy (storePlayer player w) = entropy w
   \<and> userScores (storePlayer player w) = userScores w
   \<and> userColors (storePlayer player w) = userColors w
   \<and> pendingJoinTimers (storePlayer player w) = pendingJoinTimers w
   \<and> map connectionId (players (storePlayer player w)) = map connectionId (players w)"
  by (auto simp: storePlayer_def)

lemma applyPowerup_fields:
  "connectionId (applyPowerup p t now) = connectionId p \<and> userId (applyPowerup p t now) = userId p
   \<and> player_x (applyPowerup p t now) = player_x p \<and> player_y (applyPowerup p t now) = player_y p
   \<and> score (applyPowerup p t now) = score p"
  by (simp add: applyPowerup_def)

lemma inStep_standing:
  assumes "inStep (pl, w)" "standing w' = standing w" "connectionId pl' = connectionId pl"
    "player_x pl' = player_x pl" "player_y pl' = player_y pl"
  shows "inStep (pl', w')"
  unfolding inStep_def fst_conv snd_conv
proof (intro ballI impI)
  fix p assume p: "p \<in> set (players w')" "connectionId p = connectionId pl'"
  from p(1) have "(connectionId p, player_x p, player_y p) \<in> set (standing w')"
    unfolding standing_def set_map by (rule imageI)
  then have "(connectionId p, player_x p, player_y p) \<in> set (standing w)"
    by (simp only: assms(2))
  then obtain q where q: "q \<in> set (players w)" "connectionId q = connectionId p"
    "player_x q = player_x p" "player_y q = player_y p"
    by (auto simp: standing_def)
  have "player_x q = player_x pl \<and> player_y q = player_y pl"
    using assms(1) q(1,2) p(2) assms(3) by (simp add: inStep_def)
  then show "player_x p = player_x pl' \<and> player_y p = player_y pl'"
    using q assms(4,5) by simp
qed

lemma powerupStep_frame:
  assumes "inStep st"
  shows "pickupFrame st (powerupStep now st i) \<and> inStep (powerupStep now st i)"
proof -
  obtain pl w where st: "st = (pl, w)" by (cases st)
  let ?hit = "(player_x pl - powerup_x (powerups w ! i)) * (player_x pl - powerup_x (powerups w ! i))
        + (player_y pl - powerup_y (powerups w ! i)) * (player_y pl - powerup_y (powerups w ! i))
        \<le> (PLAYER_RADIUS + POWERUP_RADIUS) ^ 2"
  show ?thesis
  proof (cases ?hit)
    case False
    then have "powerupStep now st i = st" by (simp add: powerupStep_def st Let_def)
    then show ?thesis using assms by (simp add: pickupFrame_def)
  next
    case True
    define pl' where "pl' = applyPowerup pl (powerup_type (powerups w ! i)) now"
    define w1 where "w1 = storePlayer pl' w"
    obtain spot g' where sp: "spawnPowerup w1 (powerups w1) (Some i) (entropy w1) = (spot, g')"
      by (cases "spawnPowerup w1 (powerups w1) (Some i) (entropy w1)")
    have r: "powerupStep now st i = (pl', w1\<lparr>powerups := (powerups w1)[i := spot], entropy := g'\<rparr>)"
      using True by (simp add: powerupStep_def st Let_def pl'_def[symmetric] w1_def[symmetric] sp)
    note A = applyPowerup_fields[of pl "powerup_type (powerups w ! i)" now, folded pl'_def]
    have "\<forall>p\<in>set (players w). connectionId p = connectionId pl' \<longrightarrow>
             player_x p = player_x pl' \<and> player_y p = player_y pl'"
      using assms A by (simp add: inStep_def st)
    then have s1: "standing w1 = standing w" unfolding w1_def by (rule storePlayer_same_position)
    have s2: "standing (w1\<lparr>powerups := (powerups w1)[i := spot], entropy := g'\<rparr>) = standing w"
      using s1 by (simp add: standing_def)
    have f: "pickupFrame st (powerupStep now st i)"
      unfolding r unfolding st pickupFrame_def
      using A s2 storePlayer_fields[of pl' w, folded w1_def]
      by simp
    have "inStep (pl', w1\<lparr>powerups := (powerups w1)[i := spot], entropy := g'\<rparr>)"
      using inStep_standing[OF assms[unfolded st] s2] A by simp
    then show ?thesis using f r by simp
  qed
qed

lemma pickupFrame_refl: "pickupFrame st st"
  by (simp add: pickupFrame_def)

lemma pickupFrame_trans: "pickupFrame a b \<Longrightarrow> pickupFrame b c \<Longrightarrow> pickupFrame a c"
  by (simp add: pickupFrame_def)

lemma powerupSteps_frame:
  assumes "inStep st"
  shows "pickupFrame st (foldl (powerupStep now) st is) \<and> inStep (foldl (powerupStep now) st is)"
  using assms
proof (induction "is" arbitrary: st)
  case Nil
  then show ?case by (simp add: pickupFrame_refl)
next
  case (Cons i "is")
  note S = powerupStep_frame[OF Cons.prems, of now i]
  from Cons.IH[of "powerupStep now st i"] S
  show ?case using pickupFrame_trans[of st "powerupStep now st i"] by simp
qed

lemma respawnGrass_frame: "grassFrame w (respawnGrass i w)"
  by (simp add: respawnGrass_def grassFrame_def split: prod.splits)

lemma grassFrame_trans: "grassFrame a b \<Longrightarrow> grassFrame b c \<Longrightarrow> grassFrame a c"
  by (simp add: grassFrame_def)

lemma grassStep_frame: "grassFrame (fst st) (fst (grassStep player now st i))"
proof -
  obtain w n where st: "st = (w, n)" by (cases st)
  have u: "\<And>g. grassFrame w (w\<lparr>grasses := (grasses w)[i := g]\<rparr>)"
    by (simp add: grassFrame_def)
  have "grassFrame w (fst (grassStep player now (w, n) i))"
    unfolding grassStep_def Let_def prod.case
    using respawnGrass_frame u grassFrame_trans[OF u respawnGrass_frame]
    by (auto split: if_splits)
  then show ?thesis by (simp add: st)
qed

lemma grassSteps_frame: "grassFrame (fst st) (fst (foldl (grassStep player now) st is))"
proof (induction "is" arbitrary: st)
  case Nil
  then show ?case by (simp add: grassFrame_def)
next
  case (Cons i "is")
  show ?case
    using grassFrame_trans[OF grassStep_frame[of st player now i]
            Cons.IH[of "grassStep player now st i"]]
    by simp
qed

lemma getPlayer_unique:
  assumes "getPlayer w peer = Some player" "distinct (map connectionId (players w))"
    "p \<in> set (players w)" "connectionId p = connectionId player"
  shows "p = player"
proof -
  have "player \<in> set (players w)" using getPlayer_mem[OF assms(1)] by simp
  then show ?thesis using assms(2,3,4) by (meson distinct_map inj_onD)
qed

text \<open>
  The position a move intent gives the handler's player, and what else the intent has
  done when scoring begins.
\<close>

lemma moveAndCollect_frame:
  assumes "getPlayer w peer = Some player"
    "moveAndCollect w player dx dy now = (player2, w3, n)"
  shows "userId player2 = userId player \<and> connectionId player2 = connectionId player
     \<and> score player2 = score player
     \<and> enemies w3 = enemies w \<and> userScores w3 = userScores w \<and> userColors w3 = userColors w
     \<and> pendingJoinTimers w3 = pendingJoinTimers w
     \<and> standing w3 = map (\<lambda>p. if connectionId p = peer
            then (peer,
                  res_x (resolveBlockedMovement (player_x player) (player_y player)
                    (player_x player + dx * getPlayerMoveSpeed player now
                       * (if dx \<noteq> 0 \<and> dy \<noteq> 0 then sqrt (1 / 2) else 1))
                    (player_y player + dy * getPlayerMoveSpeed player now
                       * (if dx \<noteq> 0 \<and> dy \<noteq> 0 then sqrt (1 / 2) else 1)) PLAYER_RADIUS),
                  res_y (resolveBlockedMovement (player_x player) (player_y player)
                    (player_x player + dx * getPlayerMoveSpeed player now
                       * (if dx \<noteq> 0 \<and> dy \<noteq> 0 then sqrt (1 / 2) else 1))
                    (player_y player + dy * getPlayerMoveSpeed player now
                       * (if dx \<noteq> 0 \<and> dy \<noteq> 0 then sqrt (1 / 2) else 1)) PLAYER_RADIUS))
            else (connectionId p, player_x p, player_y p)) (players w)"
proof -
  define r where "r = resolveBlockedMovement (player_x player) (player_y player)
                    (player_x player + dx * getPlayerMoveSpeed player now
                       * (if dx \<noteq> 0 \<and> dy \<noteq> 0 then sqrt (1 / 2) else 1))
                    (player_y player + dy * getPlayerMoveSpeed player now
                       * (if dx \<noteq> 0 \<and> dy \<noteq> 0 then sqrt (1 / 2) else 1)) PLAYER_RADIUS"
  define player1 where "player1 = player\<lparr>player_x := res_x r, player_y := res_y r\<rparr>"
  define w1 where "w1 = storePlayer player1 w"
  define st2 where "st2 = foldl (powerupStep now) (player1, w1) [0..<length (powerups w1)]"
  define st3 where "st3 = foldl (grassStep (fst st2) now) (snd st2, 0) [0..<length (grasses (snd st2))]"
  have res: "moveAndCollect w player dx dy now = (fst st2, fst st3, snd st3)"
    unfolding moveAndCollect_def Let_def r_def[symmetric] player1_def[symmetric] w1_def[symmetric]
    by (simp add: st2_def st3_def split: prod.splits)
  then have eq: "player2 = fst st2" "w3 = fst st3" using assms(2) by auto
  have c: "connectionId player = peer" using getPlayer_mem[OF assms(1)] by simp
  have in1: "inStep (player1, w1)"
    by (auto simp: inStep_def w1_def storePlayer_def player1_def)
  note P = powerupSteps_frame[OF in1, of now "[0..<length (powerups w1)]", folded st2_def]
  then have P': "pickupFrame (player1, w1) st2" by simp
  have G: "grassFrame (snd st2) (fst st3)"
    using grassSteps_frame[of "(snd st2, 0)" "fst st2" now "[0..<length (grasses (snd st2))]"]
    by (simp add: st3_def)
  have s1: "standing w1 = map (\<lambda>p. if connectionId p = peer then (peer, res_x r, res_y r)
            else (connectionId p, player_x p, player_y p)) (players w)"
    by (auto simp: standing_def w1_def storePlayer_def player1_def c)
  have "standing (fst st3) = standing (snd st2)" using G by (simp add: grassFrame_def standing_def)
  also have "\<dots> = standing w1" using P' by (simp add: pickupFrame_def)
  finally have st: "standing (fst st3) = standing w1" .
  have f1: "enemies w1 = enemies w \<and> userScores w1 = userScores w \<and> userColors w1 = userColors w
     \<and> pendingJoinTimers w1 = pendingJoinTimers w"
    using storePlayer_fields[of player1 w] by (simp add: w1_def)
  show ?thesis
    unfolding eq st s1 r_def[symmetric]
    using P' G f1 by (simp add: pickupFrame_def grassFrame_def player1_def)
qed

lemma awardPoints_frame:
  assumes "awardPoints player now n w = (w', effs)"
  shows "standing w' = standing w \<and> enemies w' = enemies w
     \<and> pendingJoinTimers w' = pendingJoinTimers w \<and> userColors w' = userColors w
     \<and> (effs = [] \<or> (\<exists>pts. effs = [PersistScoreDelta (userId player) pts]))"
  using assms
  by (auto simp: awardPoints_def Let_def standing_def applyScoreToConnectedPlayers_def
      split: if_splits)

section \<open>Scoring\<close>

lemma pointsFor_eq:
  "1 \<le> n \<Longrightarrow> pointsFor n doubled
     = int n * (if doubled then 2 else 1)
       + (if n \<ge> OVERGROWTH_THRESHOLD then OVERGROWTH_BONUS else 0)"
  by (simp add: pointsFor_def Let_def)

text \<open>
  Claim C6. Take a move intent of a connected player that is not ignored, and let \<open>n\<close> be
  the number of grass items it collects (\<open>touchedGrassCount\<close> when the pickup loops end),
  with \<open>n \<ge> 1\<close>. The points awarded are \<open>n\<close>, times 2 when the player's double buff is
  active at the intent's time (pickups of this intent included), plus \<open>OVERGROWTH_BONUS\<close>,
  not doubled, when \<open>n \<ge> OVERGROWTH_THRESHOLD\<close>. They are added to the user's score as it
  was before the intent; the sum is stored in the user score map and on every live
  connection of the user, and the points are handed to persistence as a delta. The
  intent then ends with the enemy re-check and the broadcast.
\<close>

theorem grass_points:
  assumes "getPlayer w peer = Some player"
    and "moveAxis dxN \<noteq> 0 \<or> moveAxis dyN \<noteq> 0"
    and "moveAndCollect w player (moveAxis dxN) (moveAxis dyN) now = (player2, w3, n)"
    and "1 \<le> n"
  shows "\<exists>w4.
     (let pts = int n * (if doubleUntil player2 > now then 2 else 1)
                + (if n \<ge> OVERGROWTH_THRESHOLD then OVERGROWTH_BONUS else 0);
          before = (case userScores w (userId player) of Some sc \<Rightarrow> sc | None \<Rightarrow> score player)
      in awardPoints player2 now n w3 = (w4, [PersistScoreDelta (userId player) pts])
         \<and> userScores w4 (userId player) = Some (before + pts)
         \<and> (\<forall>p\<in>set (players w4). userId p = userId player \<longrightarrow> score p = before + pts)
         \<and> message w peer (Parsed (Move dxN dyN)) now snapNow
             = Inr (case updateEnemies w4 of (changed, w5, resets) \<Rightarrow>
                      (w5, PersistScoreDelta (userId player) pts # resets
                           @ broadcastWorld w5 snapNow)))"
proof -
  note F = moveAndCollect_frame[OF assms(1,3)]
  define pts where "pts = int n * (if doubleUntil player2 > now then 2 else 1)
                + (if n \<ge> OVERGROWTH_THRESHOLD then OVERGROWTH_BONUS else 0)"
  define before where
    "before = (case userScores w (userId player) of Some sc \<Rightarrow> sc | None \<Rightarrow> score player)"
  have pf: "pointsFor n (doubleUntil player2 > now) = pts"
    using pointsFor_eq[OF assms(4)] by (simp add: pts_def)
  have pos: "0 < pts" using assms(4) by (simp add: pts_def)
  have b: "(case userScores w3 (userId player2) of Some sc \<Rightarrow> sc | None \<Rightarrow> score player2) = before"
    using F by (simp add: before_def split: option.splits)
  define w4 where "w4 = w3\<lparr>userScores := (userScores w3)(userId player \<mapsto> before + pts),
       players := applyScoreToConnectedPlayers (userId player) (before + pts) (players w3)\<rparr>"
  have a: "awardPoints player2 now n w3 = (w4, [PersistScoreDelta (userId player) pts])"
    using pos F b by (simp add: awardPoints_def pf Let_def w4_def)
  have s: "userScores w4 (userId player) = Some (before + pts)" by (simp add: w4_def)
  have c: "\<forall>p\<in>set (players w4). userId p = userId player \<longrightarrow> score p = before + pts"
    by (auto simp: w4_def applyScoreToConnectedPlayers_def)
  have m: "message w peer (Parsed (Move dxN dyN)) now snapNow
             = Inr (case updateEnemies w4 of (changed, w5, resets) \<Rightarrow>
                      (w5, PersistScoreDelta (userId player) pts # resets
                           @ broadcastWorld w5 snapNow))"
    using assms(1,2,3) a
    by (auto simp: message_def handleMove_def Let_def split: prod.splits)
  show ?thesis
    unfolding Let_def pts_def[symmetric] before_def[symmetric]
    using a s c m by blast
qed


lemma moveAndCollect_grassWorld:
  "moveAndCollect grassWorld samplePlayer 1 0 6000
     = (samplePlayer\<lparr>player_x := 110, player_y := 100\<rparr>,
        grassWorld\<lparr>players := [samplePlayer\<lparr>player_x := 110, player_y := 100\<rparr>, samplePlayer2],
                   grasses := [\<lparr>grass_x = 14, grass_y = 14\<rparr>, \<lparr>grass_x = 5000, grass_y = 5000\<rparr>],
                   entropy := sampleEntropy\<lparr>used := 2\<rparr>\<rparr>,
        1)"
proof -
  have r: "resolveBlockedMovement 100 100 110 100 16
             = \<lparr>res_x = 110, res_y = 100, movedSquared = 100\<rparr>"
    by (simp add: resolveBlockedMovement_def tryOrder_def clamp_def unblocked_near_border Let_def)
  define w1 where "w1 = grassWorld\<lparr>players := [samplePlayer\<lparr>player_x := 110, player_y := 100\<rparr>, samplePlayer2]\<rparr>"
  have s: "storePlayer (samplePlayer\<lparr>player_x := 110, player_y := 100\<rparr>) grassWorld = w1"
    by (simp add: storePlayer_def w1_def grassWorld_def sampleWorld_def samplePlayer_def samplePlayer2_def)
  have f: "powerups w1 = []" "entropy w1 = sampleEntropy"
    "grasses w1 = [\<lparr>grass_x = 112, grass_y = 100\<rparr>, \<lparr>grass_x = 5000, grass_y = 5000\<rparr>]"
    "players w1 = [samplePlayer\<lparr>player_x := 110, player_y := 100\<rparr>, samplePlayer2]"
    "enemies w1 = []"
    by (simp_all add: w1_def grassWorld_def sampleWorld_def)
  have sg: "spawnGrass w1 (grasses w1) (Some 0) sampleEntropy
              = (\<lparr>grass_x = 14, grass_y = 14\<rparr>, sampleEntropy\<lparr>used := 2\<rparr>)"
    by (simp add: spawnGrass_def numeral_eq_Suc randomBetween_def Math_random_def
          sampleEntropy_def grassCandidateFree_def f samplePlayer_def
          samplePlayer2_def tooClose_def unblocked_near_border)
  have g0: "grassStep (samplePlayer\<lparr>player_x := 110, player_y := 100\<rparr>) 6000 (w1, 0) 0
              = (w1\<lparr>grasses := [\<lparr>grass_x = 14, grass_y = 14\<rparr>, \<lparr>grass_x = 5000, grass_y = 5000\<rparr>],
                    entropy := sampleEntropy\<lparr>used := 2\<rparr>\<rparr>, 1)"
    by (simp add: grassStep_def Let_def f getGrassTouchRadius_def respawnGrass_def
          sg[unfolded f(3)] samplePlayer_def)
  have g1: "grassStep (samplePlayer\<lparr>player_x := 110, player_y := 100\<rparr>) 6000
              (w1\<lparr>grasses := [\<lparr>grass_x = 14, grass_y = 14\<rparr>, \<lparr>grass_x = 5000, grass_y = 5000\<rparr>],
                    entropy := sampleEntropy\<lparr>used := 2\<rparr>\<rparr>, 1) 1
              = (w1\<lparr>grasses := [\<lparr>grass_x = 14, grass_y = 14\<rparr>, \<lparr>grass_x = 5000, grass_y = 5000\<rparr>],
                    entropy := sampleEntropy\<lparr>used := 2\<rparr>\<rparr>, 1)"
    by (simp add: grassStep_def Let_def getGrassTouchRadius_def getGrassMagnetRadius_def samplePlayer_def)
  have sp: "getPlayerMoveSpeed samplePlayer 6000 = 10" "player_x samplePlayer = 100"
    "player_y samplePlayer = 100"
    by (simp_all add: getPlayerMoveSpeed_def samplePlayer_def)
  have up: "[0..<2] = [0, 1]" by (simp add: upt_rec)
  have "moveAndCollect grassWorld samplePlayer 1 0 6000
     = (samplePlayer\<lparr>player_x := 110, player_y := 100\<rparr>,
        w1\<lparr>grasses := [\<lparr>grass_x = 14, grass_y = 14\<rparr>, \<lparr>grass_x = 5000, grass_y = 5000\<rparr>],
                    entropy := sampleEntropy\<lparr>used := 2\<rparr>\<rparr>, 1)"
    unfolding moveAndCollect_def
    by (simp add: Let_def sp r s f up g0 g1[unfolded One_nat_def])
  then show ?thesis by (simp add: w1_def)
qed

text \<open>
  At \<open>grassWorld\<close>: the move \<open>(1, 0)\<close> of connection \<open>c1\<close> at time 6000 collects one
  item; the score of \<open>u1\<close> goes from 0 to 1 on both connections.
\<close>

theorem grass_points_witness:
  "getPlayer grassWorld ''c1'' = Some samplePlayer
   \<and> moveAxis (Finite 1) = 1 \<and> moveAxis (Finite 0) = 0
   \<and> snd (snd (moveAndCollect grassWorld samplePlayer 1 0 6000)) = 1
   \<and> userScores grassWorld ''u1'' = Some 0
   \<and> (\<exists>w4. awardPoints (fst (moveAndCollect grassWorld samplePlayer 1 0 6000)) 6000 1
                  (fst (snd (moveAndCollect grassWorld samplePlayer 1 0 6000)))
                = (w4, [PersistScoreDelta ''u1'' 1])
             \<and> userScores w4 ''u1'' = Some 1
             \<and> (\<forall>p\<in>set (players w4). score p = 1))"
proof -
  have g: "getPlayer grassWorld ''c1'' = Some samplePlayer"
    by (simp add: getPlayer_def grassWorld_def sampleWorld_def samplePlayer_def)
  have a: "moveAxis (Finite 1) = 1" "moveAxis (Finite 0) = 0"
    by (simp_all add: moveAxis_def clamp_def)
  have nz: "moveAxis (Finite 1) \<noteq> 0 \<or> moveAxis (Finite 0) \<noteq> 0" by (simp add: a)
  have m: "moveAndCollect grassWorld samplePlayer (moveAxis (Finite 1)) (moveAxis (Finite 0)) 6000
     = (samplePlayer\<lparr>player_x := 110, player_y := 100\<rparr>,
        grassWorld\<lparr>players := [samplePlayer\<lparr>player_x := 110, player_y := 100\<rparr>, samplePlayer2],
                   grasses := [\<lparr>grass_x = 14, grass_y = 14\<rparr>, \<lparr>grass_x = 5000, grass_y = 5000\<rparr>],
                   entropy := sampleEntropy\<lparr>used := 2\<rparr>\<rparr>,
        1)"
    using moveAndCollect_grassWorld by (simp add: a)
  have u: "userId samplePlayer = ''u1''" "userId samplePlayer2 = ''u1''"
    "doubleUntil samplePlayer = 0" "score samplePlayer = 0"
    "userScores grassWorld ''u1'' = Some 0"
    by (simp_all add: samplePlayer_def samplePlayer2_def grassWorld_def sampleWorld_def)
  from grass_points[OF g nz m, of 7] obtain w4 where
    w4: "awardPoints (samplePlayer\<lparr>player_x := 110, player_y := 100\<rparr>) 6000 1
           (grassWorld\<lparr>players := [samplePlayer\<lparr>player_x := 110, player_y := 100\<rparr>, samplePlayer2],
                   grasses := [\<lparr>grass_x = 14, grass_y = 14\<rparr>, \<lparr>grass_x = 5000, grass_y = 5000\<rparr>],
                   entropy := sampleEntropy\<lparr>used := 2\<rparr>\<rparr>)
          = (w4, [PersistScoreDelta ''u1'' 1])"
      "userScores w4 ''u1'' = Some 1"
      "\<forall>p\<in>set (players w4). userId p = ''u1'' \<longrightarrow> score p = 1"
    by (auto simp: u Let_def)
  have ps: "players w4 = applyScoreToConnectedPlayers ''u1'' 1
              [samplePlayer\<lparr>player_x := 110, player_y := 100\<rparr>, samplePlayer2]"
    using w4(1) by (auto simp: awardPoints_def pointsFor_def Let_def u split: if_splits)
  have all: "\<forall>p\<in>set (players w4). score p = 1"
    unfolding ps by (simp add: applyScoreToConnectedPlayers_def u)
  show ?thesis
    using g a w4(1,2) all u(5) by (auto simp: moveAndCollect_grassWorld)
qed

section \<open>Movement keeps players and enemies placed\<close>

lemma placedFrame_refl: "placedFrame w w"
  by (simp add: placedFrame_def list_all2_same)

lemma placedFrame_trans:
  assumes "placedFrame a b" "placedFrame b c"
  shows "placedFrame a c"
proof -
  note A = assms(1)[unfolded placedFrame_def] and B = assms(2)[unfolded placedFrame_def]
  have P: "list_all2 (\<lambda>p p'. connectionId p' = connectionId p \<and> (playerPlaced p \<longrightarrow> playerPlaced p'))
        (players a) (players c)"
  proof (rule list_all2_trans[OF _ conjunct1[OF A] conjunct1[OF B]])
    fix p q r :: ServerPlayer
    assume "connectionId q = connectionId p \<and> (playerPlaced p \<longrightarrow> playerPlaced q)"
      "connectionId r = connectionId q \<and> (playerPlaced q \<longrightarrow> playerPlaced r)"
    then show "connectionId r = connectionId p \<and> (playerPlaced p \<longrightarrow> playerPlaced r)" by simp
  qed
  have E: "list_all2 (\<lambda>e e'. enemy_id e' = enemy_id e \<and> (enemyPlaced e \<longrightarrow> enemyPlaced e'))
          (enemies a) (enemies c)"
  proof (rule list_all2_trans[OF _ conjunct2[OF A] conjunct2[OF B]])
    fix p q r :: EnemySpot
    assume "enemy_id q = enemy_id p \<and> (enemyPlaced p \<longrightarrow> enemyPlaced q)"
      "enemy_id r = enemy_id q \<and> (enemyPlaced q \<longrightarrow> enemyPlaced r)"
    then show "enemy_id r = enemy_id p \<and> (enemyPlaced p \<longrightarrow> enemyPlaced r)" by simp
  qed
  show ?thesis using P E by (simp add: placedFrame_def)
qed

lemma placedFrame_ids:
  assumes "placedFrame w w'"
  shows "map connectionId (players w') = map connectionId (players w)"
proof -
  have "list_all2 (\<lambda>p p'. connectionId p' = connectionId p) (players w) (players w')"
    using assms unfolding placedFrame_def by (auto elim: list_all2_mono)
  then show ?thesis by (induction rule: list_all2_induct) auto
qed

lemma enemyMoved_id: "enemyMoved e e' \<Longrightarrow> enemy_id e' = enemy_id e"
  unfolding enemyMoved_def by (metis EnemySpot.select_convs(1) EnemySpot.surjective EnemySpot.update_convs(2,3))

lemma tickFrame_placed:
  assumes "tickFrame st st'"
  shows "placedFrame (fst st) (fst st')"
proof -
  have P: "playersFrame (players (fst st)) (players (fst st'))"
    and E: "enemiesFrame (enemies (fst st)) (enemies (fst st'))"
    using assms by (simp_all add: tickFrame_def)
  have 1: "list_all2 (\<lambda>p p'. connectionId p' = connectionId p \<and> (playerPlaced p \<longrightarrow> playerPlaced p'))
        (players (fst st)) (players (fst st'))"
    using P unfolding playersFrame_def
    by (rule list_all2_mono) (auto dest: playerMoved_fields)
  have 2: "list_all2 (\<lambda>e e'. enemy_id e' = enemy_id e \<and> (enemyPlaced e \<longrightarrow> enemyPlaced e'))
          (enemies (fst st)) (enemies (fst st'))"
    using E unfolding enemiesFrame_def
    by (rule list_all2_mono) (auto dest: enemyMoved_id)
  show ?thesis using 1 2 by (simp add: placedFrame_def)
qed

lemma same_standing_placed:
  assumes "standing w' = standing w" "enemies w' = enemies w"
  shows "placedFrame w w'"
proof -
  have len: "length (players w') = length (players w)"
    using assms(1) by (metis length_map standing_def)
  have "\<forall>i<length (players w). connectionId (players w' ! i) = connectionId (players w ! i)
        \<and> player_x (players w' ! i) = player_x (players w ! i)
        \<and> player_y (players w' ! i) = player_y (players w ! i)"
  proof (intro allI impI)
    fix i assume i: "i < length (players w)"
    have "standing w' ! i = standing w ! i" using assms(1) by simp
    then show "connectionId (players w' ! i) = connectionId (players w ! i)
        \<and> player_x (players w' ! i) = player_x (players w ! i)
        \<and> player_y (players w' ! i) = player_y (players w ! i)"
      using i len by (simp add: standing_def)
  qed
  then have "list_all2 (\<lambda>p p'. connectionId p' = connectionId p \<and> (playerPlaced p \<longrightarrow> playerPlaced p'))
        (players w) (players w')"
    using len by (simp add: list_all2_conv_all_nth playerPlaced_def)
  then show ?thesis using assms(2) by (simp add: placedFrame_def list_all2_same)
qed

lemma updateEnemies_placed:
  assumes "updateEnemies w = (changed, w', effects)"
  shows "placedFrame w w' \<and> pendingJoinTimers w' = pendingJoinTimers w"
proof (cases "players w = [] \<or> enemies w = []")
  case True
  then have "w' = w" using assms by (auto simp: updateEnemies_def)
  then show ?thesis by (simp add: placedFrame_refl)
next
  case False
  obtain w1 hits ch where l: "enemyLoop w = (w1, hits, ch)" by (cases "enemyLoop w") auto
  obtain w2 effs where r: "resetAll hits w1 = (w2, effs)" by (cases "resetAll hits w1")
  have u: "w' = w2" using assms False l r by (simp add: updateEnemies_def)
  note T = enemyLoop_frame[of w, unfolded l]
  have 1: "placedFrame w w1" using tickFrame_placed[OF T] by simp
  note R = resetAll_props[OF r]
  have "standing w2 = standing w1" using R by (simp add: standing_def comp_def)
  then have 2: "placedFrame w1 w2" using R by (intro same_standing_placed) simp_all
  have "pendingJoinTimers w2 = pendingJoinTimers w" using R T by (simp add: tickFrame_def)
  then show ?thesis using placedFrame_trans[OF 1 2] u by simp
qed

lemma tryOrder_moved_unblocked:
  assumes "(res_x (tryOrder b cx cy tx ty r), res_y (tryOrder b cx cy tx ty r)) \<noteq> (cx, cy)"
  shows "\<not> isCircleBlockedByBuildings (res_x (tryOrder b cx cy tx ty r))
            (res_y (tryOrder b cx cy tx ty r)) r"
proof (cases b)
  case True
  show ?thesis
  proof (cases "isCircleBlockedByBuildings tx cy r")
    case A: True
    show ?thesis
    proof (cases "isCircleBlockedByBuildings cx ty r")
      case B: True
      then show ?thesis using assms A True by (simp add: tryOrder_def Let_def)
    next
      case B: False
      then show ?thesis using assms A True by (simp add: tryOrder_def Let_def)
    qed
  next
    case A: False
    show ?thesis
    proof (cases "isCircleBlockedByBuildings tx ty r")
      case B: True
      then show ?thesis using assms A True by (simp add: tryOrder_def Let_def)
    next
      case B: False
      then show ?thesis using assms A True by (simp add: tryOrder_def Let_def)
    qed
  qed
next
  case False
  show ?thesis
  proof (cases "isCircleBlockedByBuildings cx ty r")
    case A: True
    show ?thesis
    proof (cases "isCircleBlockedByBuildings tx cy r")
      case B: True
      then show ?thesis using assms A False by (simp add: tryOrder_def Let_def)
    next
      case B: False
      then show ?thesis using assms A False by (simp add: tryOrder_def Let_def)
    qed
  next
    case A: False
    show ?thesis
    proof (cases "isCircleBlockedByBuildings tx ty r")
      case B: True
      then show ?thesis using assms A False by (simp add: tryOrder_def Let_def)
    next
      case B: False
      then show ?thesis using assms A False by (simp add: tryOrder_def Let_def)
    qed
  qed
qed

lemma resolveBlockedMovement_moved_unblocked:
  assumes "(res_x (resolveBlockedMovement cx cy tx ty r), res_y (resolveBlockedMovement cx cy tx ty r))
             \<noteq> (cx, cy)"
  shows "\<not> isCircleBlockedByBuildings (res_x (resolveBlockedMovement cx cy tx ty r))
            (res_y (resolveBlockedMovement cx cy tx ty r)) r"
proof -
  define bx where "bx = clamp tx r (MAP_WIDTH - r)"
  define byy where "byy = clamp ty r (MAP_HEIGHT - r)"
  have "resolveBlockedMovement cx cy tx ty r = tryOrder True cx cy bx byy r
        \<or> resolveBlockedMovement cx cy tx ty r = tryOrder False cx cy bx byy r"
    by (simp add: resolveBlockedMovement_def Let_def bx_def byy_def)
  then show ?thesis
    using assms tryOrder_moved_unblocked[of True cx cy bx byy r]
      tryOrder_moved_unblocked[of False cx cy bx byy r]
    by (elim disjE) simp_all
qed

lemma moveAndCollect_placed:
  assumes "getPlayer w peer = Some player" "distinct (map connectionId (players w))"
    "moveAndCollect w player dx dy now = (player2, w3, n)"
  shows "placedFrame w w3 \<and> pendingJoinTimers w3 = pendingJoinTimers w"
proof -
  define r where "r = resolveBlockedMovement (player_x player) (player_y player)
                    (player_x player + dx * getPlayerMoveSpeed player now
                       * (if dx \<noteq> 0 \<and> dy \<noteq> 0 then sqrt (1 / 2) else 1))
                    (player_y player + dy * getPlayerMoveSpeed player now
                       * (if dx \<noteq> 0 \<and> dy \<noteq> 0 then sqrt (1 / 2) else 1)) PLAYER_RADIUS"
  note F = moveAndCollect_frame[OF assms(1,3), folded r_def]
  have st: "standing w3 = map (\<lambda>p. if connectionId p = peer then (peer, res_x r, res_y r)
            else (connectionId p, player_x p, player_y p)) (players w)"
    using F by (elim conjE)
  have en: "enemies w3 = enemies w" and pj: "pendingJoinTimers w3 = pendingJoinTimers w"
    using F by blast+
  have "length (standing w3) = length (players w)" unfolding st by (rule length_map)
  then have len: "length (players w3) = length (players w)" by (simp add: standing_def)
  have pl: "playerPlaced pp" if "playerPlaced player" "player_x pp = res_x r" "player_y pp = res_y r"
    for pp
  proof -
    from that(1) have a: "inBounds PLAYER_RADIUS (player_x player) (player_y player)"
      and b: "\<not> isCircleBlockedByBuildings (player_x player) (player_y player) PLAYER_RADIUS"
      by (simp_all add: playerPlaced_def)
    have "inBounds PLAYER_RADIUS (res_x r) (res_y r)"
      unfolding r_def by (rule resolveBlockedMovement_inBounds[OF a]) simp
    moreover have "\<not> isCircleBlockedByBuildings (res_x r) (res_y r) PLAYER_RADIUS"
      unfolding r_def by (rule resolveBlockedMovement_unblocked[OF b])
    ultimately show ?thesis unfolding playerPlaced_def that(2,3) by (rule conjI)
  qed
  have step: "connectionId (players w3 ! i) = connectionId (players w ! i)
        \<and> (playerPlaced (players w ! i) \<longrightarrow> playerPlaced (players w3 ! i))"
    if i: "i < length (players w)" for i
  proof -
    have e: "standing w3 ! i = (if connectionId (players w ! i) = peer then (peer, res_x r, res_y r)
            else (connectionId (players w ! i), player_x (players w ! i), player_y (players w ! i)))"
      unfolding st using i by (simp only: nth_map)
    have l: "standing w3 ! i = (connectionId (players w3 ! i), player_x (players w3 ! i),
               player_y (players w3 ! i))"
      unfolding standing_def using i len by (simp only: nth_map)
    show ?thesis
    proof (cases "connectionId (players w ! i) = peer")
      case True
      have m: "players w ! i \<in> set (players w)" using i by (rule nth_mem)
      have c: "connectionId player = peer"
        using getPlayer_mem[OF assms(1)] by (elim conjE)
      have same: "players w ! i = player"
        by (rule getPlayer_unique[OF assms(1,2) m]) (simp only: True c)
      have q: "connectionId (players w3 ! i) = peer \<and> player_x (players w3 ! i) = res_x r
            \<and> player_y (players w3 ! i) = res_y r"
        using e l True by simp
      show ?thesis using q True pl[of "players w3 ! i"] same by simp
    next
      case False
      have q: "connectionId (players w3 ! i) = connectionId (players w ! i)
            \<and> player_x (players w3 ! i) = player_x (players w ! i)
            \<and> player_y (players w3 ! i) = player_y (players w ! i)"
        using e l False by simp
      then show ?thesis by (simp add: playerPlaced_def)
    qed
  qed
  have A: "list_all2 (\<lambda>p p'. connectionId p' = connectionId p \<and> (playerPlaced p \<longrightarrow> playerPlaced p'))
        (players w) (players w3)"
    unfolding list_all2_conv_all_nth using len step by simp
  have B: "list_all2 (\<lambda>e e'. enemy_id e' = enemy_id e \<and> (enemyPlaced e \<longrightarrow> enemyPlaced e'))
        (enemies w) (enemies w3)"
    unfolding en by (simp add: list_all2_same)
  show ?thesis unfolding placedFrame_def using A B pj by simp
qed

lemma handleMove_placed:
  assumes "getPlayer w peer = Some player" "distinct (map connectionId (players w))"
  shows "placedFrame w (fst (handleMove w player dxN dyN now snapNow))"
proof (cases "moveAxis dxN = 0 \<and> moveAxis dyN = 0")
  case True
  then have "fst (handleMove w player dxN dyN now snapNow) = w" by (simp add: handleMove_def)
  then show ?thesis by (simp only: placedFrame_refl)
next
  case False
  obtain player2 w3 n where m:
    "moveAndCollect w player (moveAxis dxN) (moveAxis dyN) now = (player2, w3, n)"
    by (metis prod_cases3)
  obtain w4 scored where a: "awardPoints player2 now n w3 = (w4, scored)"
    by (metis surj_pair)
  obtain changed w5 resets where u: "updateEnemies w4 = (changed, w5, resets)"
    by (metis prod_cases3)
  have e: "fst (handleMove w player dxN dyN now snapNow) = w5"
    unfolding handleMove_def Let_def using False by (auto simp add: m a u)
  have M: "placedFrame w w3" using moveAndCollect_placed[OF assms(1,2) m] by (rule conjunct1)
  have sa: "standing w4 = standing w3" "enemies w4 = enemies w3"
    using awardPoints_frame[OF a] by blast+
  have A: "placedFrame w3 w4" using sa by (rule same_standing_placed)
  have U: "placedFrame w4 w5" using updateEnemies_placed[OF u] by (rule conjunct1)
  show ?thesis unfolding e by (rule placedFrame_trans[OF placedFrame_trans[OF M A] U])
qed

lemma perform_placed:
  assumes "distinct (map connectionId (players w))"
  shows "placedFrame w (perform w a)"
proof (cases a)
  case (MoveIntent peer dxN dyN now snapNow)
  show ?thesis
  proof (cases "getPlayer w peer")
    case None
    then have "perform w a = w" by (simp add: perform_def MoveIntent message_def)
    then show ?thesis by (simp only: placedFrame_refl)
  next
    case (Some player)
    have "perform w a = fst (handleMove w player dxN dyN now snapNow)"
      by (simp add: perform_def MoveIntent message_def Some split: prod.splits)
    then show ?thesis using handleMove_placed[OF Some assms] by simp
  qed
next
  case (EnemyTick snapNow)
  obtain changed w' effects where u: "updateEnemies w = (changed, w', effects)"
    by (metis prod_cases3)
  have "perform w a = w'" by (simp add: perform_def EnemyTick enemyTicker_def u)
  then show ?thesis using updateEnemies_placed[OF u] by simp
qed

lemma performAll_placed:
  assumes "distinct (map connectionId (players w))"
  shows "placedFrame w (performAll w acts)"
  using assms unfolding performAll_def
proof (induction acts arbitrary: w)
  case Nil
  then show ?case by (simp add: placedFrame_refl)
next
  case (Cons a acts)
  note P = perform_placed[OF Cons.prems, of a]
  have "distinct (map connectionId (players (perform w a)))"
    using placedFrame_ids[OF P] Cons.prems by simp
  from Cons.IH[OF this] have Q: "placedFrame (perform w a) (foldl perform (perform w a) acts)" .
  show ?case unfolding foldl_Cons by (rule placedFrame_trans[OF P Q])
qed

text \<open>
  Claim C1. In a state whose connection ids are pairwise different (they are the keys of
  the \<open>players\<close> map), after any sequence of move intents and enemy ticks the players
  and the enemies are the same, in the same order, and every player and every enemy whose
  centre was within \<open>[radius, bound - radius]\<close> on both axes and clear of every building
  still is. \<open>resolveBlockedMovement\<close> leaves each axis either unchanged or at the target
  clamped to the bounds, and a result other than the current position is clear of every
  building.
\<close>

theorem movement_keeps_entities_placed:
  assumes "distinct (map connectionId (players w))"
  shows "length (players (performAll w acts)) = length (players w)
     \<and> length (enemies (performAll w acts)) = length (enemies w)
     \<and> (\<forall>j<length (players w).
           connectionId (players (performAll w acts) ! j) = connectionId (players w ! j)
           \<and> (inBounds PLAYER_RADIUS (player_x (players w ! j)) (player_y (players w ! j))
                \<and> \<not> isCircleBlockedByBuildings (player_x (players w ! j)) (player_y (players w ! j))
                      PLAYER_RADIUS
              \<longrightarrow> inBounds PLAYER_RADIUS (player_x (players (performAll w acts) ! j))
                      (player_y (players (performAll w acts) ! j))
                  \<and> \<not> isCircleBlockedByBuildings (player_x (players (performAll w acts) ! j))
                        (player_y (players (performAll w acts) ! j)) PLAYER_RADIUS))
     \<and> (\<forall>k<length (enemies w).
           enemy_id (enemies (performAll w acts) ! k) = enemy_id (enemies w ! k)
           \<and> (inBounds ENEMY_RADIUS (enemy_x (enemies w ! k)) (enemy_y (enemies w ! k))
                \<and> \<not> isCircleBlockedByBuildings (enemy_x (enemies w ! k)) (enemy_y (enemies w ! k))
                      ENEMY_RADIUS
              \<longrightarrow> inBounds ENEMY_RADIUS (enemy_x (enemies (performAll w acts) ! k))
                      (enemy_y (enemies (performAll w acts) ! k))
                  \<and> \<not> isCircleBlockedByBuildings (enemy_x (enemies (performAll w acts) ! k))
                        (enemy_y (enemies (performAll w acts) ! k)) ENEMY_RADIUS))
     \<and> res_x (resolveBlockedMovement cx cy tx ty r) \<in> {cx, clamp tx r (MAP_WIDTH - r)}
     \<and> res_y (resolveBlockedMovement cx cy tx ty r) \<in> {cy, clamp ty r (MAP_HEIGHT - r)}
     \<and> ((res_x (resolveBlockedMovement cx cy tx ty r), res_y (resolveBlockedMovement cx cy tx ty r))
            \<noteq> (cx, cy)
          \<longrightarrow> \<not> isCircleBlockedByBuildings (res_x (resolveBlockedMovement cx cy tx ty r))
                  (res_y (resolveBlockedMovement cx cy tx ty r)) r)"
proof -
  note P = performAll_placed[OF assms, of acts, unfolded placedFrame_def]
  have 1: "list_all2 (\<lambda>p p'. connectionId p' = connectionId p \<and> (playerPlaced p \<longrightarrow> playerPlaced p'))
        (players w) (players (performAll w acts))" using P by (rule conjunct1)
  have 2: "list_all2 (\<lambda>e e'. enemy_id e' = enemy_id e \<and> (enemyPlaced e \<longrightarrow> enemyPlaced e'))
          (enemies w) (enemies (performAll w acts))" using P by (rule conjunct2)
  have a1: "length (players (performAll w acts)) = length (players w)"
    using list_all2_lengthD[OF 1] by (rule sym)
  have a2: "length (enemies (performAll w acts)) = length (enemies w)"
    using list_all2_lengthD[OF 2] by (rule sym)
  have b: "\<forall>j<length (players w).
           connectionId (players (performAll w acts) ! j) = connectionId (players w ! j)
           \<and> (playerPlaced (players w ! j) \<longrightarrow> playerPlaced (players (performAll w acts) ! j))"
    using 1 by (simp add: list_all2_conv_all_nth)
  have c: "\<forall>k<length (enemies w).
           enemy_id (enemies (performAll w acts) ! k) = enemy_id (enemies w ! k)
           \<and> (enemyPlaced (enemies w ! k) \<longrightarrow> enemyPlaced (enemies (performAll w acts) ! k))"
    using 2 by (simp add: list_all2_conv_all_nth)
  note b' = b[unfolded playerPlaced_def]
  note c' = c[unfolded enemyPlaced_def]
  note x1 = conjunct1[OF resolveBlockedMovement_axis[of cx cy tx ty r]]
  note x2 = conjunct2[OF resolveBlockedMovement_axis[of cx cy tx ty r]]
  have mv: "(res_x (resolveBlockedMovement cx cy tx ty r), res_y (resolveBlockedMovement cx cy tx ty r))
            \<noteq> (cx, cy)
          \<longrightarrow> \<not> isCircleBlockedByBuildings (res_x (resolveBlockedMovement cx cy tx ty r))
                  (res_y (resolveBlockedMovement cx cy tx ty r)) r"
    by (rule impI) (rule resolveBlockedMovement_moved_unblocked)
  show ?thesis
    by (rule conjI[OF a1 conjI[OF a2 conjI[OF b' conjI[OF c' conjI[OF x1 conjI[OF x2 mv]]]]]])
qed

theorem movement_keeps_entities_placed_witness:
  "distinct (map connectionId (players hitWorld))
   \<and> inBounds PLAYER_RADIUS (player_x (players hitWorld ! 0)) (player_y (players hitWorld ! 0))
   \<and> \<not> isCircleBlockedByBuildings (player_x (players hitWorld ! 0))
         (player_y (players hitWorld ! 0)) PLAYER_RADIUS
   \<and> inBounds ENEMY_RADIUS (enemy_x (enemies hitWorld ! 0)) (enemy_y (enemies hitWorld ! 0))
   \<and> \<not> isCircleBlockedByBuildings (enemy_x (enemies hitWorld ! 0))
         (enemy_y (enemies hitWorld ! 0)) ENEMY_RADIUS
   \<and> inBounds PLAYER_RADIUS
        (player_x (players (performAll hitWorld
           [MoveIntent ''c1'' (Finite 1) (Finite 0) 6000 6001, EnemyTick 6002]) ! 0))
        (player_y (players (performAll hitWorld
           [MoveIntent ''c1'' (Finite 1) (Finite 0) 6000 6001, EnemyTick 6002]) ! 0))
   \<and> \<not> isCircleBlockedByBuildings
        (player_x (players (performAll hitWorld
           [MoveIntent ''c1'' (Finite 1) (Finite 0) 6000 6001, EnemyTick 6002]) ! 0))
        (player_y (players (performAll hitWorld
           [MoveIntent ''c1'' (Finite 1) (Finite 0) 6000 6001, EnemyTick 6002]) ! 0)) PLAYER_RADIUS
   \<and> inBounds ENEMY_RADIUS
        (enemy_x (enemies (performAll hitWorld
           [MoveIntent ''c1'' (Finite 1) (Finite 0) 6000 6001, EnemyTick 6002]) ! 0))
        (enemy_y (enemies (performAll hitWorld
           [MoveIntent ''c1'' (Finite 1) (Finite 0) 6000 6001, EnemyTick 6002]) ! 0))
   \<and> \<not> isCircleBlockedByBuildings
        (enemy_x (enemies (performAll hitWorld
           [MoveIntent ''c1'' (Finite 1) (Finite 0) 6000 6001, EnemyTick 6002]) ! 0))
        (enemy_y (enemies (performAll hitWorld
           [MoveIntent ''c1'' (Finite 1) (Finite 0) 6000 6001, EnemyTick 6002]) ! 0)) ENEMY_RADIUS"
proof -
  define acts where "acts = [MoveIntent ''c1'' (Finite 1) (Finite 0) 6000 6001, EnemyTick 6002]"
  have d: "distinct (map connectionId (players hitWorld))"
    by (simp add: hitWorld_def sampleWorld_def samplePlayer_def samplePlayer2_def)
  have px: "player_x (players hitWorld ! 0) = 100" "player_y (players hitWorld ! 0) = 100"
    by (simp_all add: hitWorld_def sampleWorld_def samplePlayer_def)
  have ex: "enemy_x (enemies hitWorld ! 0) = 100" "enemy_y (enemies hitWorld ! 0) = 115"
    by (simp_all add: hitWorld_def sampleWorld_def sampleEnemy_def)
  have lp: "0 < length (players hitWorld)" "0 < length (enemies hitWorld)"
    by (simp_all add: hitWorld_def sampleWorld_def)
  have p0: "inBounds PLAYER_RADIUS (player_x (players hitWorld ! 0)) (player_y (players hitWorld ! 0))"
    unfolding px by (simp add: inBounds_def)
  have p1: "\<not> isCircleBlockedByBuildings (player_x (players hitWorld ! 0))
         (player_y (players hitWorld ! 0)) PLAYER_RADIUS"
    unfolding px by (rule unblocked_near_border) simp_all
  have e0: "inBounds ENEMY_RADIUS (enemy_x (enemies hitWorld ! 0)) (enemy_y (enemies hitWorld ! 0))"
    unfolding ex by (simp add: inBounds_def)
  have e1: "\<not> isCircleBlockedByBuildings (enemy_x (enemies hitWorld ! 0))
         (enemy_y (enemies hitWorld ! 0)) ENEMY_RADIUS"
    unfolding ex by (rule unblocked_near_border) simp_all
  note T = movement_keeps_entities_placed[OF d, of acts]
  have tp: "\<forall>j<length (players hitWorld).
           connectionId (players (performAll hitWorld acts) ! j) = connectionId (players hitWorld ! j)
           \<and> (inBounds PLAYER_RADIUS (player_x (players hitWorld ! j)) (player_y (players hitWorld ! j))
                \<and> \<not> isCircleBlockedByBuildings (player_x (players hitWorld ! j))
                      (player_y (players hitWorld ! j)) PLAYER_RADIUS
              \<longrightarrow> inBounds PLAYER_RADIUS (player_x (players (performAll hitWorld acts) ! j))
                      (player_y (players (performAll hitWorld acts) ! j))
                  \<and> \<not> isCircleBlockedByBuildings (player_x (players (performAll hitWorld acts) ! j))
                        (player_y (players (performAll hitWorld acts) ! j)) PLAYER_RADIUS)"
    using T by blast
  have te: "\<forall>k<length (enemies hitWorld).
           enemy_id (enemies (performAll hitWorld acts) ! k) = enemy_id (enemies hitWorld ! k)
           \<and> (inBounds ENEMY_RADIUS (enemy_x (enemies hitWorld ! k)) (enemy_y (enemies hitWorld ! k))
                \<and> \<not> isCircleBlockedByBuildings (enemy_x (enemies hitWorld ! k))
                      (enemy_y (enemies hitWorld ! k)) ENEMY_RADIUS
              \<longrightarrow> inBounds ENEMY_RADIUS (enemy_x (enemies (performAll hitWorld acts) ! k))
                      (enemy_y (enemies (performAll hitWorld acts) ! k))
                  \<and> \<not> isCircleBlockedByBuildings (enemy_x (enemies (performAll hitWorld acts) ! k))
                        (enemy_y (enemies (performAll hitWorld acts) ! k)) ENEMY_RADIUS)"
    using T by blast
  have rp: "inBounds PLAYER_RADIUS (player_x (players (performAll hitWorld acts) ! 0))
                      (player_y (players (performAll hitWorld acts) ! 0))
                  \<and> \<not> isCircleBlockedByBuildings (player_x (players (performAll hitWorld acts) ! 0))
                        (player_y (players (performAll hitWorld acts) ! 0)) PLAYER_RADIUS"
    using tp[rule_format, OF lp(1)] p0 p1 by blast
  have re: "inBounds ENEMY_RADIUS (enemy_x (enemies (performAll hitWorld acts) ! 0))
                      (enemy_y (enemies (performAll hitWorld acts) ! 0))
                  \<and> \<not> isCircleBlockedByBuildings (enemy_x (enemies (performAll hitWorld acts) ! 0))
                        (enemy_y (enemies (performAll hitWorld acts) ! 0)) ENEMY_RADIUS"
    using te[rule_format, OF lp(2)] e0 e1 by blast
  show ?thesis
    unfolding acts_def[symmetric]
    by (rule conjI[OF d conjI[OF p0 conjI[OF p1 conjI[OF e0 conjI[OF e1
          conjI[OF conjunct1[OF rp] conjI[OF conjunct2[OF rp] re]]]]]]])
qed

section \<open>Connections waiting to join\<close>

lemma delivered_Nil: "delivered peer [] = []"
  by (simp add: delivered_def)

lemma delivered_append: "delivered peer (a @ b) = delivered peer a @ delivered peer b"
  by (simp add: delivered_def)

lemma delivered_Cons_Send:
  "delivered peer (Send q m # es) = (if q = peer then [m] else []) @ delivered peer es"
  by (simp add: delivered_def)

lemma delivered_sends:
  "delivered peer (map (\<lambda>p. Send (connectionId p) m) ps)
     = map (\<lambda>_. m) (filter (\<lambda>p. connectionId p = peer) ps)"
  by (induction ps) (simp_all add: delivered_def)

lemma delivered_broadcast:
  "delivered peer (broadcastWorld w now)
     = map (\<lambda>_. WorldStateMessage (getWorldState w now))
         (filter (\<lambda>p. connectionId p = peer) (players w))"
  unfolding broadcastWorld_def Let_def by (rule delivered_sends)

lemma getPlayer_None: "getPlayer w peer = None \<longleftrightarrow> peer \<notin> set (map connectionId (players w))"
  unfolding getPlayer_def by (auto simp: find_None_iff)

lemma delivered_broadcast_absent:
  assumes "peer \<notin> set (map connectionId (players w))"
  shows "delivered peer (broadcastWorld w now) = []"
proof -
  have "filter (\<lambda>p. connectionId p = peer) (players w) = []"
    using assms by (auto simp: filter_empty_conv)
  then show ?thesis by (simp add: delivered_broadcast)
qed

lemma standing_ids: "map fst (standing w) = map connectionId (players w)"
  by (simp add: standing_def comp_def)

lemma moveAndCollect_ids:
  assumes "getPlayer w q = Some player"
    "moveAndCollect w player dx dy now = (player2, w3, n)"
  shows "map connectionId (players w3) = map connectionId (players w)
         \<and> pendingJoinTimers w3 = pendingJoinTimers w"
proof -
  define r where "r = resolveBlockedMovement (player_x player) (player_y player)
                    (player_x player + dx * getPlayerMoveSpeed player now
                       * (if dx \<noteq> 0 \<and> dy \<noteq> 0 then sqrt (1 / 2) else 1))
                    (player_y player + dy * getPlayerMoveSpeed player now
                       * (if dx \<noteq> 0 \<and> dy \<noteq> 0 then sqrt (1 / 2) else 1)) PLAYER_RADIUS"
  note F = moveAndCollect_frame[OF assms, folded r_def]
  have st: "standing w3 = map (\<lambda>p. if connectionId p = q then (q, res_x r, res_y r)
            else (connectionId p, player_x p, player_y p)) (players w)"
    using F by blast
  have pj: "pendingJoinTimers w3 = pendingJoinTimers w" using F by blast
  have "map fst (standing w3) = map connectionId (players w)"
    unfolding st by (induction "players w") (simp_all add: comp_def)
  then show ?thesis using pj by (simp only: standing_ids simp_thms)
qed

lemma handleMove_sends:
  assumes "getPlayer w q = Some player"
    "handleMove w player dxN dyN now snapNow = (w', effects)"
  shows "map connectionId (players w') = map connectionId (players w)
     \<and> pendingJoinTimers w' = pendingJoinTimers w
     \<and> (effects = [] \<or> delivered peer effects = delivered peer (broadcastWorld w' snapNow))"
proof (cases "moveAxis dxN = 0 \<and> moveAxis dyN = 0")
  case True
  then have "w' = w" "effects = []" using assms(2) by (simp_all add: handleMove_def)
  then show ?thesis by simp
next
  case False
  obtain player2 w3 n where m:
    "moveAndCollect w player (moveAxis dxN) (moveAxis dyN) now = (player2, w3, n)"
    by (metis prod_cases3)
  obtain w4 scored where a: "awardPoints player2 now n w3 = (w4, scored)"
    by (metis surj_pair)
  obtain changed w5 resets where u: "updateEnemies w4 = (changed, w5, resets)"
    by (metis prod_cases3)
  have e: "handleMove w player dxN dyN now snapNow
             = (w5, scored @ resets @ broadcastWorld w5 snapNow)"
    unfolding handleMove_def Let_def using False by (auto simp add: m a u)
  then have w': "w' = w5" and eff: "effects = scored @ resets @ broadcastWorld w5 snapNow"
    using assms(2) by simp_all
  note M = moveAndCollect_ids[OF assms(1) m]
  note A = awardPoints_frame[OF a]
  have sa: "standing w4 = standing w3" and pa: "pendingJoinTimers w4 = pendingJoinTimers w3"
    and sc: "scored = [] \<or> (\<exists>pts. scored = [PersistScoreDelta (userId player2) pts])"
    using A by blast+
  have ia: "map connectionId (players w4) = map connectionId (players w3)"
    using sa standing_ids by metis
  note U = updateEnemies_placed[OF u]
  have iu: "map connectionId (players w5) = map connectionId (players w4)"
    using U placedFrame_ids by blast
  have pu: "pendingJoinTimers w5 = pendingJoinTimers w4" using U by blast
  obtain hits where "resets = map (\<lambda>u. PersistUserScore u 0) hits"
    using updateEnemies_effects[OF u] by blast
  then have dr: "delivered peer resets = []"
    by (simp add: delivered_def)
  have ds: "delivered peer scored = []" using sc by (auto simp: delivered_def)
  have "delivered peer effects = delivered peer (broadcastWorld w' snapNow)"
    unfolding eff w' delivered_append dr ds by simp
  then show ?thesis using M ia iu pa pu w' by simp
qed

lemma setPlayer_ids:
  "set (map connectionId (setPlayer player ps)) = insert (connectionId player) (set (map connectionId ps))"
proof (cases "list_ex (\<lambda>p. connectionId p = connectionId player) ps")
  case True
  then obtain p where "p \<in> set ps" "connectionId p = connectionId player"
    unfolding list_ex_iff by blast
  then have m: "connectionId player \<in> set (map connectionId ps)"
    unfolding set_map by (metis imageI)
  have "map connectionId (map (\<lambda>p. if connectionId p = connectionId player then player else p) ps)
          = map connectionId ps"
    by (induction ps) simp_all
  then show ?thesis using True m by (auto simp: setPlayer_def)
next
  case False
  then show ?thesis by (simp add: setPlayer_def)
qed

lemma openPeer_waits:
  assumes "pendingJoinTimers w peer = Some t" "q \<noteq> peer"
    "openPeer w q contextUserId contextName = (w', effects)"
  shows "delivered peer effects = [] \<and> pendingJoinTimers w' peer = Some t
         \<and> players w' = players w"
  using assms
  by (auto simp: openPeer_def delivered_def Let_def split: option.splits if_splits)

lemma joinTimer_waits:
  assumes "pendingJoinTimers w peer = Some t" "peer \<notin> set (map connectionId (players w))"
    "q \<noteq> peer" "joinTimer w q snapNow = (w', effects)"
  shows "delivered peer effects = [] \<and> pendingJoinTimers w' peer = Some t
         \<and> peer \<notin> set (map connectionId (players w'))"
proof (cases "pendingJoinTimers w q")
  case None
  then have "w' = w" "effects = []" using assms(4) by (simp_all add: joinTimer_def)
  then show ?thesis using assms(1,2) by (simp add: delivered_Nil)
next
  case (Some pr)
  obtain uid displayName where pr: "pr = (uid, displayName)" by (cases pr)
  obtain start g' where sp: "spawnPlayerPosition (enemies w) (entropy w) = (start, g')"
    by (metis surj_pair)
  define player where "player = \<lparr>connectionId = q, userId = uid, player_name = displayName,
                         player_color = getUserColor w uid,
                         player_x = fst start, player_y = snd start,
                         score = (case userScores w uid of Some sc \<Rightarrow> sc | None \<Rightarrow> 0),
                         speedUntil = 0, magnetUntil = 0, doubleUntil = 0\<rparr>"
  define w1 where "w1 = w\<lparr>pendingJoinTimers := (pendingJoinTimers w)(q := None),
                      players := setPlayer player (players w),
                      entropy := g'\<rparr>"
  have e: "joinTimer w q snapNow = (w1, Send q (Connected q) # broadcastWorld w1 snapNow)"
    by (simp add: joinTimer_def Some pr sp Let_def w1_def player_def)
  then have w': "w' = w1" and eff: "effects = Send q (Connected q) # broadcastWorld w1 snapNow"
    using assms(4) by simp_all
  have ids: "set (map connectionId (players w1)) = insert q (set (map connectionId (players w)))"
    unfolding w1_def using setPlayer_ids[of player "players w"] by (simp add: player_def)
  then have n: "peer \<notin> set (map connectionId (players w1))" using assms(2,3) by simp
  have p: "pendingJoinTimers w1 peer = Some t" using assms(1,3) by (simp add: w1_def)
  have "delivered peer effects = []"
    unfolding eff delivered_Cons_Send delivered_broadcast_absent[OF n] using assms(3) by simp
  then show ?thesis using n p w' by simp
qed

lemma closePeer_waits:
  assumes "pendingJoinTimers w peer = Some t" "peer \<notin> set (map connectionId (players w))"
    "q \<noteq> peer" "closePeer w q snapNow = (w', effects)"
  shows "delivered peer effects = [] \<and> pendingJoinTimers w' peer = Some t
         \<and> peer \<notin> set (map connectionId (players w'))"
proof -
  define w1 where "w1 = w\<lparr>pendingJoinTimers := (pendingJoinTimers w)(q := None)\<rparr>"
  define w2 where "w2 = w1\<lparr>players := filter (\<lambda>p. connectionId p \<noteq> q) (players w1)\<rparr>"
  define w3 where "w3 = (case getPlayer w1 q of
                  None \<Rightarrow> w2
                | Some gone \<Rightarrow>
                    (if \<not> list_ex (\<lambda>connectedPlayer. userId connectedPlayer = userId gone)
                             (players w2)
                        then w2\<lparr>userScores := (userScores w2)(userId gone := None),
                                userColors := (userColors w2)(userId gone := None)\<rparr>
                        else w2))"
  have e: "closePeer w q snapNow
             = (w3, if getPlayer w1 q \<noteq> None then broadcastWorld w3 snapNow else [])"
    by (simp add: closePeer_def Let_def w1_def w2_def w3_def split: option.splits)
  have p3: "players w3 = players w2" "pendingJoinTimers w3 = pendingJoinTimers w2"
    by (simp_all add: w3_def split: option.splits)
  have n: "peer \<notin> set (map connectionId (players w3))"
    unfolding p3 w2_def w1_def using assms(2) by auto
  have p: "pendingJoinTimers w3 peer = Some t"
    unfolding p3 w2_def w1_def using assms(1,3) by simp
  have w': "w' = w3" and eff: "effects = (if getPlayer w1 q \<noteq> None then broadcastWorld w3 snapNow else [])"
    using e assms(4) by simp_all
  have "delivered peer effects = []"
    unfolding eff using delivered_broadcast_absent[OF n] by (simp add: delivered_Nil)
  then show ?thesis using n p w' by simp
qed

lemma handleSetColor_waits:
  assumes "pendingJoinTimers w peer = Some t" "peer \<notin> set (map connectionId (players w))"
    "q \<noteq> peer" "handleSetColor w q player col snapNow = (w', effects)"
  shows "delivered peer effects = [] \<and> pendingJoinTimers w' peer = Some t
         \<and> peer \<notin> set (map connectionId (players w'))"
proof (cases "sanitizeColor col")
  case None
  then have "w' = w" "effects = [Send q (ErrorMessage ''Invalid color format.'')]"
    using assms(4) by (simp_all add: handleSetColor_def)
  then show ?thesis using assms(1,2,3) by (simp add: delivered_Cons_Send delivered_Nil)
next
  case (Some nextColor)
  define w1 where "w1 = w\<lparr>userColors := (userColors w)(userId player \<mapsto> nextColor),
                      players := applyColorToConnectedPlayers (userId player) nextColor (players w)\<rparr>"
  have e: "handleSetColor w q player col snapNow
            = (w1, PersistUserColor (userId player) nextColor # broadcastWorld w1 snapNow)"
    by (simp add: handleSetColor_def Some Let_def w1_def)
  then have w': "w' = w1"
    and eff: "effects = PersistUserColor (userId player) nextColor # broadcastWorld w1 snapNow"
    using assms(4) by simp_all
  have "map connectionId (applyColorToConnectedPlayers (userId player) nextColor (players w))
          = map connectionId (players w)"
    unfolding applyColorToConnectedPlayers_def by (induction "players w") simp_all
  then have n: "peer \<notin> set (map connectionId (players w1))"
    using assms(2) by (simp add: w1_def)
  have p: "pendingJoinTimers w1 peer = Some t" using assms(1) by (simp add: w1_def)
  have "delivered peer effects = delivered peer (broadcastWorld w1 snapNow)"
    unfolding eff by (simp add: delivered_def)
  then show ?thesis using delivered_broadcast_absent[OF n] n p w' by simp
qed

lemma handleMove_waits:
  assumes "pendingJoinTimers w peer = Some t" "peer \<notin> set (map connectionId (players w))"
    "getPlayer w q = Some player" "handleMove w player dxN dyN now snapNow = (w', effects)"
  shows "delivered peer effects = [] \<and> pendingJoinTimers w' peer = Some t
         \<and> peer \<notin> set (map connectionId (players w'))"
proof -
  note H = handleMove_sends[OF assms(3,4), of peer]
  have n: "peer \<notin> set (map connectionId (players w'))" using H assms(2) by simp
  have p: "pendingJoinTimers w' peer = Some t" using H assms(1) by simp
  have "delivered peer effects = []"
    using H delivered_broadcast_absent[OF n] by (auto simp: delivered_Nil)
  then show ?thesis using n p by simp
qed

lemma message_waits:
  assumes "pendingJoinTimers w peer = Some t" "peer \<notin> set (map connectionId (players w))"
    "q \<noteq> peer" "message w q raw now snapNow = Inr (w', effects)"
  shows "delivered peer effects = [] \<and> pendingJoinTimers w' peer = Some t
         \<and> peer \<notin> set (map connectionId (players w'))"
proof (cases "getPlayer w q")
  case None
  then have "w' = w" "effects = []" using assms(4) by (simp_all add: message_def)
  then show ?thesis using assms(1,2) by (simp add: delivered_Nil)
next
  case (Some player)
  show ?thesis
  proof (cases raw)
    case Unparsable
    then have "w' = w" "effects = [Send q (ErrorMessage ''Invalid message payload.'')]"
      using assms(4) Some by (simp_all add: message_def)
    then show ?thesis using assms(1,2,3) by (simp add: delivered_Cons_Send delivered_Nil)
  next
    case ParsedNull
    then show ?thesis using assms(4) Some by (simp add: message_def)
  next
    case (Parsed payload)
    show ?thesis
    proof (cases payload)
      case (SetColor col)
      then have "handleSetColor w q player col snapNow = (w', effects)"
        using assms(4) Some Parsed by (simp add: message_def)
      then show ?thesis by (rule handleSetColor_waits[OF assms(1,2,3)])
    next
      case (Move dxN dyN)
      then have "handleMove w player dxN dyN now snapNow = (w', effects)"
        using assms(4) Some Parsed by (simp add: message_def)
      then show ?thesis by (rule handleMove_waits[OF assms(1,2) Some])
    next
      case OtherPayload
      then have "w' = w" "effects = []" using assms(4) Some Parsed by (simp_all add: message_def)
      then show ?thesis using assms(1,2) by (simp add: delivered_Nil)
    qed
  qed
qed

lemma enemyTicker_waits:
  assumes "pendingJoinTimers w peer = Some t" "peer \<notin> set (map connectionId (players w))"
    "enemyTicker w snapNow = (w', effects)"
  shows "delivered peer effects = [] \<and> pendingJoinTimers w' peer = Some t
         \<and> peer \<notin> set (map connectionId (players w'))"
proof -
  obtain changed w5 resets where u: "updateEnemies w = (changed, w5, resets)"
    by (metis prod_cases3)
  have w': "w' = w5" and eff: "effects = resets @ (if changed then broadcastWorld w5 snapNow else [])"
    using assms(3) by (simp_all add: enemyTicker_def u)
  note U = updateEnemies_placed[OF u]
  have "map connectionId (players w5) = map connectionId (players w)"
    using U placedFrame_ids by blast
  then have n: "peer \<notin> set (map connectionId (players w5))" using assms(2) by simp
  have p: "pendingJoinTimers w5 peer = Some t" using U assms(1) by simp
  obtain hits where "resets = map (\<lambda>u. PersistUserScore u 0) hits"
    using updateEnemies_effects[OF u] by blast
  then have dr: "delivered peer resets = []"
    by (simp add: delivered_def)
  have "delivered peer effects = []"
    unfolding eff delivered_append dr using delivered_broadcast_absent[OF n]
    by (simp add: delivered_Nil)
  then show ?thesis using n p w' by simp
qed

lemma serve_waits:
  assumes "pendingJoinTimers w peer = Some t" "peer \<notin> set (map connectionId (players w))"
    "eventPeer ev \<noteq> Some peer" "serve w ev = Inr (w', effects)"
  shows "delivered peer effects = [] \<and> pendingJoinTimers w' peer = Some t
         \<and> peer \<notin> set (map connectionId (players w'))"
proof (cases ev)
  case (Open q contextUserId contextName)
  then have "q \<noteq> peer" "openPeer w q contextUserId contextName = (w', effects)"
    using assms(3,4) by (simp_all add: eventPeer_def serve_def)
  then show ?thesis using openPeer_waits[OF assms(1)] assms(2) by metis
next
  case (JoinTimerFires q snapNow)
  then have "q \<noteq> peer" "joinTimer w q snapNow = (w', effects)"
    using assms(3,4) by (simp_all add: eventPeer_def serve_def)
  then show ?thesis by (rule joinTimer_waits[OF assms(1,2)])
next
  case (Close q snapNow)
  then have "q \<noteq> peer" "closePeer w q snapNow = (w', effects)"
    using assms(3,4) by (simp_all add: eventPeer_def serve_def)
  then show ?thesis by (rule closePeer_waits[OF assms(1,2)])
next
  case (Message q raw now snapNow)
  then have "q \<noteq> peer" "message w q raw now snapNow = Inr (w', effects)"
    using assms(3,4) by (simp_all add: eventPeer_def serve_def)
  then show ?thesis by (rule message_waits[OF assms(1,2)])
next
  case (EnemyTimerFires snapNow)
  then have "enemyTicker w snapNow = (w', effects)"
    using assms(4) by (simp add: serve_def)
  then show ?thesis by (rule enemyTicker_waits[OF assms(1,2)])
qed

lemma serveAll_waits:
  assumes "pendingJoinTimers w peer = Some t" "peer \<notin> set (map connectionId (players w))"
    "list_all (\<lambda>ev. eventPeer ev \<noteq> Some peer) evs"
  shows "delivered peer (snd (serveAll w evs)) = []
         \<and> pendingJoinTimers (fst (serveAll w evs)) peer = Some t
         \<and> peer \<notin> set (map connectionId (players (fst (serveAll w evs))))"
  using assms
proof (induction evs arbitrary: w)
  case Nil
  then show ?case by (simp add: delivered_Nil)
next
  case (Cons ev evs)
  have rest: "list_all (\<lambda>ev. eventPeer ev \<noteq> Some peer) evs" and here: "eventPeer ev \<noteq> Some peer"
    using Cons.prems(3) by simp_all
  show ?case
  proof (cases "serve w ev")
    case (Inl err)
    then have "serveAll w (ev # evs) = serveAll w evs" by simp
    then show ?thesis using Cons.IH[OF Cons.prems(1,2) rest] by simp
  next
    case (Inr res)
    obtain w1 effects where res: "res = (w1, effects)" by (cases res)
    note S = serve_waits[OF Cons.prems(1,2) here Inr[unfolded res]]
    have S1: "pendingJoinTimers w1 peer = Some t" and S2: "peer \<notin> set (map connectionId (players w1))"
      and S3: "delivered peer effects = []"
      using S by blast+
    note I = Cons.IH[OF S1 S2 rest]
    have e: "serveAll w (ev # evs) = (fst (serveAll w1 evs), effects @ snd (serveAll w1 evs))"
      by (simp add: Inr res split: prod.splits)
    show ?thesis unfolding e using I S3 by (simp add: delivered_append)
  qed
qed

lemma joinTimer_joins:
  assumes "pendingJoinTimers w peer = Some t" "peer \<notin> set (map connectionId (players w))"
  shows "delivered peer (snd (joinTimer w peer snapNow))
           = [Connected peer, WorldStateMessage (getWorldState (fst (joinTimer w peer snapNow)) snapNow)]
         \<and> peer \<in> snap_connectionId ` set (ws_players (getWorldState (fst (joinTimer w peer snapNow)) snapNow))
         \<and> pendingJoinTimers (fst (joinTimer w peer snapNow)) peer = None"
proof -
  obtain uid displayName where pr: "t = (uid, displayName)" by (cases t)
  obtain start g' where sp: "spawnPlayerPosition (enemies w) (entropy w) = (start, g')"
    by (metis surj_pair)
  define player where "player = \<lparr>connectionId = peer, userId = uid, player_name = displayName,
                         player_color = getUserColor w uid,
                         player_x = fst start, player_y = snd start,
                         score = (case userScores w uid of Some sc \<Rightarrow> sc | None \<Rightarrow> 0),
                         speedUntil = 0, magnetUntil = 0, doubleUntil = 0\<rparr>"
  define w1 where "w1 = w\<lparr>pendingJoinTimers := (pendingJoinTimers w)(peer := None),
                      players := setPlayer player (players w),
                      entropy := g'\<rparr>"
  have e: "joinTimer w peer snapNow = (w1, Send peer (Connected peer) # broadcastWorld w1 snapNow)"
    by (simp add: joinTimer_def assms(1) pr sp Let_def w1_def player_def)
  have nx: "\<not> list_ex (\<lambda>p. connectionId p = connectionId player) (players w)"
    using assms(2) by (auto simp: list_ex_iff player_def)
  have pw: "players w1 = players w @ [player]"
    unfolding w1_def using nx by (simp add: setPlayer_def)
  have f: "filter (\<lambda>p. connectionId p = peer) (players w1) = [player]"
    unfolding pw using assms(2) by (auto simp: filter_empty_conv player_def)
  have d: "delivered peer (Send peer (Connected peer) # broadcastWorld w1 snapNow)
             = [Connected peer, WorldStateMessage (getWorldState w1 snapNow)]"
    unfolding delivered_Cons_Send delivered_broadcast f by simp
  have m: "peer \<in> snap_connectionId ` set (ws_players (getWorldState w1 snapNow))"
    unfolding getWorldState_def pw by (simp add: player_def image_iff)
  have p: "pendingJoinTimers w1 peer = None" by (simp add: w1_def)
  show ?thesis unfolding e using d m p by simp
qed

lemma pendingWorld_fields:
  "pendingJoinTimers pendingWorld ''c9'' = Some (''u9'', ''Bob'')"
  "players pendingWorld = [samplePlayer, samplePlayer2]"
  "enemies pendingWorld = []"
  by (simp_all add: pendingWorld_def openPeer_def sampleWorld_def)

text \<open>
  Claim C4, as the code has it. Let a connection be opened and waiting for its join timer,
  with no player registered under its id. Then a broadcast sends it nothing and its id is
  not in the snapshot's players list; a message from it is dropped; over any run of
  events of other connections and of the enemy timer it is sent nothing, stays waiting and
  stays unregistered; and when its own timer fires it is sent \<open>connected\<close> and then
  the snapshot of that moment, whose players list now has its id.
\<close>

theorem pending_connection_waits:
  assumes "pendingJoinTimers w peer = Some t" and "getPlayer w peer = None"
  shows "delivered peer (broadcastWorld w now) = []
     \<and> peer \<notin> snap_connectionId ` set (ws_players (getWorldState w now))
     \<and> message w peer raw now snapNow = Inr (w, [])
     \<and> (list_all (\<lambda>ev. eventPeer ev \<noteq> Some peer) evs \<longrightarrow>
          delivered peer (snd (serveAll w evs)) = []
          \<and> pendingJoinTimers (fst (serveAll w evs)) peer = Some t
          \<and> getPlayer (fst (serveAll w evs)) peer = None)
     \<and> delivered peer (snd (joinTimer w peer snapNow))
          = [Connected peer,
             WorldStateMessage (getWorldState (fst (joinTimer w peer snapNow)) snapNow)]
     \<and> peer \<in> snap_connectionId `
          set (ws_players (getWorldState (fst (joinTimer w peer snapNow)) snapNow))"
proof -
  have n: "peer \<notin> set (map connectionId (players w))"
    using assms(2) unfolding getPlayer_None .
  have a: "delivered peer (broadcastWorld w now) = []"
    by (rule delivered_broadcast_absent[OF n])
  have "snap_connectionId ` set (ws_players (getWorldState w now)) = set (map connectionId (players w))"
    by (simp add: getWorldState_def image_image)
  then have b: "peer \<notin> snap_connectionId ` set (ws_players (getWorldState w now))"
    using n by simp
  have c: "message w peer raw now snapNow = Inr (w, [])"
    by (simp add: message_def assms(2))
  have d: "list_all (\<lambda>ev. eventPeer ev \<noteq> Some peer) evs \<longrightarrow>
          delivered peer (snd (serveAll w evs)) = []
          \<and> pendingJoinTimers (fst (serveAll w evs)) peer = Some t
          \<and> getPlayer (fst (serveAll w evs)) peer = None"
  proof
    assume "list_all (\<lambda>ev. eventPeer ev \<noteq> Some peer) evs"
    from serveAll_waits[OF assms(1) n this]
    show "delivered peer (snd (serveAll w evs)) = []
          \<and> pendingJoinTimers (fst (serveAll w evs)) peer = Some t
          \<and> getPlayer (fst (serveAll w evs)) peer = None"
      unfolding getPlayer_None .
  qed
  note J = joinTimer_joins[OF assms(1) n, of snapNow]
  show ?thesis
    by (rule conjI[OF a conjI[OF b conjI[OF c conjI[OF d conjI[OF conjunct1[OF J]
          conjunct1[OF conjunct2[OF J]]]]]]])
qed

theorem pending_connection_waits_witness:
  "pendingJoinTimers pendingWorld ''c9'' = Some (''u9'', ''Bob'')
   \<and> getPlayer pendingWorld ''c9'' = None
   \<and> list_all (\<lambda>ev. eventPeer ev \<noteq> Some ''c9'') [Close ''c2'' 7000, EnemyTimerFires 7001]
   \<and> delivered ''c9'' (snd (serveAll pendingWorld [Close ''c2'' 7000, EnemyTimerFires 7001])) = []
   \<and> getPlayer (fst (serveAll pendingWorld [Close ''c2'' 7000, EnemyTimerFires 7001])) ''c9'' = None
   \<and> delivered ''c9'' (snd (joinTimer pendingWorld ''c9'' 7002))
        = [Connected ''c9'',
           WorldStateMessage (getWorldState (fst (joinTimer pendingWorld ''c9'' 7002)) 7002)]"
proof -
  have p: "pendingJoinTimers pendingWorld ''c9'' = Some (''u9'', ''Bob'')"
    by (rule pendingWorld_fields(1))
  have g: "getPlayer pendingWorld ''c9'' = None"
    by (simp add: getPlayer_def pendingWorld_fields samplePlayer_def samplePlayer2_def)
  have l: "list_all (\<lambda>ev. eventPeer ev \<noteq> Some ''c9'') [Close ''c2'' 7000, EnemyTimerFires 7001]"
    by (simp add: eventPeer_def)
  note T = pending_connection_waits[OF p g,
      where evs = "[Close ''c2'' 7000, EnemyTimerFires 7001]" and snapNow = 7002]
  have s: "delivered ''c9'' (snd (serveAll pendingWorld [Close ''c2'' 7000, EnemyTimerFires 7001])) = []
      \<and> getPlayer (fst (serveAll pendingWorld [Close ''c2'' 7000, EnemyTimerFires 7001])) ''c9'' = None"
    using T l by blast
  have j: "delivered ''c9'' (snd (joinTimer pendingWorld ''c9'' 7002))
        = [Connected ''c9'',
           WorldStateMessage (getWorldState (fst (joinTimer pendingWorld ''c9'' 7002)) 7002)]"
    using T by blast
  show ?thesis
    by (rule conjI[OF p conjI[OF g conjI[OF l conjI[OF conjunct1[OF s] conjI[OF conjunct2[OF s] j]]]]])
qed

text \<open>
  Claim C4 as stated, that a waiting connection is sent every broadcast, fails in
  \<open>pendingWorld\<close>: when connection \<open>c2\<close> closes, the broadcast goes to \<open>c1\<close> alone, and
  a broadcast in \<open>pendingWorld\<close> itself reaches \<open>c1\<close> and not the waiting \<open>c9\<close>.
\<close>

theorem pending_connection_counterexample:
  "pendingJoinTimers pendingWorld ''c9'' = Some (''u9'', ''Bob'')
   \<and> map connectionId (players pendingWorld) = [''c1'', ''c2'']
   \<and> map (\<lambda>e. case e of Send q (WorldStateMessage _) \<Rightarrow> q | _ \<Rightarrow> ''none'')
        (snd (closePeer pendingWorld ''c2'' 7000)) = [''c1'']
   \<and> delivered ''c9'' (snd (closePeer pendingWorld ''c2'' 7000)) = []
   \<and> delivered ''c1'' (broadcastWorld pendingWorld 7000)
        = [WorldStateMessage (getWorldState pendingWorld 7000)]
   \<and> delivered ''c9'' (broadcastWorld pendingWorld 7000) = []
   \<and> \<not> (\<forall>w peer t now. pendingJoinTimers w peer = Some t \<longrightarrow> players w \<noteq> [] \<longrightarrow>
            delivered peer (broadcastWorld w now) \<noteq> [])"
proof -
  have p: "pendingJoinTimers pendingWorld ''c9'' = Some (''u9'', ''Bob'')"
    by (rule pendingWorld_fields(1))
  have i: "map connectionId (players pendingWorld) = [''c1'', ''c2'']"
    by (simp add: pendingWorld_fields samplePlayer_def samplePlayer2_def)
  have c: "snd (closePeer pendingWorld ''c2'' 7000)
            = broadcastWorld (fst (closePeer pendingWorld ''c2'' 7000)) 7000"
    by (simp add: closePeer_def Let_def getPlayer_def pendingWorld_fields samplePlayer_def
        samplePlayer2_def)
  have cp: "players (fst (closePeer pendingWorld ''c2'' 7000)) = [samplePlayer]"
    by (simp add: closePeer_def Let_def getPlayer_def pendingWorld_fields samplePlayer_def
        samplePlayer2_def)
  have r: "map (\<lambda>e. case e of Send q (WorldStateMessage _) \<Rightarrow> q | _ \<Rightarrow> ''none'')
        (snd (closePeer pendingWorld ''c2'' 7000)) = [''c1'']"
    unfolding c by (simp add: broadcastWorld_def cp samplePlayer_def)
  have d: "delivered ''c9'' (snd (closePeer pendingWorld ''c2'' 7000)) = []"
    unfolding c delivered_broadcast by (simp add: cp samplePlayer_def)
  have b1: "delivered ''c1'' (broadcastWorld pendingWorld 7000)
        = [WorldStateMessage (getWorldState pendingWorld 7000)]"
    unfolding delivered_broadcast
    by (simp add: pendingWorld_fields samplePlayer_def samplePlayer2_def)
  have b9: "delivered ''c9'' (broadcastWorld pendingWorld 7000) = []"
    unfolding delivered_broadcast
    by (simp add: pendingWorld_fields samplePlayer_def samplePlayer2_def)
  have n: "\<not> (\<forall>w peer t now. pendingJoinTimers w peer = Some t \<longrightarrow> players w \<noteq> [] \<longrightarrow>
            delivered peer (broadcastWorld w now) \<noteq> [])"
  proof
    assume "\<forall>w peer t now. pendingJoinTimers w peer = Some t \<longrightarrow> players w \<noteq> [] \<longrightarrow>
            delivered peer (broadcastWorld w now) \<noteq> []"
    then have "players pendingWorld \<noteq> [] \<longrightarrow> delivered ''c9'' (broadcastWorld pendingWorld 7000) \<noteq> []"
      using p by blast
    then show False using b9 by (simp add: pendingWorld_fields)
  qed
  show ?thesis
    by (rule conjI[OF p conjI[OF i conjI[OF r conjI[OF d conjI[OF b1 conjI[OF b9 n]]]]]])
qed

end
